theory Spec2Isabelle
  imports Main "HOL-Library.Char_ord" "HOL-Library.List_Lexorder" "HOL-Library.Sublist"
    "HOL-Library.Multiset"
begin

section \<open>JavaScript values used by expandTailwindAtRules\<close>

text \<open>
  Strings are \<open>string\<close>: a \<open>char\<close> stands for one code unit (below 256), and
  \<open>a < z\<close> on strings is the lexicographic order on code units that JavaScript's
  \<open><\<close> computes (a proper prefix is smaller).

  An exception is a value of \<open>error\<close>; a function that can throw returns
  \<open>error + 'a\<close> with \<open>Inl\<close> for the exception.
\<close>

datatype error =
    TypeError
  | ReadError
  | Thrown string

text \<open>
  A candidate is a JavaScript string value: a primitive string, or a String object
  (what \<open>new String(s)\<close> makes). A String object is \<open>===\<close>, and the same element
  of a \<open>Set\<close>, only to itself and never to a primitive string; \<open><\<close> compares it as
  the string it wraps (\<open>raw\<close>). The one String object that reaches this module is
  the sentinel \<open>sharedState.NOT_ON_DEMAND\<close>, so a String object is identified here by
  the string it wraps.
\<close>

datatype candidate =
    Primitive string
  | String_object string

fun raw :: "candidate \<Rightarrow> string" where
  "raw (Primitive s) = s"
| "raw (String_object s) = s"

text \<open>
  A JavaScript \<open>Set\<close> keeps its elements in insertion order and ignores the insertion
  of an element it already has: a list without duplicates. \<open>Set_add\<close> is
  \<open>set.add(x)\<close>, \<open>new_Set\<close> is \<open>new Set(iterable)\<close>, and spreading a set
  (\<open>[...set]\<close>, \<open>Array.from(set)\<close>) is the list itself. The elements are values
  whose equality is that of the \<open>Set\<close>: primitive strings, candidates, and references
  to objects.
\<close>

definition Set_add :: "'a list \<Rightarrow> 'a \<Rightarrow> 'a list" where
  "Set_add s x = (if x \<in> set s then s else s @ [x])"

definition Set_addAll :: "'a list \<Rightarrow> 'a list \<Rightarrow> 'a list" where
  "Set_addAll s xs = foldl Set_add s xs"

definition new_Set :: "'a list \<Rightarrow> 'a list" where
  "new_Set xs = Set_addAll [] xs"

section \<open>The host document\<close>

text \<open>
  A PostCSS node: its kind, its \<open>source\<close> (may be undefined), the object
  \<open>raws.tailwind\<close> (may be undefined) and its children. The root of a document is a
  node of kind \<open>Root\<close>. A value of \<open>node\<close> is the contents of a node object; a
  node of the host document is referred to by its path from the root, and a rule of
  the rule cache by a reference (\<open>rule_ref\<close>, below).
\<close>

record source =
  input :: string
  start :: "(nat \<times> nat) option"
  end_pos :: "(nat \<times> nat) option"

record tailwind_raws =
  parentLayer :: "string option"

datatype node_kind =
    Root
  | AtRule (name: string) (params: string)
  | Rule (selector: string)
  | Decl (decl_prop: string) (decl_value: string)
  | Comment (comment: string)

datatype node =
  Node (kind: node_kind) (source: "source option") (raws_tailwind: "tailwind_raws option")
    (nodes: "node list")

text \<open>\<open>node.raws.tailwind?.parentLayer\<close>: undefined when either part is.\<close>

definition raws_parentLayer :: "node \<Rightarrow> string option" where
  "raws_parentLayer n =
     (case raws_tailwind n of None \<Rightarrow> None | Some t \<Rightarrow> parentLayer t)"

section \<open>buildStylesheet\<close>

text \<open>
  A rule offset carries the layer tag (\<open>sort.layer\<close>); its other fields are read only
  by \<open>context.offsets.sort\<close>, which is not part of the sources and is a parameter
  (\<open>offsets_sort\<close>) of \<open>buildStylesheet\<close>.

  The rules are objects, and the five sets of \<open>buildStylesheet\<close> hold references to
  them: \<open>add\<close> compares references, so that two rule objects with the same contents
  are two elements and one object added twice is one. \<open>buildStylesheet\<close> never reads
  a rule, and is written here for any type \<open>'r\<close> of references. In the build context
  a reference is an address (\<open>rule_ref\<close>), and the context's \<open>objects\<close> give the node
  that stands at it.
\<close>

type_synonym rule_ref = nat

record ruleOffset =
  layer :: string

record 'r stylesheet =
  base :: "'r list"
  defaults :: "'r list"
  components :: "'r list"
  utilities :: "'r list"
  variants :: "'r list"

definition empty_stylesheet :: "'r stylesheet" where
  "empty_stylesheet =
     \<lparr>base = [], defaults = [], components = [], utilities = [], variants = []\<rparr>"

text \<open>
  \<open>returnValue[sort.layer].add(rule)\<close>: a layer tag that is not one of the five keys
  reads \<open>undefined\<close>, and calling \<open>add\<close> on it is a TypeError.
\<close>

definition returnValue_add ::
  "'r stylesheet \<Rightarrow> string \<Rightarrow> 'r \<Rightarrow> error + 'r stylesheet" where
  "returnValue_add rv l rule =
     (if l = ''base'' then Inr (rv\<lparr>base := Set_add (base rv) rule\<rparr>)
      else if l = ''defaults'' then Inr (rv\<lparr>defaults := Set_add (defaults rv) rule\<rparr>)
      else if l = ''components'' then Inr (rv\<lparr>components := Set_add (components rv) rule\<rparr>)
      else if l = ''utilities'' then Inr (rv\<lparr>utilities := Set_add (utilities rv) rule\<rparr>)
      else if l = ''variants'' then Inr (rv\<lparr>variants := Set_add (variants rv) rule\<rparr>)
      else Inl TypeError)"

fun buildStylesheet_loop ::
  "('o ruleOffset_scheme \<times> 'r) list \<Rightarrow> 'r stylesheet \<Rightarrow> error + 'r stylesheet" where
  "buildStylesheet_loop [] rv = Inr rv"
| "buildStylesheet_loop ((srt, rule) # rest) rv =
     (case returnValue_add rv (layer srt) rule of
        Inl e \<Rightarrow> Inl e
      | Inr rv' \<Rightarrow> buildStylesheet_loop rest rv')"

definition buildStylesheet ::
  "(('o ruleOffset_scheme \<times> 'r) list \<Rightarrow> ('o ruleOffset_scheme \<times> 'r) list) \<Rightarrow>
   ('o ruleOffset_scheme \<times> 'r) list \<Rightarrow> error + 'r stylesheet" where
  "buildStylesheet offsets_sort rules =
     (let sortedRules = offsets_sort rules
      in buildStylesheet_loop sortedRules empty_stylesheet)"

definition layer_tags :: "string list" where
  "layer_tags = [''base'', ''defaults'', ''components'', ''utilities'', ''variants'']"

text \<open>The layer set of a stylesheet that a tag names (empty for any other tag).\<close>

definition layer_set :: "'r stylesheet \<Rightarrow> string \<Rightarrow> 'r list" where
  "layer_set rv l =
     (if l = ''base'' then base rv
      else if l = ''defaults'' then defaults rv
      else if l = ''components'' then components rv
      else if l = ''utilities'' then utilities rv
      else if l = ''variants'' then variants rv
      else [])"

section \<open>Extractor and transformer registry\<close>

text \<open>
  A function value is its identity together with what calling it does. The built-in
  transformers are the two properties of \<open>builtInTransformers\<close>; a transformer from the
  configuration is a different function object, whatever it computes.
\<close>

datatype transformer =
    builtIn_DEFAULT
  | builtIn_svelte
  | ConfigTransformer nat "string \<Rightarrow> error + string"

text \<open>
  White space as \<open>\s\<close> and \<open>String.prototype.trim\<close> read it, among the code units
  below 256: tab, line feed, vertical tab, form feed, carriage return, space and the
  no-break space.
\<close>

definition is_space :: "char \<Rightarrow> bool" where
  "is_space c = (of_char c \<in> {9, 10, 11, 12, 13, 32, 160 :: nat})"

text \<open>
  \<open>content.replace(/(?:^|\s)class:/g, ' ')\<close>: every match, found from left to right
  and not overlapping, becomes one space. \<open>at_start\<close> says that the scan stands at the
  start of the input, where \<open>^\<close> matches.
\<close>

function svelte_replace :: "bool \<Rightarrow> string \<Rightarrow> string" where
  "svelte_replace at_start [] = []"
| "svelte_replace at_start (c # cs) =
     (if at_start \<and> prefix ''class:'' (c # cs)
        then CHR '' '' # svelte_replace False (drop 6 (c # cs))
      else if is_space c \<and> prefix ''class:'' cs
        then CHR '' '' # svelte_replace False (drop 6 cs)
      else c # svelte_replace False cs)"
  by pat_completeness auto
termination
  by (relation "measure (\<lambda>(b, s). length s)") auto

text \<open>\<open>===\<close> on transformers: the same function object.\<close>

fun same_transformer :: "transformer \<Rightarrow> transformer \<Rightarrow> bool" where
  "same_transformer builtIn_DEFAULT builtIn_DEFAULT = True"
| "same_transformer builtIn_svelte builtIn_svelte = True"
| "same_transformer (ConfigTransformer i f) (ConfigTransformer j g) = (i = j)"
| "same_transformer t t' = False"

fun transformer_call :: "transformer \<Rightarrow> string \<Rightarrow> error + string" where
  "transformer_call builtIn_DEFAULT content = Inr content"
| "transformer_call builtIn_svelte content = Inr (svelte_replace True content)"
| "transformer_call (ConfigTransformer i f) content = f content"

text \<open>
  The identity of an extractor function is the key of the \<open>extractorCache\<close> WeakMap:
  a function of the configuration, the exported \<open>defaultExtractor\<close> itself, or the
  \<open>n\<close>-th function that a call \<open>defaultExtractor(context)\<close> returned.
\<close>

datatype fn_id =
    ConfigFn nat
  | DefaultExtractorFn
  | DefaultExtractorResult nat

record extractor =
  fn_id :: fn_id
  call :: "string \<Rightarrow> error + string list"
  DEFAULT_EXTRACTOR :: bool

record tailwindConfig =
  content_extract :: "string \<rightharpoonup> extractor"
  content_transform :: "string \<rightharpoonup> transformer"

record content_item =
  item_file :: "string option"
  item_content :: "string option"
  item_extension :: string

text \<open>
  The build context, as far as this module reads and writes it. \<open>classCache\<close> is a
  \<open>Map\<close> from candidates, kept as the list of its entries; \<open>ruleCache\<close> is a \<open>Set\<close>
  of pairs of an offset and a rule, spread into a list where it is read. \<open>objects\<close>
  is no property of the context: it is the store into which the rule references of
  the caches point, kept with the context because \<open>generateRules\<close> makes the rule
  objects as it fills the caches.
\<close>

record 'o buildContext =
  tailwindConfig :: tailwindConfig
  context_candidates :: "candidate list option"
  changedContent :: "content_item list"
  classCache :: "(candidate \<times> ('o ruleOffset_scheme \<times> rule_ref) list) list"
  ruleCache :: "('o ruleOffset_scheme \<times> rule_ref) list"
  stylesheetCache :: "rule_ref stylesheet option"
  objects :: "rule_ref \<Rightarrow> node"

text \<open>
  What the module imports and the sources do not contain is a parameter: the string
  that the sentinel \<open>sharedState.NOT_ON_DEMAND\<close> wraps (the sentinel is a String
  object: the comments of lines 169 and 172 print it as \<open>[String: '*']\<close>),
  \<open>flagEnabled\<close>, \<open>defaultExtractor\<close> (as the function object that
  \<open>builtInExtractors.DEFAULT\<close> holds, and as what calling it with the context
  returns), \<open>parseCandidateStrings\<close>, \<open>fs.promises.readFile\<close>, \<open>generateRules\<close>,
  \<open>context.offsets.sort\<close> and \<open>cloneNodes\<close>. Extractors, transformers, the native
  scanner and the file read can throw; the other collaborators are taken to return.
  Extractors and the native scanner return primitive strings.

  The reads of a batch run concurrently. \<open>readTime k\<close> is the time at which the read
  completes that the entry at index \<open>k\<close> of \<open>regexParserContent\<close> starts; it is a
  parameter as well, and decides in which order the callbacks of a batch go on.
\<close>

record 'o externals =
  NOT_ON_DEMAND_string :: string
  flagEnabled :: "tailwindConfig \<Rightarrow> string \<Rightarrow> bool"
  defaultExtractor_fn :: extractor
  defaultExtractor :: "'o buildContext \<Rightarrow> string \<Rightarrow> error + string list"
  parseCandidateStrings :: "content_item list \<Rightarrow> error + string list"
  readFile :: "string \<Rightarrow> error + string"
  readTime :: "nat \<Rightarrow> nat"
  generateRules :: "candidate list \<Rightarrow> 'o buildContext \<Rightarrow> 'o buildContext"
  offsets_sort ::
    "('o ruleOffset_scheme \<times> rule_ref) list \<Rightarrow> ('o ruleOffset_scheme \<times> rule_ref) list"
  cloneNodes :: "node list \<Rightarrow> source option \<Rightarrow> string \<Rightarrow> node list"

definition NOT_ON_DEMAND :: "'o externals \<Rightarrow> candidate" where
  "NOT_ON_DEMAND ext = String_object (NOT_ON_DEMAND_string ext)"

text \<open>
  \<open>a || b\<close> on values that are a function or undefined: the first that is defined.
\<close>

definition or_else :: "'a option \<Rightarrow> 'a option \<Rightarrow> 'a option" where
  "or_else a b = (case a of Some x \<Rightarrow> Some x | None \<Rightarrow> b)"

definition builtInExtractors :: "'o externals \<Rightarrow> string \<rightharpoonup> extractor" where
  "builtInExtractors ext k = (if k = ''DEFAULT'' then Some (defaultExtractor_fn ext) else None)"

definition builtInTransformers :: "string \<rightharpoonup> transformer" where
  "builtInTransformers k =
     (if k = ''DEFAULT'' then Some builtIn_DEFAULT
      else if k = ''svelte'' then Some builtIn_svelte
      else None)"

text \<open>
  \<open>getExtractor\<close>: the last alternative calls \<open>builtInExtractors.DEFAULT(context)\<close>,
  which returns a new function each time, and marks it. \<open>n\<close> counts the functions
  made so far; the result carries the new count.
\<close>

definition getExtractor ::
  "'o externals \<Rightarrow> 'o buildContext \<Rightarrow> string \<Rightarrow> nat \<Rightarrow> extractor \<times> nat" where
  "getExtractor ext context fileExtension n =
     (let extractors = content_extract (tailwindConfig context)
      in case or_else (extractors fileExtension)
                (or_else (extractors ''DEFAULT'') (builtInExtractors ext fileExtension)) of
           Some e \<Rightarrow> (e, n)
         | None \<Rightarrow>
             (\<lparr>fn_id = DefaultExtractorResult n, call = defaultExtractor ext context,
               DEFAULT_EXTRACTOR = True\<rparr>, Suc n))"

definition getTransformer :: "tailwindConfig \<Rightarrow> string \<Rightarrow> transformer" where
  "getTransformer config fileExtension =
     (let transformers = content_transform config
      in case or_else (transformers fileExtension)
                (or_else (transformers ''DEFAULT'') (builtInTransformers fileExtension)) of
           Some t \<Rightarrow> t
         | None \<Rightarrow> builtIn_DEFAULT)"

section \<open>Line-memoized extraction\<close>

text \<open>
  The cache of \<open>@alloc/quick-lru\<close> (a library, not part of the sources) as this
  module uses it, without a maximal age: two generations of entries; a new key goes to
  the young one, and when the young generation has \<open>maxSize\<close> entries it becomes the
  old one and the former old generation is dropped. \<open>get\<close> moves an entry it finds
  in the old generation to the young one.
\<close>

record LRU =
  maxSize :: nat
  cache :: "string \<rightharpoonup> string list"
  oldCache :: "string \<rightharpoonup> string list"
  lru_size :: nat

definition new_LRU :: "nat \<Rightarrow> LRU" where
  "new_LRU m = \<lparr>maxSize = m, cache = Map.empty, oldCache = Map.empty, lru_size = 0\<rparr>"

definition LRU_set_young :: "LRU \<Rightarrow> string \<Rightarrow> string list \<Rightarrow> LRU" where
  "LRU_set_young c key v =
     (let c1 = c\<lparr>cache := (cache c)(key \<mapsto> v), lru_size := lru_size c + 1\<rparr>
      in if maxSize c1 \<le> lru_size c1
         then c1\<lparr>lru_size := 0, oldCache := cache c1, cache := Map.empty\<rparr>
         else c1)"

definition LRU_has :: "LRU \<Rightarrow> string \<Rightarrow> bool" where
  "LRU_has c key = (cache c key \<noteq> None \<or> oldCache c key \<noteq> None)"

definition LRU_get :: "LRU \<Rightarrow> string \<Rightarrow> string list option \<times> LRU" where
  "LRU_get c key =
     (case cache c key of
        Some v \<Rightarrow> (Some v, c)
      | None \<Rightarrow>
          (case oldCache c key of
             Some v \<Rightarrow> (Some v, LRU_set_young (c\<lparr>oldCache := (oldCache c)(key := None)\<rparr>) key v)
           | None \<Rightarrow> (None, c)))"

definition LRU_set :: "LRU \<Rightarrow> string \<Rightarrow> string list \<Rightarrow> LRU" where
  "LRU_set c key v =
     (if cache c key \<noteq> None then c\<lparr>cache := (cache c)(key \<mapsto> v)\<rparr>
      else LRU_set_young c key v)"

text \<open>\<open>content.split('\n')\<close> (at least one piece) and \<open>line.trim()\<close>.\<close>

fun split_lines :: "string \<Rightarrow> string list" where
  "split_lines [] = [[]]"
| "split_lines (c # cs) =
     (if c = CHR 0x0A then [] # split_lines cs
      else (case split_lines cs of
              [] \<Rightarrow> [[c]]
            | l # ls \<Rightarrow> (c # l) # ls))"

definition trim :: "string \<Rightarrow> string" where
  "trim s = rev (dropWhile is_space (rev (dropWhile is_space s)))"

text \<open>
  One turn of the loop of \<open>getClassCandidates\<close>. The sets \<open>candidates\<close> and
  \<open>seen\<close> are the caller's, and \<open>extractorCache\<close> is the module's WeakMap; the
  function returns all three as it leaves them. Reading a cache that the WeakMap does
  not hold would be a TypeError, as would iterating an undefined cache entry. The
  matches are primitive strings.
\<close>

definition getClassCandidates_line ::
  "extractor \<Rightarrow> string \<Rightarrow> candidate list \<times> string list \<times> (fn_id \<rightharpoonup> LRU) \<Rightarrow>
   error + candidate list \<times> string list \<times> (fn_id \<rightharpoonup> LRU)" where
  "getClassCandidates_line extractor l st =
     (case st of (candidates, seen, extractorCache) \<Rightarrow>
        let line = trim l
        in if line \<in> set seen then Inr (candidates, seen, extractorCache)
           else
             let seen = Set_add seen line
             in case extractorCache (fn_id extractor) of
                  None \<Rightarrow> Inl TypeError
                | Some lru \<Rightarrow>
                    if LRU_has lru line then
                      (case LRU_get lru line of
                         (None, lru') \<Rightarrow> Inl TypeError
                       | (Some matches, lru') \<Rightarrow>
                           Inr (Set_addAll candidates (map Primitive matches), seen,
                                extractorCache(fn_id extractor \<mapsto> lru')))
                    else
                      (case call extractor line of
                         Inl e \<Rightarrow> Inl e
                       | Inr result \<Rightarrow>
                           let extractorMatches = filter (\<lambda>s. s \<noteq> ''!*'') result;
                               lineMatchesSet = new_Set extractorMatches
                           in Inr (Set_addAll candidates (map Primitive lineMatchesSet), seen,
                                   extractorCache(fn_id extractor \<mapsto>
                                     LRU_set lru line lineMatchesSet))))"

fun getClassCandidates_lines ::
  "extractor \<Rightarrow> string list \<Rightarrow> candidate list \<times> string list \<times> (fn_id \<rightharpoonup> LRU) \<Rightarrow>
   error + candidate list \<times> string list \<times> (fn_id \<rightharpoonup> LRU)" where
  "getClassCandidates_lines extractor [] st = Inr st"
| "getClassCandidates_lines extractor (l # ls) st =
     (case getClassCandidates_line extractor l st of
        Inl e \<Rightarrow> Inl e
      | Inr st' \<Rightarrow> getClassCandidates_lines extractor ls st')"

definition getClassCandidates ::
  "string \<Rightarrow> extractor \<Rightarrow> candidate list \<Rightarrow> string list \<Rightarrow> (fn_id \<rightharpoonup> LRU) \<Rightarrow>
   error + candidate list \<times> string list \<times> (fn_id \<rightharpoonup> LRU)" where
  "getClassCandidates content extractor candidates seen extractorCache =
     (let extractorCache =
            (if extractorCache (fn_id extractor) = None
             then extractorCache(fn_id extractor \<mapsto> new_LRU 25000)
             else extractorCache)
      in getClassCandidates_lines extractor (split_lines content)
           (candidates, seen, extractorCache))"

section \<open>Scan router and candidate collector\<close>

text \<open>
  The routing loop over \<open>context.changedContent\<close>. \<open>made\<close> is the number of
  functions that \<open>defaultExtractor(context)\<close> has returned so far.
\<close>

record routing =
  rustParserContent :: "content_item list"
  regexParserContent :: "(content_item \<times> transformer \<times> extractor) list"
  made :: nat

definition route_item ::
  "'o externals \<Rightarrow> 'o buildContext \<Rightarrow> routing \<Rightarrow> content_item \<Rightarrow> routing" where
  "route_item ext context r item =
     (let transformer = getTransformer (tailwindConfig context) (item_extension item);
          (extractor, n) = getExtractor ext context (item_extension item) (made r)
      in if flagEnabled ext (tailwindConfig context) ''oxideParser'' \<and>
            same_transformer transformer builtIn_DEFAULT \<and>
            DEFAULT_EXTRACTOR extractor = True
         then r\<lparr>rustParserContent := rustParserContent r @ [item], made := n\<rparr>
         else r\<lparr>regexParserContent := regexParserContent r @ [(item, transformer, extractor)],
                made := n\<rparr>)"

definition route :: "'o externals \<Rightarrow> 'o buildContext \<Rightarrow> nat \<Rightarrow> routing" where
  "route ext context n =
     foldl (route_item ext context)
       \<lparr>rustParserContent = [], regexParserContent = [], made = n\<rparr>
       (changedContent context)"

text \<open>
  The body of the callback of \<open>batch.map\<close>: the content is read from the file when
  the item names one (a non-empty path) and is the item's own content otherwise; an
  undefined content cannot be transformed and split (a TypeError).
\<close>

definition read_content :: "'o externals \<Rightarrow> content_item \<Rightarrow> error + string" where
  "read_content ext item =
     (case item_file item of
        Some f \<Rightarrow>
          if f \<noteq> [] then readFile ext f
          else (case item_content item of None \<Rightarrow> Inl TypeError | Some c \<Rightarrow> Inr c)
      | None \<Rightarrow> (case item_content item of None \<Rightarrow> Inl TypeError | Some c \<Rightarrow> Inr c))"

definition scan_entry ::
  "'o externals \<Rightarrow> content_item \<times> transformer \<times> extractor \<Rightarrow>
   candidate list \<times> string list \<times> (fn_id \<rightharpoonup> LRU) \<Rightarrow>
   error + candidate list \<times> string list \<times> (fn_id \<rightharpoonup> LRU)" where
  "scan_entry ext entry st =
     (case entry of (item, transformer, extractor) \<Rightarrow>
      case st of (candidates, seen, extractorCache) \<Rightarrow>
        (case read_content ext item of
           Inl e \<Rightarrow> Inl e
         | Inr content \<Rightarrow>
             (case transformer_call transformer content of
                Inl e \<Rightarrow> Inl e
              | Inr transformed \<Rightarrow>
                  getClassCandidates transformed extractor candidates seen extractorCache)))"

text \<open>
  \<open>Promise.all(batch.map(...))\<close>: the callback of an item that names no file does not
  wait and scans the item while the batch is mapped; the callback of an item that
  names a file starts its read then and goes on when the read completes, after the
  batch is mapped. \<open>scan_order\<close> is the order in which the entries of a batch are
  scanned: those without a file in the order of the batch, then those with a file in
  the order in which their reads complete (in the order of the batch when the times
  are equal). \<open>i\<close> is the index in \<open>regexParserContent\<close> at which the batch begins.
\<close>

definition names_file :: "content_item \<times> transformer \<times> extractor \<Rightarrow> bool" where
  "names_file entry =
     (case entry of (item, transformer, extractor) \<Rightarrow>
        (case item_file item of None \<Rightarrow> False | Some f \<Rightarrow> f \<noteq> []))"

definition scan_order ::
  "'o externals \<Rightarrow> nat \<Rightarrow> (content_item \<times> transformer \<times> extractor) list \<Rightarrow>
   (content_item \<times> transformer \<times> extractor) list" where
  "scan_order ext i batch =
     (let started = zip [i ..< i + length batch] batch
      in map snd (filter (\<lambda>(k, entry). \<not> names_file entry) started) @
         map snd (sort_key (\<lambda>(k, entry). readTime ext k)
                    (filter (\<lambda>(k, entry). names_file entry) started)))"

fun scan_entries ::
  "'o externals \<Rightarrow> (content_item \<times> transformer \<times> extractor) list \<Rightarrow>
   candidate list \<times> string list \<times> (fn_id \<rightharpoonup> LRU) \<Rightarrow>
   error + candidate list \<times> string list \<times> (fn_id \<rightharpoonup> LRU)" where
  "scan_entries ext [] st = Inr st"
| "scan_entries ext (entry # entries) st =
     (case scan_entry ext entry st of
        Inl e \<Rightarrow> Inl e
      | Inr st' \<Rightarrow> scan_entries ext entries st')"

definition scan_batch ::
  "'o externals \<Rightarrow> nat \<Rightarrow> (content_item \<times> transformer \<times> extractor) list \<Rightarrow>
   candidate list \<times> string list \<times> (fn_id \<rightharpoonup> LRU) \<Rightarrow>
   error + candidate list \<times> string list \<times> (fn_id \<rightharpoonup> LRU)" where
  "scan_batch ext i batch st = scan_entries ext (scan_order ext i batch) st"

definition BATCH_SIZE :: nat where
  "BATCH_SIZE = 500"

text \<open>\<open>array.slice(a, b)\<close> for indices that are not negative.\<close>

definition slice :: "'a list \<Rightarrow> nat \<Rightarrow> nat \<Rightarrow> 'a list" where
  "slice xs a b = take (b - a) (drop a xs)"

text \<open>The loop of lines 206 to 215, from the index \<open>i\<close> on.\<close>

function scan_batches ::
  "'o externals \<Rightarrow> (content_item \<times> transformer \<times> extractor) list \<Rightarrow> nat \<Rightarrow>
   candidate list \<times> string list \<times> (fn_id \<rightharpoonup> LRU) \<Rightarrow>
   error + candidate list \<times> string list \<times> (fn_id \<rightharpoonup> LRU)" where
  "scan_batches ext entries i st =
     (if i < length entries
      then (let batch = slice entries i (i + BATCH_SIZE)
            in case scan_batch ext i batch st of
                 Inl e \<Rightarrow> Inl e
               | Inr st' \<Rightarrow> scan_batches ext entries (i + BATCH_SIZE) st')
      else Inr st)"
  by pat_completeness auto
termination
  by (relation "measure (\<lambda>(ext, rs, i, st). length rs - i)") (auto simp: BATCH_SIZE_def)

declare scan_batches.simps [simp del]

text \<open>
  The order in which the loop scans the entries of \<open>regexParserContent\<close> from the
  index \<open>i\<close> on (batch after batch), and the trimmed lines that the scan of an entry
  meets (none when its content cannot be read or transformed).
\<close>

function scan_sequence ::
  "'o externals \<Rightarrow> (content_item \<times> transformer \<times> extractor) list \<Rightarrow> nat \<Rightarrow>
   (content_item \<times> transformer \<times> extractor) list" where
  "scan_sequence ext entries i =
     (if i < length entries
      then scan_order ext i (slice entries i (i + BATCH_SIZE)) @
           scan_sequence ext entries (i + BATCH_SIZE)
      else [])"
  by pat_completeness auto
termination
  by (relation "measure (\<lambda>(ext, rs, i). length rs - i)") (auto simp: BATCH_SIZE_def)

declare scan_sequence.simps [simp del]

definition entry_lines ::
  "'o externals \<Rightarrow> content_item \<times> transformer \<times> extractor \<Rightarrow> string set" where
  "entry_lines ext entry =
     (case entry of (item, transformer, extractor) \<Rightarrow>
        (case read_content ext item of
           Inl e \<Rightarrow> {}
         | Inr content \<Rightarrow>
             (case transformer_call transformer content of
                Inl e \<Rightarrow> {}
              | Inr transformed \<Rightarrow> trim ` set (split_lines transformed))))"

text \<open>
  The comparator of the sort: \<open>===\<close> is equality of candidates, and \<open><\<close> compares
  the strings. For the sentinel and the primitive string that it wraps the answer is
  1 both ways: the comparator is not consistent on them, and the language then leaves
  the order to the implementation.

  \<open>Array.prototype.sort\<close> is modelled as V8 sorts: a stable sort that asks the
  comparator only whether its answer is negative. Here that is an insertion sort in
  which an element goes before the first element that the comparator puts after it.
\<close>

definition compare_candidates :: "candidate \<Rightarrow> candidate \<Rightarrow> int" where
  "compare_candidates a z = (if a = z then 0 else if raw a < raw z then - 1 else 1)"

fun insert_sorted :: "('a \<Rightarrow> 'a \<Rightarrow> int) \<Rightarrow> 'a \<Rightarrow> 'a list \<Rightarrow> 'a list" where
  "insert_sorted cmp x [] = [x]"
| "insert_sorted cmp x (y # ys) =
     (if cmp x y < 0 then x # y # ys else y # insert_sorted cmp x ys)"

definition Array_sort :: "('a \<Rightarrow> 'a \<Rightarrow> int) \<Rightarrow> 'a list \<Rightarrow> 'a list" where
  "Array_sort cmp xs = foldl (\<lambda>acc x. insert_sorted cmp x acc) [] xs"

definition sortedCandidates :: "candidate list \<Rightarrow> candidate list" where
  "sortedCandidates candidates = new_Set (Array_sort compare_candidates candidates)"

text \<open>
  The candidates of one pass: the set starts from \<open>context.candidates ?? []\<close> and the
  sentinel; the items routed to the native scanner give theirs when there is at least
  one such item; the other items go through the extractors, with one \<open>seen\<close> set for
  the whole pass. The result is the candidate set, the WeakMap and the count of
  default extractor functions as the pass leaves them.
\<close>

definition initial_candidates :: "'o externals \<Rightarrow> 'o buildContext \<Rightarrow> candidate list" where
  "initial_candidates ext context =
     new_Set ((case context_candidates context of None \<Rightarrow> [] | Some cs \<Rightarrow> cs) @
              [NOT_ON_DEMAND ext])"

definition collect_candidates ::
  "'o externals \<Rightarrow> 'o buildContext \<Rightarrow> (fn_id \<rightharpoonup> LRU) \<Rightarrow> nat \<Rightarrow>
   error + candidate list \<times> (fn_id \<rightharpoonup> LRU) \<times> nat" where
  "collect_candidates ext context extractorCache n =
     (let candidates = initial_candidates ext context;
          seen = [];
          r = route ext context n
      in case (if rustParserContent r \<noteq> []
               then (case parseCandidateStrings ext (rustParserContent r) of
                       Inl e \<Rightarrow> Inl e
                     | Inr found \<Rightarrow> Inr (Set_addAll candidates (map Primitive found)))
               else Inr candidates) of
           Inl e \<Rightarrow> Inl e
         | Inr candidates \<Rightarrow>
             (case scan_batches ext (regexParserContent r) 0
                     (candidates, seen, extractorCache) of
                Inl e \<Rightarrow> Inl e
              | Inr (candidates, seen, extractorCache) \<Rightarrow>
                  Inr (candidates, extractorCache, made r)))"

section \<open>Rule generation and the stylesheet cache\<close>

text \<open>\<open>map.size\<close> of a Map kept as a list of entries: the number of its keys.\<close>

definition Map_size :: "('k \<times> 'v) list \<Rightarrow> nat" where
  "Map_size m = length (remdups (map fst m))"

text \<open>
  Lines 224 to 253: the size of the class cache is read, the sorted candidates go to
  \<open>generateRules\<close>, and the stylesheet cache is built again when it is null or the
  size of the class cache is no longer what was read.
\<close>

definition needs_rebuild :: "'o buildContext \<Rightarrow> nat \<Rightarrow> bool" where
  "needs_rebuild context classCacheCount =
     (stylesheetCache context = None \<or> Map_size (classCache context) \<noteq> classCacheCount)"

definition generate ::
  "'o externals \<Rightarrow> candidate list \<Rightarrow> 'o buildContext \<Rightarrow> error + 'o buildContext" where
  "generate ext candidates context =
     (let classCacheCount = Map_size (classCache context);
          context = generateRules ext (sortedCandidates candidates) context
      in if needs_rebuild context classCacheCount
         then (case buildStylesheet (offsets_sort ext) (ruleCache context) of
                 Inl e \<Rightarrow> Inl e
               | Inr s \<Rightarrow> Inr (context\<lparr>stylesheetCache := Some s\<rparr>))
         else Inr context)"

section \<open>Layer markers\<close>

text \<open>
  \<open>walk\<close> lists the descendants of a container in the order in which PostCSS visits
  them (a node before its children, children from first to last), each with its path:
  the child indices that lead to it from the root.
\<close>

fun walk :: "nat list \<Rightarrow> nat \<Rightarrow> node list \<Rightarrow> (nat list \<times> node) list" where
  "walk p i [] = []"
| "walk p i (Node k s r children # cs) =
     (p @ [i], Node k s r children) # walk (p @ [i]) 0 children @ walk p (Suc i) cs"

text \<open>The node that a path leads to, below a container with the children \<open>ns\<close>.\<close>

fun node_at :: "nat list \<Rightarrow> node list \<Rightarrow> node option" where
  "node_at [] ns = None"
| "node_at [i] ns = (if i < length ns then Some (ns ! i) else None)"
| "node_at (i # j # p) ns = (if i < length ns then node_at (j # p) (nodes (ns ! i)) else None)"

text \<open>
  \<open>layerNodes\<close> holds, for each of its four keys, null or a reference to a node of
  the document: the node and the path at which the walk found it. A string that is
  not a key has no property (undefined), read here as \<open>None\<close> too.
\<close>

type_synonym layerNodes = "string \<Rightarrow> (nat list \<times> node) option"

definition layerNodes_keys :: "string list" where
  "layerNodes_keys = [''base'', ''components'', ''utilities'', ''variants'']"

definition layerNodes_callback :: "layerNodes \<Rightarrow> nat list \<times> node \<Rightarrow> layerNodes" where
  "layerNodes_callback layerNodes visit =
     (case visit of (p, rule) \<Rightarrow>
        (case kind rule of
           AtRule nm ps \<Rightarrow>
             if nm = ''tailwind''
             then (if ps \<in> set layerNodes_keys then layerNodes(ps := Some (p, rule))
                   else layerNodes)
             else layerNodes
         | _ \<Rightarrow> layerNodes))"

definition find_layerNodes :: "node \<Rightarrow> layerNodes" where
  "find_layerNodes root = foldl layerNodes_callback (\<lambda>k. None) (walk [] 0 (nodes root))"

definition no_layerNodes :: "layerNodes \<Rightarrow> bool" where
  "no_layerNodes layerNodes = list_all (\<lambda>k. layerNodes k = None) layerNodes_keys"

section \<open>Splice engine\<close>

fun set_nodes :: "node \<Rightarrow> node list \<Rightarrow> node" where
  "set_nodes (Node k s r cs) cs' = Node k s r cs'"

fun set_source :: "node \<Rightarrow> source option \<Rightarrow> node" where
  "set_source (Node k s r cs) s' = Node k s' r cs"

text \<open>
  \<open>marker.before(new); marker.remove()\<close> for the marker at a path below a container
  with the children \<open>ns\<close>: the new nodes take the marker's place among its siblings.
\<close>

fun replace_at :: "nat list \<Rightarrow> node list \<Rightarrow> node list \<Rightarrow> node list" where
  "replace_at [] new ns = ns"
| "replace_at [i] new ns =
     (if i < length ns then take i ns @ new @ drop (Suc i) ns else ns)"
| "replace_at (i # j # p) new ns =
     (if i < length ns
      then ns[i := set_nodes (ns ! i) (replace_at (j # p) new (nodes (ns ! i)))]
      else ns)"

text \<open>
  Where the node that stood at path \<open>q\<close> stands after the node at path \<open>p\<close> was
  replaced by \<open>k\<close> nodes: later siblings of the replaced node move by \<open>k - 1\<close>, and
  the replaced node and its descendants are no longer in the document (\<open>None\<close>).
\<close>

fun adjust :: "nat list \<Rightarrow> nat \<Rightarrow> nat list \<Rightarrow> nat list option" where
  "adjust [] k q = Some q"
| "adjust (i # p) k [] = Some []"
| "adjust [i] k (j # q) =
     (if j < i then Some (j # q)
      else if j = i then None
      else Some ((j + k - 1) # q))"
| "adjust (i # i' # p) k (j # q) =
     (if j = i then map_option ((#) j) (adjust (i' # p) k q) else Some (j # q))"

text \<open>
  One of the blocks \<open>if (layerNodes.base) { ... }\<close> (lines 271 to 296, and 313 to 319
  for the variants marker): the clones of the layer's nodes, made with the marker's
  source and the layer name, replace the marker. The state is the root and, for each
  key, where its marker now stands in the root (\<open>None\<close> for null and for a marker that
  is no longer in the document: inserting before such a marker does not change the
  root).
\<close>

definition splice_marker ::
  "'o externals \<Rightarrow> layerNodes \<Rightarrow> string \<Rightarrow> node list \<Rightarrow>
   node \<times> (string \<Rightarrow> nat list option) \<Rightarrow> node \<times> (string \<Rightarrow> nat list option)" where
  "splice_marker ext layerNodes key layer_nodes st =
     (case st of (root, at) \<Rightarrow>
        (case layerNodes key of
           None \<Rightarrow> (root, at)
         | Some (p0, marker) \<Rightarrow>
             let new = cloneNodes ext layer_nodes (source marker) key
             in (case at key of
                   None \<Rightarrow> (root, at)
                 | Some p \<Rightarrow>
                     (set_nodes root (replace_at p new (nodes root)),
                      (\<lambda>k. case at k of None \<Rightarrow> None | Some q \<Rightarrow> adjust p (length new) q)))))"

text \<open>The post-filter of the variants layer (lines 299 to 311).\<close>

definition variantNodes :: "layerNodes \<Rightarrow> node list \<Rightarrow> node list" where
  "variantNodes layerNodes screenNodes =
     filter (\<lambda>node.
        let parentLayer = raws_parentLayer node
        in if parentLayer = Some ''components'' then layerNodes ''components'' \<noteq> None
           else if parentLayer = Some ''utilities'' then layerNodes ''utilities'' \<noteq> None
           else True) screenNodes"

text \<open>
  Lines 325 to 333: every descendant of a cloned node that has no source takes the
  source of \<open>layerNodes[parentLayer]\<close>. That expression is evaluated only for such a
  descendant, and it is a TypeError when \<open>layerNodes[parentLayer]\<close> is null or
  undefined. (Property names that every object inherits are not modelled.) A
  declaration or a comment is no container and has no method \<open>walk\<close>: calling it
  is a TypeError as well.
\<close>

fun fill_source :: "source option \<Rightarrow> node \<Rightarrow> node" where
  "fill_source s (Node k src r cs) =
     Node k (if src = None then s else src) r (map (fill_source s) cs)"

fun has_sources :: "node \<Rightarrow> bool" where
  "has_sources (Node k src r cs) = (src \<noteq> None \<and> list_all has_sources cs)"

definition backfill :: "layerNodes \<Rightarrow> node \<Rightarrow> error + node" where
  "backfill layerNodes node =
     (let parentLayer = raws_parentLayer node
      in case kind node of
           Decl p v \<Rightarrow> Inl TypeError
         | Comment t \<Rightarrow> Inl TypeError
         | _ \<Rightarrow>
             if list_all has_sources (nodes node) then Inr node
             else (case (case parentLayer of
                           None \<Rightarrow> None
                         | Some pl \<Rightarrow>
                             if pl \<in> set layerNodes_keys then layerNodes pl else None) of
                     None \<Rightarrow> Inl TypeError
                   | Some (p, marker) \<Rightarrow>
                       Inr (set_nodes node
                              (map (fill_source (source marker)) (nodes node)))))"

fun backfill_all :: "layerNodes \<Rightarrow> node list \<Rightarrow> error + node list" where
  "backfill_all layerNodes [] = Inr []"
| "backfill_all layerNodes (node # cloned) =
     (case backfill layerNodes node of
        Inl e \<Rightarrow> Inl e
      | Inr node' \<Rightarrow>
          (case backfill_all layerNodes cloned of
             Inl e \<Rightarrow> Inl e
           | Inr cloned' \<Rightarrow> Inr (node' # cloned')))"

definition splice_variants ::
  "'o externals \<Rightarrow> layerNodes \<Rightarrow> node list \<Rightarrow>
   node \<times> (string \<Rightarrow> nat list option) \<Rightarrow> error + node \<times> (string \<Rightarrow> nat list option)" where
  "splice_variants ext layerNodes variant_nodes st =
     (case st of (root, at) \<Rightarrow>
        if layerNodes ''variants'' \<noteq> None
        then Inr (splice_marker ext layerNodes ''variants'' variant_nodes st)
        else if 0 < length variant_nodes
        then (case backfill_all layerNodes (cloneNodes ext variant_nodes None ''variants'') of
                Inl e \<Rightarrow> Inl e
              | Inr cloned \<Rightarrow> Inr (set_nodes root (nodes root @ cloned), at))
        else Inr st)"

text \<open>\<open>root.source.end = root.source.end ?? root.source.start\<close>\<close>

definition fix_source_end :: "node \<Rightarrow> error + node" where
  "fix_source_end root =
     (case source root of
        None \<Rightarrow> Inl TypeError
      | Some s \<Rightarrow>
          Inr (set_source root
                 (Some (s\<lparr>end_pos := (case end_pos s of None \<Rightarrow> start s | Some e \<Rightarrow> Some e)\<rparr>))))"

text \<open>
  The diagnostics channel is the list of the calls of \<open>log.warn\<close>, each a key and
  its message lines.
\<close>

definition content_problems :: "string \<times> string list" where
  "content_problems =
     (''content-problems'',
      [''No utility classes were detected in your source files. If this is unexpected, double-check the `content` option in your Tailwind CSS configuration.'',
       ''https://tailwindcss.com/docs/content-configuration''])"

definition hasUtilityVariants :: "node list \<Rightarrow> bool" where
  "hasUtilityVariants variant_nodes =
     list_ex (\<lambda>node. raws_parentLayer node = Some ''utilities'') variant_nodes"

definition warn_utilities ::
  "layerNodes \<Rightarrow> node list \<Rightarrow> node list \<Rightarrow> (string \<times> string list) list \<Rightarrow>
   (string \<times> string list) list" where
  "warn_utilities layerNodes utilityNodes variant_nodes warned =
     (if layerNodes ''utilities'' \<noteq> None \<and> length utilityNodes = 0 \<and>
         \<not> hasUtilityVariants variant_nodes
      then warned @ [content_problems]
      else warned)"

text \<open>
  The splice engine spreads the sets of the stylesheet cache, reads their size and
  reads and clones their rules; it never compares them. It is written over the nodes
  that the references of each set stand for, in the order of the set
  (\<open>stylesheet_nodes\<close>).
\<close>

definition stylesheet_nodes :: "('r \<Rightarrow> node) \<Rightarrow> 'r stylesheet \<Rightarrow> node stylesheet" where
  "stylesheet_nodes obj sheet =
     \<lparr>base = map obj (base sheet), defaults = map obj (defaults sheet),
      components = map obj (components sheet), utilities = map obj (utilities sheet),
      variants = map obj (variants sheet)\<rparr>"

text \<open>
  Lines 256 to 296: the three layers that are spliced at their markers, in this order.
  The base marker takes the base nodes followed by the defaults nodes.
\<close>

definition splice_layers ::
  "'o externals \<Rightarrow> layerNodes \<Rightarrow> node stylesheet \<Rightarrow> node \<Rightarrow>
   node \<times> (string \<Rightarrow> nat list option)" where
  "splice_layers ext layerNodes sheet root =
     (let defaultNodes = defaults sheet;
          baseNodes = base sheet;
          componentNodes = components sheet;
          utilityNodes = utilities sheet;
          st0 = (root, \<lambda>k. map_option fst (layerNodes k));
          st1 = splice_marker ext layerNodes ''base'' (baseNodes @ defaultNodes) st0;
          st2 = splice_marker ext layerNodes ''components'' componentNodes st1
      in splice_marker ext layerNodes ''utilities'' utilityNodes st2)"

text \<open>
  Lines 256 to 351. The result is the root and the calls of \<open>log.warn\<close>.
\<close>

definition splice_root ::
  "'o externals \<Rightarrow> layerNodes \<Rightarrow> node stylesheet \<Rightarrow> node \<Rightarrow> (string \<times> string list) list \<Rightarrow>
   error + node \<times> (string \<times> string list) list" where
  "splice_root ext layerNodes sheet root warned =
     (let utilityNodes = utilities sheet;
          screenNodes = variants sheet;
          st3 = splice_layers ext layerNodes sheet root;
          variant_nodes = variantNodes layerNodes screenNodes
      in case splice_variants ext layerNodes variant_nodes st3 of
           Inl e \<Rightarrow> Inl e
         | Inr (root4, at4) \<Rightarrow>
             (case fix_source_end root4 of
                Inl e \<Rightarrow> Inl e
              | Inr root5 \<Rightarrow>
                  Inr (root5, warn_utilities layerNodes utilityNodes variant_nodes warned)))"

text \<open>
  Lines 363 to 368: every at-rule \<open>layer\<close> whose parameter is one of the four keys is
  removed, at any depth.
\<close>

definition stale_layer :: "node \<Rightarrow> bool" where
  "stale_layer n =
     (case kind n of
        AtRule nm ps \<Rightarrow> nm = ''layer'' \<and> ps \<in> set layerNodes_keys
      | _ \<Rightarrow> False)"

fun remove_layers :: "node list \<Rightarrow> node list" where
  "remove_layers [] = []"
| "remove_layers (Node k s r children # cs) =
     (if stale_layer (Node k s r children) then remove_layers cs
      else Node k s r (remove_layers children) # remove_layers cs)"

section \<open>The build pass\<close>

text \<open>
  What outlives a pass: the build context, the module's \<open>extractorCache\<close>, the number
  of functions that \<open>defaultExtractor(context)\<close> has returned, and the warnings
  logged. A pass that throws is \<open>Inl\<close>; what it had changed by then is not modelled,
  nor is what it prints to the console when \<open>env.DEBUG\<close> is set. The function
  returns the root on the early exit and nothing otherwise; the model returns the root
  as the pass leaves it in both cases.
\<close>

record 'o state =
  build_context :: "'o buildContext"
  extractor_caches :: "fn_id \<rightharpoonup> LRU"
  functions_made :: nat
  warnings :: "(string \<times> string list) list"

definition expandTailwindAtRules ::
  "'o externals \<Rightarrow> 'o state \<Rightarrow> node \<Rightarrow> error + 'o state \<times> node" where
  "expandTailwindAtRules ext st root =
     (let layerNodes = find_layerNodes root
      in if no_layerNodes layerNodes then Inr (st, root)
         else
           (case collect_candidates ext (build_context st) (extractor_caches st)
                   (functions_made st) of
              Inl e \<Rightarrow> Inl e
            | Inr (candidates, extractorCache, n) \<Rightarrow>
                (case generate ext candidates (build_context st) of
                   Inl e \<Rightarrow> Inl e
                 | Inr context \<Rightarrow>
                     (case stylesheetCache context of
                        None \<Rightarrow> Inl TypeError
                      | Some sheet \<Rightarrow>
                          (case splice_root ext layerNodes
                                  (stylesheet_nodes (objects context) sheet) root
                                  (warnings st) of
                             Inl e \<Rightarrow> Inl e
                           | Inr (root', warned) \<Rightarrow>
                               Inr (\<lparr>build_context = context\<lparr>changedContent := []\<rparr>,
                                     extractor_caches = extractorCache,
                                     functions_made = n,
                                     warnings = warned\<rparr>,
                                    set_nodes root' (remove_layers (nodes root'))))))))"

section \<open>Example inputs\<close>

text \<open>
  Concrete collaborators and documents on which the theorems below are instantiated:
  a \<open>cloneNodes\<close> that gives each clone the source it is passed, an extractor that
  splits a line at spaces, and a \<open>generateRules\<close> that records every new candidate in
  the class cache and makes one new rule object for it, at the next free address: a
  base rule for a String object (the sentinel) and a utility rule for a primitive
  string.
\<close>

definition example_cloneNodes :: "node list \<Rightarrow> source option \<Rightarrow> string \<Rightarrow> node list" where
  "example_cloneNodes ns src l =
     map (\<lambda>n. case src of None \<Rightarrow> n | Some s \<Rightarrow> set_source n (Some s)) ns"

fun example_words :: "string \<Rightarrow> string \<Rightarrow> string list" where
  "example_words w [] = (if w = [] then [] else [w])"
| "example_words w (c # cs) =
     (if c = CHR '' '' then (if w = [] then [] else [w]) @ example_words [] cs
      else example_words (w @ [c]) cs)"

fun example_layer :: "candidate \<Rightarrow> ruleOffset" where
  "example_layer (String_object s) = \<lparr>layer = ''base''\<rparr>"
| "example_layer (Primitive s) = \<lparr>layer = ''utilities''\<rparr>"

fun example_rule :: "candidate \<Rightarrow> node" where
  "example_rule (String_object s) = Node (Rule ''html'') None None []"
| "example_rule (Primitive s) = Node (Rule (CHR ''.'' # s)) None None []"

definition example_generateRules ::
  "candidate list \<Rightarrow> unit buildContext \<Rightarrow> unit buildContext" where
  "example_generateRules cs context =
     foldl (\<lambda>ctx c.
        if c \<in> set (map fst (classCache ctx)) then ctx
        else let a = length (ruleCache ctx)
             in ctx\<lparr>classCache := classCache ctx @ [(c, [(example_layer c, a)])],
                    ruleCache := ruleCache ctx @ [(example_layer c, a)],
                    objects := (objects ctx)(a := example_rule c)\<rparr>) context cs"

definition example_externals :: "unit externals" where
  "example_externals =
     \<lparr>NOT_ON_DEMAND_string = ''*'',
      flagEnabled = (\<lambda>config flag. False),
      defaultExtractor_fn =
        \<lparr>fn_id = DefaultExtractorFn, call = (\<lambda>line. Inl TypeError), DEFAULT_EXTRACTOR = False\<rparr>,
      defaultExtractor = (\<lambda>context line. Inr (example_words [] line)),
      parseCandidateStrings = (\<lambda>items. Inr []),
      readFile = (\<lambda>path. Inl ReadError),
      readTime = (\<lambda>k. k),
      generateRules = example_generateRules,
      offsets_sort = (\<lambda>rules. rules),
      cloneNodes = example_cloneNodes\<rparr>"

definition example_source :: "nat \<Rightarrow> source" where
  "example_source l = \<lparr>input = ''input.css'', start = Some (l, 1), end_pos = Some (l, 20)\<rparr>"

definition example_directive :: "string \<Rightarrow> nat \<Rightarrow> node" where
  "example_directive l n = Node (AtRule ''tailwind'' l) (Some (example_source n)) None []"

definition example_root :: "node list \<Rightarrow> node" where
  "example_root ns = Node Root (Some (example_source 1)) None ns"

definition example_variant :: "string \<Rightarrow> string option \<Rightarrow> node" where
  "example_variant sel parent =
     Node (AtRule ''media'' ''(min-width: 640px)'') None (Some \<lparr>parentLayer = parent\<rparr>)
       [Node (Rule sel) None None []]"

definition example_document :: node where
  "example_document =
     example_root [example_directive ''utilities'' 1, example_directive ''variants'' 2]"

definition example_sheet :: "node stylesheet" where
  "example_sheet =
     \<lparr>base = [], defaults = [], components = [], utilities = [],
      variants = [example_variant ''.sm:flex'' (Some ''utilities''),
                  example_variant ''.sm:btn'' (Some ''components''),
                  example_variant ''.sm:x'' None]\<rparr>"

definition example_extractor :: extractor where
  "example_extractor =
     \<lparr>fn_id = ConfigFn 0, call = (\<lambda>line. Inr [''!*'', line]), DEFAULT_EXTRACTOR = False\<rparr>"

definition example_config :: tailwindConfig where
  "example_config =
     \<lparr>content_extract = [''js'' \<mapsto> example_extractor], content_transform = Map.empty\<rparr>"

definition example_item :: "string \<Rightarrow> string \<Rightarrow> content_item" where
  "example_item e c = \<lparr>item_file = None, item_content = Some c, item_extension = e\<rparr>"

definition example_context :: "content_item list \<Rightarrow> unit buildContext" where
  "example_context items =
     \<lparr>tailwindConfig = example_config, context_candidates = None, changedContent = items,
      classCache = [], ruleCache = [], stylesheetCache = None,
      objects = (\<lambda>a. Node Root None None [])\<rparr>"

definition example_oxide :: "unit externals" where
  "example_oxide = example_externals\<lparr>flagEnabled := (\<lambda>config flag. flag = ''oxideParser'')\<rparr>"

definition example_state :: "content_item list \<Rightarrow> unit state" where
  "example_state items =
     \<lparr>build_context = example_context items, extractor_caches = Map.empty,
      functions_made = 0, warnings = []\<rparr>"

definition example_base_sheet :: "node stylesheet" where
  "example_base_sheet = empty_stylesheet\<lparr>base := [Node (Rule ''html'') None None []]\<rparr>"

definition example_duplicates :: node where
  "example_duplicates = example_root [example_directive ''base'' 1, example_directive ''base'' 2]"

definition example_plain :: node where
  "example_plain =
     example_root [Node (Rule ''.a'') (Some (example_source 1)) None
                     [Node (Decl ''color'' ''red'') (Some (example_source 1)) None []],
                   Node (AtRule ''layer'' ''base'') (Some (example_source 2)) None []]"

definition example_defaults_sheet :: "node stylesheet" where
  "example_defaults_sheet =
     empty_stylesheet\<lparr>base := [Node (Rule ''html'') None None []],
                       defaults := [Node (Rule ''*'') None None []]\<rparr>"

definition example_only :: "string \<Rightarrow> node" where
  "example_only l = example_root [example_directive l 1]"

text \<open>
  A rule cache with four rule objects, one of them in two pairs, and objects of which
  those at the addresses 1, 2 and 3 have the same contents; the five sets that
  \<open>buildStylesheet\<close> makes of it.
\<close>

definition example_ruleCache :: "(ruleOffset \<times> rule_ref) list" where
  "example_ruleCache =
     [(\<lparr>layer = ''utilities''\<rparr>, 1), (\<lparr>layer = ''base''\<rparr>, 0),
      (\<lparr>layer = ''utilities''\<rparr>, 2), (\<lparr>layer = ''components''\<rparr>, 3),
      (\<lparr>layer = ''utilities''\<rparr>, 1)]"

definition example_objects :: "rule_ref \<Rightarrow> node" where
  "example_objects a =
     (if a = 0 then Node (Rule ''html'') None None [] else Node (Rule ''.flex'') None None [])"

definition example_layers :: "rule_ref stylesheet" where
  "example_layers =
     \<lparr>base = [0], defaults = [], components = [3], utilities = [1, 2], variants = []\<rparr>"

text \<open>The stylesheet cache after a pass that made a base rule and two utility rules.\<close>

definition example_partition :: "rule_ref stylesheet" where
  "example_partition =
     \<lparr>base = [0], defaults = [], components = [], utilities = [1, 2], variants = []\<rparr>"

text \<open>
  Two content items that share the line \<open>a b\<close>, and an extractor cache that already
  holds the line \<open>zz\<close> for the extractor of the second.
\<close>

definition example_page :: content_item where
  "example_page = example_item ''html'' ''  a b  \<newline>q''"

definition example_script :: content_item where
  "example_script = example_item ''js'' ''a b\<newline> zz\<newline>yy ''"

definition example_lru :: LRU where
  "example_lru =
     \<lparr>maxSize = 25000, cache = [''zz'' \<mapsto> [''cached'']], oldCache = Map.empty, lru_size = 1\<rparr>"

definition example_cached :: "fn_id \<rightharpoonup> LRU" where
  "example_cached = [ConfigFn 0 \<mapsto> example_lru]"

text \<open>
  Content items that name a file, and collaborators under which a read that starts
  later completes earlier.
\<close>

definition example_file :: "string \<Rightarrow> content_item" where
  "example_file path = \<lparr>item_file = Some path, item_content = None, item_extension = ''js''\<rparr>"

definition example_late :: "unit externals" where
  "example_late =
     example_externals\<lparr>readFile := (\<lambda>path. Inr ''a b''), readTime := (\<lambda>k. 10 - k)\<rparr>"

text \<open>
  The context after a first pass that found the candidate \<open>flex\<close>, and after a later
  pass that found \<open>grid\<close> as well.
\<close>

definition example_built :: "unit buildContext" where
  "example_built =
     (example_context [])
       \<lparr>classCache := [(String_object ''*'', [(\<lparr>layer = ''base''\<rparr>, 0)]),
                       (Primitive ''flex'', [(\<lparr>layer = ''utilities''\<rparr>, 1)])],
        ruleCache := [(\<lparr>layer = ''base''\<rparr>, 0), (\<lparr>layer = ''utilities''\<rparr>, 1)],
        stylesheetCache :=
          Some \<lparr>base = [0], defaults = [], components = [], utilities = [1], variants = []\<rparr>,
        objects := (objects (example_context []))
          (0 := Node (Rule ''html'') None None [], 1 := Node (Rule ''.flex'') None None [])\<rparr>"

definition example_rebuilt :: "unit buildContext" where
  "example_rebuilt =
     example_built
       \<lparr>classCache := classCache example_built @
          [(Primitive ''grid'', [(\<lparr>layer = ''utilities''\<rparr>, 2)])],
        ruleCache := ruleCache example_built @ [(\<lparr>layer = ''utilities''\<rparr>, 2)],
        stylesheetCache :=
          Some \<lparr>base = [0], defaults = [], components = [], utilities = [1, 2], variants = []\<rparr>,
        objects := (objects example_built)(2 := Node (Rule ''.grid'') None None [])\<rparr>"

section \<open>Sets\<close>

lemma set_Set_add: "set (Set_add s x) = insert x (set s)"
  by (auto simp: Set_add_def)

lemma distinct_Set_add: "distinct s \<Longrightarrow> distinct (Set_add s x)"
  by (simp add: Set_add_def)

lemma set_Set_addAll: "set (Set_addAll s xs) = set s \<union> set xs"
  unfolding Set_addAll_def by (induction xs arbitrary: s) (auto simp: set_Set_add)

lemma distinct_Set_addAll: "distinct s \<Longrightarrow> distinct (Set_addAll s xs)"
  unfolding Set_addAll_def by (induction xs arbitrary: s) (auto simp: distinct_Set_add)

lemma sorted_Set_addAll: "sorted (s @ xs) \<Longrightarrow> sorted (Set_addAll s xs)"
  unfolding Set_addAll_def
proof (induction xs arbitrary: s)
  case Nil
  then show ?case by simp
next
  case (Cons x xs)
  show ?case
  proof (cases "x \<in> set s")
    case True
    from Cons.prems have "sorted (s @ xs)"
      by (auto simp: sorted_append)
    with Cons.IH[of s] True show ?thesis
      by (simp add: Set_add_def)
  next
    case False
    from Cons.prems have "sorted ((s @ [x]) @ xs)" by simp
    with Cons.IH[of "s @ [x]"] False show ?thesis
      by (simp add: Set_add_def)
  qed
qed

lemma set_new_Set: "set (new_Set xs) = set xs"
  by (simp add: new_Set_def set_Set_addAll)

lemma distinct_new_Set: "distinct (new_Set xs)"
  by (simp add: new_Set_def distinct_Set_addAll)

lemma sorted_new_Set: "sorted xs \<Longrightarrow> sorted (new_Set xs)"
  by (simp add: new_Set_def sorted_Set_addAll)

lemma Set_addAll_append: "Set_addAll c (xs @ ys) = Set_addAll (Set_addAll c xs) ys"
  by (simp add: Set_addAll_def)

lemma Set_addAll_Nil: "Set_addAll c [] = c"
  by (simp add: Set_addAll_def)

section \<open>Documents\<close>

lemma nodes_set_nodes: "nodes (set_nodes r ns) = ns"
  by (cases r) simp

lemma source_set_nodes: "source (set_nodes r ns) = source r"
  by (cases r) simp

lemma nodes_set_source: "nodes (set_source r s) = nodes r"
  by (cases r) simp

lemma fix_source_end_nodes: "fix_source_end r = Inr r' \<Longrightarrow> nodes r' = nodes r"
  by (auto simp: fix_source_end_def nodes_set_source split: option.splits)

lemma fix_source_end_Inr: "source r \<noteq> None \<Longrightarrow> \<exists>r'. fix_source_end r = Inr r'"
  by (auto simp: fix_source_end_def)

lemma splice_InrD:
  assumes "splice_root ext layerNodes sheet root warned = Inr (root', warned')"
  obtains root4 at4 where
    "splice_variants ext layerNodes (variantNodes layerNodes (variants sheet))
       (splice_layers ext layerNodes sheet root) = Inr (root4, at4)"
    "fix_source_end root4 = Inr root'"
    "warned' = warn_utilities layerNodes (utilities sheet)
       (variantNodes layerNodes (variants sheet)) warned"
  using assms unfolding splice_root_def Let_def
  by (auto split: sum.splits prod.splits)

section \<open>Layer markers: discovery\<close>

lemma layerNodes_callback_apply:
  "layerNodes_callback ln (p, n) k =
     (if k \<in> set layerNodes_keys \<and> kind n = AtRule ''tailwind'' k then Some (p, n) else ln k)"
  by (auto simp: layerNodes_callback_def split: node_kind.splits)

lemma foldl_layerNodes_callback:
  "foldl layerNodes_callback ln vs k =
     (if k \<in> set layerNodes_keys \<and> filter (\<lambda>(p, n). kind n = AtRule ''tailwind'' k) vs \<noteq> []
      then Some (last (filter (\<lambda>(p, n). kind n = AtRule ''tailwind'' k) vs))
      else ln k)"
proof (induction vs rule: rev_induct)
  case Nil
  then show ?case by simp
next
  case (snoc v vs)
  obtain p n where v: "v = (p, n)" by (cases v)
  show ?case
    by (auto simp: v snoc.IH layerNodes_callback_apply)
qed

lemma find_layerNodes_last:
  "find_layerNodes root k =
     (if k \<in> set layerNodes_keys \<and>
         filter (\<lambda>(p, n). kind n = AtRule ''tailwind'' k) (walk [] 0 (nodes root)) \<noteq> []
      then Some (last (filter (\<lambda>(p, n). kind n = AtRule ''tailwind'' k) (walk [] 0 (nodes root))))
      else None)"
  by (simp add: find_layerNodes_def foldl_layerNodes_callback)

lemma no_layerNodes_iff:
  "no_layerNodes (find_layerNodes root) \<longleftrightarrow>
     (\<forall>(p, n) \<in> set (walk [] 0 (nodes root)). \<forall>k \<in> set layerNodes_keys.
        kind n \<noteq> AtRule ''tailwind'' k)"
proof -
  have "find_layerNodes root k = None \<longleftrightarrow>
      (\<forall>(p, n) \<in> set (walk [] 0 (nodes root)). kind n \<noteq> AtRule ''tailwind'' k)"
    if "k \<in> set layerNodes_keys" for k
    using that
    by (auto simp: find_layerNodes_last filter_empty_conv)
  then show ?thesis
    unfolding no_layerNodes_def list_all_iff by blast
qed

section \<open>Paths as references to nodes\<close>

text \<open>
  The path that the walk records for a node leads to that node, and after a splice the
  adjusted path of another marker still leads to that marker: the paths stand for the
  references that \<open>layerNodes\<close> holds.
\<close>

lemma walk_node_at_aux:
  "(p, n) \<in> set (walk q i ns) \<Longrightarrow> \<exists>j r. p = q @ (i + j) # r \<and> node_at (j # r) ns = Some n"
proof (induction q i ns arbitrary: p n rule: walk.induct)
  case (1 q i)
  then show ?case by simp
next
  case (2 q i k s r children cs)
  from "2.prems" consider
    (here) "p = q @ [i]" "n = Node k s r children"
    | (below) "(p, n) \<in> set (walk (q @ [i]) 0 children)"
    | (later) "(p, n) \<in> set (walk q (Suc i) cs)"
    by auto
  then show ?case
  proof cases
    case here
    then have "p = q @ (i + 0) # []" "node_at (0 # []) (Node k s r children # cs) = Some n"
      by simp_all
    then show ?thesis by blast
  next
    case below
    from "2.IH"(1)[OF below] obtain j t where
      jt: "p = (q @ [i]) @ (0 + j) # t" "node_at (j # t) children = Some n" by blast
    then have "p = q @ (i + 0) # (j # t)"
        "node_at (0 # j # t) (Node k s r children # cs) = Some n"
      by simp_all
    then show ?thesis by blast
  next
    case later
    from "2.IH"(2)[OF later] obtain j t where
      jt: "p = q @ (Suc i + j) # t" "node_at (j # t) cs = Some n" by blast
    from jt(2) have "node_at (Suc j # t) (Node k s r children # cs) = Some n"
      by (cases t) (auto split: if_splits)
    with jt(1) have "p = q @ (i + Suc j) # t"
        "node_at (Suc j # t) (Node k s r children # cs) = Some n"
      by simp_all
    then show ?thesis by blast
  qed
qed

lemma walk_node_at: "(p, n) \<in> set (walk [] 0 ns) \<Longrightarrow> node_at p ns = Some n"
  using walk_node_at_aux[of p n "[]" 0 ns] by auto

lemma find_layerNodes_node_at:
  "find_layerNodes root k = Some (p, marker) \<Longrightarrow> node_at p (nodes root) = Some marker"
proof -
  assume a: "find_layerNodes root k = Some (p, marker)"
  let ?ds = "filter (\<lambda>(p, n). kind n = AtRule ''tailwind'' k) (walk [] 0 (nodes root))"
  from a have ne: "?ds \<noteq> []" and l: "last ?ds = (p, marker)"
    by (auto simp: find_layerNodes_last split: if_splits)
  from ne have "last ?ds \<in> set ?ds" by (rule last_in_set)
  with l have "(p, marker) \<in> set (walk [] 0 (nodes root))" by simp
  then show ?thesis by (rule walk_node_at)
qed


lemma node_at_Cons:
  "node_at (i # p) ns =
     (if i < length ns then (if p = [] then Some (ns ! i) else node_at p (nodes (ns ! i)))
      else None)"
  by (cases p) simp_all

lemma adjust_removed: "p \<noteq> [] \<Longrightarrow> prefix p q \<Longrightarrow> adjust p k q = None"
proof (induction p k q rule: adjust.induct)
  case (1 k q)
  then show ?case by simp
next
  case (2 i p k)
  then show ?case by simp
next
  case (3 i k j q)
  then show ?case by simp
next
  case (4 i i' p k j q)
  then show ?case by simp
qed

lemma adjust_node_at:
  assumes "node_at p ns = Some x" "node_at q ns = Some m" "\<not> prefix p q" "\<not> prefix q p"
  shows "\<exists>q'. adjust p (length new) q = Some q' \<and> node_at q' (replace_at p new ns) = Some m"
  using assms
proof (induction p "length new" q arbitrary: ns rule: adjust.induct)
  case (1 q)
  then show ?case by simp
next
  case (2 i p)
  then show ?case by simp
next
  case (3 i j q)
  from "3.prems" have i: "i < length ns" and j: "j < length ns" and ne: "j \<noteq> i"
    by (auto simp: node_at_Cons split: if_splits)
  show ?case
  proof (cases "j < i")
    case True
    with i j "3.prems"(2) show ?thesis
      by (auto simp: node_at_Cons nth_append split: if_splits)
  next
    case False
    with ne have gt: "i < j" by simp
    then obtain d where d: "j = Suc i + d"
      by (metis less_iff_Suc_add add_Suc)
    have li: "length (take i ns) = i" using i by simp
    have "(take i ns @ new @ drop (Suc i) ns) ! (length (take i ns) + (length new + d)) =
        (new @ drop (Suc i) ns) ! (length new + d)"
      by (rule nth_append_length_plus)
    also have "\<dots> = drop (Suc i) ns ! d"
      by (rule nth_append_length_plus)
    also have "\<dots> = ns ! j"
      using j d by simp
    finally have idx: "(take i ns @ new @ drop (Suc i) ns) ! (j + length new - 1) = ns ! j"
      using d li by (simp add: add.commute add.left_commute)
    from gt i j have len: "j + length new - 1 < length (take i ns @ new @ drop (Suc i) ns)"
      by simp
    from gt i j "3.prems"(2) idx len show ?thesis
      by (auto simp: node_at_Cons split: if_splits)
  qed
next
  case (4 i i' p j q)
  from "4.prems" have i: "i < length ns" and j: "j < length ns"
    by (auto simp: node_at_Cons split: if_splits)
  show ?case
  proof (cases "j = i")
    case True
    with "4.prems"(4) obtain j' q' where q: "q = j' # q'"
      by (cases q) auto
    from "4.prems" True i q have
      a: "node_at (i' # p) (nodes (ns ! i)) = Some x"
      and b: "node_at q (nodes (ns ! i)) = Some m"
      and c: "\<not> prefix (i' # p) q" and d: "\<not> prefix q (i' # p)"
      by (auto simp: node_at_Cons split: if_splits)
    from "4.hyps"[OF True a b c d] obtain r where
      r: "adjust (i' # p) (length new) q = Some r"
        "node_at r (replace_at (i' # p) new (nodes (ns ! i))) = Some m"
      by blast
    from r(2) have "r \<noteq> []" by auto
    with r True i show ?thesis
      by (cases "ns ! i") (auto simp: node_at_Cons)
  next
    case False
    with i j "4.prems"(2) show ?thesis
      by (auto simp: node_at_Cons split: if_splits)
  qed
qed

section \<open>The tokens of a scan\<close>

text \<open>
  Whatever candidate set a scan starts from, it adds the same sequence of tokens to it
  and leaves the same \<open>seen\<close> set and caches.
\<close>

lemma getClassCandidates_line_tokens:
  assumes "getClassCandidates_line e l (c, s, ch) = Inr (c', s', ch')"
  shows "\<exists>T. \<forall>c0. getClassCandidates_line e l (c0, s, ch) = Inr (Set_addAll c0 T, s', ch')"
proof (cases "trim l \<in> set s")
  case True
  with assms have "s' = s" "ch' = ch"
    by (simp_all add: getClassCandidates_line_def Let_def)
  with True have "\<forall>c0. getClassCandidates_line e l (c0, s, ch) = Inr (Set_addAll c0 [], s', ch')"
    by (simp add: getClassCandidates_line_def Let_def Set_addAll_Nil)
  then show ?thesis ..
next
  case False
  with assms obtain lru where lru: "ch (fn_id e) = Some lru"
    by (auto simp: getClassCandidates_line_def Let_def split: option.splits)
  show ?thesis
  proof (cases "LRU_has lru (trim l)")
    case True
    with assms False lru obtain ms lru' where g: "LRU_get lru (trim l) = (Some ms, lru')"
      by (auto simp: getClassCandidates_line_def Let_def split: option.splits prod.splits)
    with assms False lru True have "s' = Set_add s (trim l)" "ch' = ch(fn_id e \<mapsto> lru')"
      by (simp_all add: getClassCandidates_line_def Let_def)
    with False lru True g
    have "\<forall>c0. getClassCandidates_line e l (c0, s, ch) =
        Inr (Set_addAll c0 (map Primitive ms), s', ch')"
      by (simp add: getClassCandidates_line_def Let_def)
    then show ?thesis ..
  next
    case miss: False
    with assms False lru obtain res where r: "call e (trim l) = Inr res"
      by (auto simp: getClassCandidates_line_def Let_def split: sum.splits)
    let ?T = "new_Set (filter (\<lambda>s. s \<noteq> ''!*'') res)"
    from assms False lru miss r have "s' = Set_add s (trim l)"
        "ch' = ch(fn_id e \<mapsto> LRU_set lru (trim l) ?T)"
      by (simp_all add: getClassCandidates_line_def Let_def)
    with False lru miss r
    have "\<forall>c0. getClassCandidates_line e l (c0, s, ch) =
        Inr (Set_addAll c0 (map Primitive ?T), s', ch')"
      by (simp add: getClassCandidates_line_def Let_def)
    then show ?thesis ..
  qed
qed

lemma getClassCandidates_lines_tokens:
  "getClassCandidates_lines e ls (c, s, ch) = Inr (c', s', ch') \<Longrightarrow>
   \<exists>T. \<forall>c0. getClassCandidates_lines e ls (c0, s, ch) = Inr (Set_addAll c0 T, s', ch')"
proof (induction ls arbitrary: c s ch)
  case Nil
  then have "\<forall>c0. getClassCandidates_lines e [] (c0, s, ch) = Inr (Set_addAll c0 [], s', ch')"
    by (simp add: Set_addAll_Nil)
  then show ?case ..
next
  case (Cons l ls)
  from Cons.prems obtain c1 s1 ch1 where
    1: "getClassCandidates_line e l (c, s, ch) = Inr (c1, s1, ch1)"
    and 2: "getClassCandidates_lines e ls (c1, s1, ch1) = Inr (c', s', ch')"
    by (auto split: sum.splits)
  from getClassCandidates_line_tokens[OF 1] obtain T1 where
    T1: "\<And>c0. getClassCandidates_line e l (c0, s, ch) = Inr (Set_addAll c0 T1, s1, ch1)"
    by blast
  from Cons.IH[OF 2] obtain T2 where
    T2: "\<And>c0. getClassCandidates_lines e ls (c0, s1, ch1) = Inr (Set_addAll c0 T2, s', ch')"
    by blast
  have "\<forall>c0. getClassCandidates_lines e (l # ls) (c0, s, ch) =
      Inr (Set_addAll c0 (T1 @ T2), s', ch')"
    by (simp add: T1 T2 Set_addAll_append)
  then show ?case ..
qed

lemma getClassCandidates_tokens:
  "getClassCandidates content e c s ch = Inr (c', s', ch') \<Longrightarrow>
   \<exists>T. \<forall>c0. getClassCandidates content e c0 s ch = Inr (Set_addAll c0 T, s', ch')"
  unfolding getClassCandidates_def Let_def by (rule getClassCandidates_lines_tokens)

lemma scan_entry_tokens:
  assumes "scan_entry ext entry (c, s, ch) = Inr (c', s', ch')"
  shows "\<exists>T. \<forall>c0. scan_entry ext entry (c0, s, ch) = Inr (Set_addAll c0 T, s', ch')"
proof -
  obtain item t e where entry: "entry = (item, t, e)" by (cases entry)
  from assms obtain content transformed where
    1: "read_content ext item = Inr content"
    and 2: "transformer_call t content = Inr transformed"
    and 3: "getClassCandidates transformed e c s ch = Inr (c', s', ch')"
    by (auto simp: scan_entry_def entry split: sum.splits)
  from getClassCandidates_tokens[OF 3] obtain T where
    "\<And>c0. getClassCandidates transformed e c0 s ch = Inr (Set_addAll c0 T, s', ch')"
    by blast
  then have "\<forall>c0. scan_entry ext entry (c0, s, ch) = Inr (Set_addAll c0 T, s', ch')"
    by (simp add: scan_entry_def entry 1 2)
  then show ?thesis ..
qed

lemma scan_entries_tokens:
  "scan_entries ext entries (c, s, ch) = Inr (c', s', ch') \<Longrightarrow>
   \<exists>T. \<forall>c0. scan_entries ext entries (c0, s, ch) = Inr (Set_addAll c0 T, s', ch')"
proof (induction entries arbitrary: c s ch)
  case Nil
  then have "\<forall>c0. scan_entries ext [] (c0, s, ch) = Inr (Set_addAll c0 [], s', ch')"
    by (simp add: Set_addAll_Nil)
  then show ?case ..
next
  case (Cons entry entries)
  from Cons.prems obtain c1 s1 ch1 where
    1: "scan_entry ext entry (c, s, ch) = Inr (c1, s1, ch1)"
    and 2: "scan_entries ext entries (c1, s1, ch1) = Inr (c', s', ch')"
    by (auto split: sum.splits)
  from scan_entry_tokens[OF 1] obtain T1 where
    T1: "\<And>c0. scan_entry ext entry (c0, s, ch) = Inr (Set_addAll c0 T1, s1, ch1)"
    by blast
  from Cons.IH[OF 2] obtain T2 where
    T2: "\<And>c0. scan_entries ext entries (c0, s1, ch1) = Inr (Set_addAll c0 T2, s', ch')"
    by blast
  have "\<forall>c0. scan_entries ext (entry # entries) (c0, s, ch) =
      Inr (Set_addAll c0 (T1 @ T2), s', ch')"
    by (simp add: T1 T2 Set_addAll_append)
  then show ?case ..
qed

lemma scan_batch_tokens:
  "scan_batch ext i batch (c, s, ch) = Inr (c', s', ch') \<Longrightarrow>
   \<exists>T. \<forall>c0. scan_batch ext i batch (c0, s, ch) = Inr (Set_addAll c0 T, s', ch')"
  unfolding scan_batch_def by (rule scan_entries_tokens)

lemma scan_batches_tokens:
  "scan_batches ext entries i st = Inr (c', s', ch') \<Longrightarrow> st = (c, s, ch) \<Longrightarrow>
   \<exists>T. \<forall>c0. scan_batches ext entries i (c0, s, ch) = Inr (Set_addAll c0 T, s', ch')"
proof (induction ext entries i st arbitrary: c s ch rule: scan_batches.induct)
  case (1 ext entries i st)
  show ?case
  proof (cases "i < length entries")
    case False
    with "1.prems" have "\<forall>c0. scan_batches ext entries i (c0, s, ch) =
        Inr (Set_addAll c0 [], s', ch')"
      by (simp add: Set_addAll_Nil scan_batches.simps[of ext entries i])
    then show ?thesis ..
  next
    case True
    let ?batch = "slice entries i (i + BATCH_SIZE)"
    from True "1.prems" obtain c1 s1 ch1 where
      b: "scan_batch ext i ?batch (c, s, ch) = Inr (c1, s1, ch1)"
      and r: "scan_batches ext entries (i + BATCH_SIZE) (c1, s1, ch1) = Inr (c', s', ch')"
      by (subst (asm) scan_batches.simps) (auto simp: Let_def split: sum.splits)
    from scan_batch_tokens[OF b] obtain T1 where
      T1: "\<And>c0. scan_batch ext i ?batch (c0, s, ch) = Inr (Set_addAll c0 T1, s1, ch1)"
      by blast
    from b "1.prems"(2)
    have b': "scan_batch ext i ?batch st = Inr (c1, s1, ch1)" by simp
    from "1.IH"[OF True refl b' r refl]
    obtain T2 where
      T2: "\<And>c0. scan_batches ext entries (i + BATCH_SIZE) (c0, s1, ch1) =
             Inr (Set_addAll c0 T2, s', ch')"
      by auto
    have "\<forall>c0. scan_batches ext entries i (c0, s, ch) = Inr (Set_addAll c0 (T1 @ T2), s', ch')"
      by (subst scan_batches.simps) (simp add: True T1 T2 Set_addAll_append Let_def)
    then show ?thesis ..
  qed
qed

section \<open>The order of a scan\<close>

lemma scan_entries_append:
  "scan_entries ext (es1 @ es2) st =
     (case scan_entries ext es1 st of Inl e \<Rightarrow> Inl e | Inr st1 \<Rightarrow> scan_entries ext es2 st1)"
  by (induction es1 arbitrary: st) (auto split: sum.splits)

lemma scan_batches_sequence:
  "scan_batches ext entries i st = scan_entries ext (scan_sequence ext entries i) st"
proof (induction ext entries i st rule: scan_batches.induct)
  case (1 ext entries i st)
  show ?case
  proof (cases "i < length entries")
    case False
    then show ?thesis
      by (simp add: scan_batches.simps[of ext entries i] scan_sequence.simps[of ext entries i])
  next
    case True
    show ?thesis
    proof (cases "scan_batch ext i (slice entries i (i + BATCH_SIZE)) st")
      case (Inl e)
      with True show ?thesis
        by (simp add: scan_batches.simps[of ext entries i] scan_sequence.simps[of ext entries i]
              scan_entries_append scan_batch_def Let_def)
    next
      case (Inr st')
      from "1.IH"[OF True refl Inr] Inr True show ?thesis
        by (simp add: scan_batches.simps[of ext entries i] scan_sequence.simps[of ext entries i]
              scan_entries_append scan_batch_def Let_def)
    qed
  qed
qed

lemma mset_scan_order: "mset (scan_order ext i batch) = mset batch"
proof -
  let ?z = "zip [i ..< i + length batch] batch"
  have "mset (scan_order ext i batch) =
      image_mset snd (filter_mset (\<lambda>(k, entry). \<not> names_file entry) (mset ?z)) +
      image_mset snd (filter_mset (\<lambda>(k, entry). names_file entry) (mset ?z))"
    by (simp add: scan_order_def Let_def)
  also have "\<dots> = image_mset snd (mset ?z)"
    unfolding image_mset_union[symmetric]
    by (rule arg_cong[where f = "image_mset snd"])
       (simp add: multiset_partition[symmetric] case_prod_beta' add.commute)
  also have "\<dots> = mset batch"
  proof -
    have "length [i ..< i + length batch] = length batch" by simp
    then have "map snd ?z = batch" by (rule map_snd_zip)
    then show ?thesis by (metis mset_map)
  qed
  finally show ?thesis .
qed

lemma scan_order_no_file:
  assumes "\<forall>entry \<in> set batch. \<not> names_file entry"
  shows "scan_order ext i batch = batch"
proof -
  let ?z = "zip [i ..< i + length batch] batch"
  from assms have a: "\<forall>x \<in> set ?z. (case x of (k, entry) \<Rightarrow> \<not> names_file entry)"
    by (auto dest: set_zip_rightD)
  then have 1: "filter (\<lambda>(k, entry). \<not> names_file entry) ?z = ?z"
    by (simp add: filter_id_conv)
  from a have 2: "filter (\<lambda>(k, entry). names_file entry) ?z = []"
    by (auto simp: filter_empty_conv)
  show ?thesis
    by (simp add: scan_order_def Let_def 1 2 map_snd_zip del: upt_Suc)
qed

lemma mset_scan_sequence: "mset (scan_sequence ext entries i) = mset (drop i entries)"
proof (induction ext entries i rule: scan_sequence.induct)
  case (1 ext entries i)
  show ?case
  proof (cases "i < length entries")
    case False
    then show ?thesis by (simp add: scan_sequence.simps[of ext entries i])
  next
    case True
    have "drop i entries = take BATCH_SIZE (drop i entries) @ drop (i + BATCH_SIZE) entries"
      by (metis append_take_drop_id drop_drop add.commute)
    then have "mset (drop i entries) =
        mset (take BATCH_SIZE (drop i entries)) + mset (drop (i + BATCH_SIZE) entries)"
      by (metis mset_append)
    with "1.IH"[OF True] True show ?thesis
      by (simp add: scan_sequence.simps[of ext entries i] mset_scan_order slice_def)
  qed
qed

lemma map_snd_filter_zip:
  "length ns = length xs \<Longrightarrow> map snd (filter (\<lambda>(k, x). P x) (zip ns xs)) = filter P xs"
  by (induction ns xs rule: list_induct2) auto

lemma scan_order_parts:
  "\<exists>started.
     scan_order ext i batch = filter (\<lambda>entry. \<not> names_file entry) batch @ map snd started \<and>
     mset started =
       mset (filter (\<lambda>(k, entry). names_file entry) (zip [i ..< i + length batch] batch)) \<and>
     sorted (map (\<lambda>(k, entry). readTime ext k) started)"
proof -
  let ?z = "zip [i ..< i + length batch] batch"
  let ?started = "sort_key (\<lambda>(k, entry). readTime ext k)
      (filter (\<lambda>(k, entry). names_file entry) ?z)"
  have "length [i ..< i + length batch] = length batch" by simp
  then have "map snd (filter (\<lambda>(k, entry). \<not> names_file entry) ?z) =
      filter (\<lambda>entry. \<not> names_file entry) batch"
    by (rule map_snd_filter_zip)
  then have "scan_order ext i batch =
      filter (\<lambda>entry. \<not> names_file entry) batch @ map snd ?started"
    by (simp add: scan_order_def Let_def)
  moreover have "mset ?started = mset (filter (\<lambda>(k, entry). names_file entry) ?z)"
    by simp
  moreover have "sorted (map (\<lambda>(k, entry). readTime ext k) ?started)"
    by (rule sorted_sort_key)
  ultimately show ?thesis by blast
qed

section \<open>Sorting the candidates\<close>

lemma compare_candidates_neg: "compare_candidates x y < 0 \<longleftrightarrow> raw x < raw y"
  by (auto simp: compare_candidates_def)

lemma set_insert_sorted: "set (insert_sorted cmp x ys) = insert x (set ys)"
  by (induction ys) auto

lemma mset_insert_sorted: "mset (insert_sorted cmp x ys) = add_mset x (mset ys)"
  by (induction ys) auto

lemma sorted_insert_sorted:
  "sorted (map raw ys) \<Longrightarrow> sorted (map raw (insert_sorted compare_candidates x ys))"
  by (induction ys) (auto simp: compare_candidates_neg set_insert_sorted)

lemma filter_insert_sorted:
  "sorted (map raw ys) \<Longrightarrow>
   filter (\<lambda>c. raw c = k) (insert_sorted compare_candidates x ys) =
     filter (\<lambda>c. raw c = k) ys @ (if raw x = k then [x] else [])"
proof (induction ys)
  case Nil
  then show ?case by simp
next
  case (Cons y ys)
  show ?case
  proof (cases "raw x < raw y")
    case True
    from Cons.prems True have "\<forall>c \<in> set (y # ys). raw x < raw c"
      by auto
    then have "raw x = k \<Longrightarrow> filter (\<lambda>c. raw c = k) (y # ys) = []"
      by (auto simp: filter_empty_conv)
    with True show ?thesis
      by (auto simp: compare_candidates_neg)
  next
    case False
    with Cons show ?thesis
      by (simp add: compare_candidates_neg)
  qed
qed

lemma Array_sort_loop:
  "sorted (map raw acc) \<Longrightarrow>
   sorted (map raw (foldl (\<lambda>acc x. insert_sorted compare_candidates x acc) acc xs)) \<and>
   mset (foldl (\<lambda>acc x. insert_sorted compare_candidates x acc) acc xs) = mset acc + mset xs \<and>
   filter (\<lambda>c. raw c = k) (foldl (\<lambda>acc x. insert_sorted compare_candidates x acc) acc xs) =
     filter (\<lambda>c. raw c = k) acc @ filter (\<lambda>c. raw c = k) xs"
proof (induction xs arbitrary: acc)
  case Nil
  then show ?case by simp
next
  case (Cons x xs)
  from Cons.prems have s: "sorted (map raw (insert_sorted compare_candidates x acc))"
    by (rule sorted_insert_sorted)
  from Cons.IH[OF s] Cons.prems show ?case
    by (simp add: mset_insert_sorted filter_insert_sorted)
qed

text \<open>
  The sort is the stable sort by the wrapped strings: candidates with the same string
  keep their order.
\<close>

lemma Array_sort_sort_key: "Array_sort compare_candidates xs = sort_key raw xs"
proof (rule properties_for_sort_key[symmetric])
  have l: "sorted (map raw (Array_sort compare_candidates xs)) \<and>
      mset (Array_sort compare_candidates xs) = mset [] + mset xs \<and>
      filter (\<lambda>c. raw c = k) (Array_sort compare_candidates xs) =
        filter (\<lambda>c. raw c = k) [] @ filter (\<lambda>c. raw c = k) xs" for k
    unfolding Array_sort_def by (rule Array_sort_loop) simp
  from l show "mset (Array_sort compare_candidates xs) = mset xs" by simp
  from l show "sorted (map raw (Array_sort compare_candidates xs))" by simp
  fix c
  from l[of "raw c"]
  show "filter (\<lambda>x. raw c = raw x) (Array_sort compare_candidates xs) =
      filter (\<lambda>x. raw c = raw x) xs"
    by (simp add: eq_commute[of "raw c"])
qed

lemma sorted_map_Set_addAll: "sorted (map f (s @ xs)) \<Longrightarrow> sorted (map f (Set_addAll s xs))"
  unfolding Set_addAll_def
proof (induction xs arbitrary: s)
  case Nil
  then show ?case by simp
next
  case (Cons x xs)
  show ?case
  proof (cases "x \<in> set s")
    case True
    from Cons.prems have "sorted (map f (s @ xs))"
      by (auto simp: sorted_append)
    with Cons.IH[of s] True show ?thesis
      by (simp add: Set_add_def)
  next
    case False
    from Cons.prems have "sorted (map f ((s @ [x]) @ xs))" by simp
    with Cons.IH[of "s @ [x]"] False show ?thesis
      by (simp add: Set_add_def)
  qed
qed

lemma Set_addAll_distinct: "distinct (s @ xs) \<Longrightarrow> Set_addAll s xs = s @ xs"
  unfolding Set_addAll_def by (induction xs arbitrary: s) (auto simp: Set_add_def)

lemma new_Set_distinct: "distinct xs \<Longrightarrow> new_Set xs = xs"
  by (simp add: new_Set_def Set_addAll_distinct)

lemma sortedCandidates_sort_key: "sortedCandidates cs = new_Set (sort_key raw cs)"
  by (simp add: sortedCandidates_def Array_sort_sort_key)

lemma sortedCandidates_distinct_sort_key:
  "distinct cs \<Longrightarrow> sortedCandidates cs = sort_key raw cs"
  by (simp add: sortedCandidates_sort_key new_Set_distinct)

lemma set_sortedCandidates: "set (sortedCandidates cs) = set cs"
  by (simp add: sortedCandidates_sort_key set_new_Set)

lemma sorted_sortedCandidates: "sorted (map raw (sortedCandidates cs))"
  by (simp add: sortedCandidates_sort_key new_Set_def sorted_map_Set_addAll)

lemma distinct_sortedCandidates: "distinct (sortedCandidates cs)"
  by (simp add: sortedCandidates_def distinct_new_Set)

lemma sortedCandidates_set_only:
  assumes "inj_on raw (set cs)" "set cs = set cs'"
  shows "sortedCandidates cs = sortedCandidates cs'"
proof -
  let ?xs = "sortedCandidates cs" and ?ys = "sortedCandidates cs'"
  from assms have inj: "inj_on raw (set ?xs)" "inj_on raw (set ?ys)"
    by (simp_all add: set_sortedCandidates)
  have "map raw ?xs = map raw ?ys"
  proof (rule sorted_distinct_set_unique)
    show "sorted (map raw ?xs)" "sorted (map raw ?ys)"
      by (rule sorted_sortedCandidates)+
    from inj show "distinct (map raw ?xs)" "distinct (map raw ?ys)"
      by (simp_all add: distinct_map distinct_sortedCandidates)
    from assms(2) show "set (map raw ?xs) = set (map raw ?ys)"
      by (simp add: set_sortedCandidates)
  qed
  moreover from assms have "inj_on raw (set ?xs \<union> set ?ys)"
    by (simp add: set_sortedCandidates)
  ultimately show ?thesis
    by (simp add: inj_on_map_eq_map)
qed

section \<open>The example inputs, evaluated\<close>

lemma scan_batches_Nil: "scan_batches ext [] i st = Inr st"
  by (simp add: scan_batches.simps)

lemma scan_sequence_one_batch:
  assumes "length entries \<le> BATCH_SIZE"
  shows "scan_sequence ext entries 0 = scan_order ext 0 entries"
proof (cases "entries = []")
  case True
  then show ?thesis
    by (simp add: scan_sequence.simps[of ext "[]" 0] scan_order_def)
next
  case False
  from assms have "\<not> BATCH_SIZE < length entries" by simp
  with False assms show ?thesis
    by (simp add: scan_sequence.simps[of ext entries 0] scan_sequence.simps[of ext entries BATCH_SIZE]
          slice_def)
qed

lemma scan_batches_no_file:
  assumes "length entries \<le> BATCH_SIZE" "\<forall>entry \<in> set entries. \<not> names_file entry"
  shows "scan_batches ext entries 0 st = scan_entries ext entries st"
  using assms by (simp add: scan_batches_sequence scan_sequence_one_batch scan_order_no_file)

lemma collect_candidates_no_content:
  "changedContent context = [] \<Longrightarrow>
   collect_candidates ext context extractorCache n =
     Inr (initial_candidates ext context, extractorCache, n)"
  by (simp add: collect_candidates_def route_def Let_def scan_batches_Nil)

lemma example_initial_candidates:
  "initial_candidates example_externals (example_context items) = [String_object ''*'']"
  by (simp add: initial_candidates_def NOT_ON_DEMAND_def example_externals_def example_context_def
        new_Set_def Set_addAll_def Set_add_def)

lemma example_generate_sentinel:
  "generate example_externals [String_object ''*''] (example_context []) =
     Inr ((example_context [])
            \<lparr>classCache := [(String_object ''*'', [(\<lparr>layer = ''base''\<rparr>, 0)])],
             ruleCache := [(\<lparr>layer = ''base''\<rparr>, 0)],
             stylesheetCache := Some (empty_stylesheet\<lparr>base := [0]\<rparr>),
             objects := (objects (example_context []))(0 := Node (Rule ''html'') None None [])\<rparr>)"
  by (simp add: generate_def Let_def example_externals_def sortedCandidates_def Array_sort_def
        new_Set_def Set_addAll_def Set_add_def example_generateRules_def example_context_def
        needs_rebuild_def buildStylesheet_def returnValue_add_def empty_stylesheet_def)

lemma example_sentinel_sheet:
  "stylesheet_nodes ((objects (example_context items))(0 := Node (Rule ''html'') None None []))
     (empty_stylesheet\<lparr>base := [0]\<rparr>) = example_base_sheet"
  by (simp add: stylesheet_nodes_def empty_stylesheet_def example_base_sheet_def)

lemma example_only_layerNodes:
  "l \<in> set layerNodes_keys \<Longrightarrow>
   find_layerNodes (example_only l) = (\<lambda>k. None)(l := Some ([0], example_directive l 1))"
  by (simp add: find_layerNodes_def example_only_def example_root_def example_directive_def
        layerNodes_callback_def)

lemma example_names_file: "names_file (example_item e c, t, x) = False"
  by (simp add: names_file_def example_item_def)

section \<open>Variant suppression\<close>

lemma variantNodes_member:
  "node \<in> set (variantNodes layerNodes screenNodes) \<longleftrightarrow>
     node \<in> set screenNodes \<and>
     (raws_parentLayer node = Some ''components'' \<longrightarrow> layerNodes ''components'' \<noteq> None) \<and>
     (raws_parentLayer node = Some ''utilities'' \<longrightarrow> layerNodes ''utilities'' \<noteq> None)"
  by (auto simp: variantNodes_def Let_def)

lemma variantNodes_subseq: "subseq (variantNodes layerNodes screenNodes) screenNodes"
  by (simp add: variantNodes_def)

lemma splice_variants_nodes:
  assumes "splice_variants ext layerNodes vs (root3, at3) = Inr (root4, at4)"
  shows "case layerNodes ''variants'' of
           Some (p0, marker) \<Rightarrow>
             (case at3 ''variants'' of
                Some q \<Rightarrow> nodes root4 =
                  replace_at q (cloneNodes ext vs (source marker) ''variants'') (nodes root3)
              | None \<Rightarrow> nodes root4 = nodes root3)
         | None \<Rightarrow>
             if vs = [] then nodes root4 = nodes root3
             else \<exists>cloned. backfill_all layerNodes (cloneNodes ext vs None ''variants'') = Inr cloned \<and>
                    nodes root4 = nodes root3 @ cloned"
  using assms
  by (auto simp: splice_variants_def splice_marker_def Let_def nodes_set_nodes
           split: option.splits sum.splits if_splits)

text \<open>
  Claim C1. A node of the variants layer set passes the post-filter exactly when its
  recorded parent layer is components and a components marker was found, or is
  utilities and a utilities marker was found, or is anything else or missing. The
  filtered nodes keep the order they have in the variants layer set. The clones of
  exactly these nodes are what a successful splice puts in place of the variants
  marker, or appends to the root when there is no variants marker.
\<close>

theorem variantNodes_post_filter:
  "(node \<in> set (variantNodes layerNodes screenNodes) \<longleftrightarrow>
     node \<in> set screenNodes \<and>
     (raws_parentLayer node = Some ''components'' \<longrightarrow> layerNodes ''components'' \<noteq> None) \<and>
     (raws_parentLayer node = Some ''utilities'' \<longrightarrow> layerNodes ''utilities'' \<noteq> None)) \<and>
   subseq (variantNodes layerNodes screenNodes) screenNodes \<and>
   (splice_root ext layerNodes sheet root warned = Inr (root', warned') \<longrightarrow>
      (case layerNodes ''variants'' of
         Some (p0, marker) \<Rightarrow>
           (case snd (splice_layers ext layerNodes sheet root) ''variants'' of
              Some q \<Rightarrow> nodes root' =
                replace_at q
                  (cloneNodes ext (variantNodes layerNodes (variants sheet)) (source marker)
                     ''variants'')
                  (nodes (fst (splice_layers ext layerNodes sheet root)))
            | None \<Rightarrow> nodes root' = nodes (fst (splice_layers ext layerNodes sheet root)))
       | None \<Rightarrow>
           if variantNodes layerNodes (variants sheet) = []
           then nodes root' = nodes (fst (splice_layers ext layerNodes sheet root))
           else \<exists>cloned.
                  backfill_all layerNodes
                    (cloneNodes ext (variantNodes layerNodes (variants sheet)) None ''variants'') =
                    Inr cloned \<and>
                  nodes root' = nodes (fst (splice_layers ext layerNodes sheet root)) @ cloned))"
proof (intro conjI impI)
  show "node \<in> set (variantNodes layerNodes screenNodes) \<longleftrightarrow>
     node \<in> set screenNodes \<and>
     (raws_parentLayer node = Some ''components'' \<longrightarrow> layerNodes ''components'' \<noteq> None) \<and>
     (raws_parentLayer node = Some ''utilities'' \<longrightarrow> layerNodes ''utilities'' \<noteq> None)"
    by (rule variantNodes_member)
  show "subseq (variantNodes layerNodes screenNodes) screenNodes"
    by (rule variantNodes_subseq)
next
  assume "splice_root ext layerNodes sheet root warned = Inr (root', warned')"
  then obtain root4 at4 where
    sv: "splice_variants ext layerNodes (variantNodes layerNodes (variants sheet))
       (splice_layers ext layerNodes sheet root) = Inr (root4, at4)"
    and fx: "fix_source_end root4 = Inr root'"
    by (rule splice_InrD)
  obtain root3 at3 where st3: "splice_layers ext layerNodes sheet root = (root3, at3)"
    by (cases "splice_layers ext layerNodes sheet root")
  note facts = splice_variants_nodes[OF sv[unfolded st3]] fix_source_end_nodes[OF fx]
  show "case layerNodes ''variants'' of
         Some (p0, marker) \<Rightarrow>
           (case snd (splice_layers ext layerNodes sheet root) ''variants'' of
              Some q \<Rightarrow> nodes root' =
                replace_at q
                  (cloneNodes ext (variantNodes layerNodes (variants sheet)) (source marker)
                     ''variants'')
                  (nodes (fst (splice_layers ext layerNodes sheet root)))
            | None \<Rightarrow> nodes root' = nodes (fst (splice_layers ext layerNodes sheet root)))
       | None \<Rightarrow>
           if variantNodes layerNodes (variants sheet) = []
           then nodes root' = nodes (fst (splice_layers ext layerNodes sheet root))
           else \<exists>cloned.
                  backfill_all layerNodes
                    (cloneNodes ext (variantNodes layerNodes (variants sheet)) None ''variants'') =
                    Inr cloned \<and>
                  nodes root' = nodes (fst (splice_layers ext layerNodes sheet root)) @ cloned"
    unfolding st3 fst_conv snd_conv using facts by (auto split: option.splits prod.splits)
qed



lemma example_document_layerNodes:
  "find_layerNodes example_document =
     (\<lambda>k. None)(''utilities'' := Some ([0], example_directive ''utilities'' 1),
                ''variants'' := Some ([1], example_directive ''variants'' 2))"
  by (simp add: find_layerNodes_def example_document_def example_root_def example_directive_def
        layerNodes_callback_def layerNodes_keys_def)

lemma example_sheet_variantNodes:
  "variantNodes (find_layerNodes example_document) (variants example_sheet) =
     [example_variant ''.sm:flex'' (Some ''utilities''), example_variant ''.sm:x'' None]"
  by (simp add: example_document_layerNodes variantNodes_def example_sheet_def
        example_variant_def raws_parentLayer_def)

lemma example_splice_layers:
  "splice_layers example_externals (find_layerNodes example_document) example_sheet
     example_document =
   (example_root [example_directive ''variants'' 2],
    (\<lambda>k. None)(''variants'' := Some [0]))"
  apply (simp add: example_document_layerNodes splice_layers_def splice_marker_def
        example_sheet_def example_externals_def example_cloneNodes_def Let_def)
  apply (simp add: example_document_def example_root_def fun_eq_iff)
  done

lemma example_warn_utilities:
  "warn_utilities (find_layerNodes example_document) (utilities example_sheet)
     [example_variant ''.sm:flex'' (Some ''utilities''), example_variant ''.sm:x'' None] [] = []"
  by (simp add: warn_utilities_def hasUtilityVariants_def example_variant_def
        raws_parentLayer_def)

lemma example_splice_variants:
  "splice_variants example_externals (find_layerNodes example_document)
     [example_variant ''.sm:flex'' (Some ''utilities''), example_variant ''.sm:x'' None]
     (example_root [example_directive ''variants'' 2], (\<lambda>k. None)(''variants'' := Some [0])) =
   Inr (example_root
          (example_cloneNodes
             [example_variant ''.sm:flex'' (Some ''utilities''), example_variant ''.sm:x'' None]
             (Some (example_source 2)) ''variants''),
        (\<lambda>k. None))"
  apply (simp add: example_document_layerNodes splice_variants_def splice_marker_def Let_def
     example_externals_def)
  apply (simp add: example_root_def example_directive_def fun_eq_iff)
  done

lemma example_fix_source_end: "fix_source_end (example_root ns) = Inr (example_root ns)"
  by (simp add: fix_source_end_def example_root_def example_source_def)

lemma example_splice:
  "splice_root example_externals (find_layerNodes example_document) example_sheet example_document [] =
   Inr (example_root
          (example_cloneNodes
             [example_variant ''.sm:flex'' (Some ''utilities''), example_variant ''.sm:x'' None]
             (Some (example_source 2)) ''variants''), [])"
  by (simp add: splice_root_def Let_def example_splice_layers example_sheet_variantNodes
        example_splice_variants example_fix_source_end example_warn_utilities)

theorem variantNodes_post_filter_witness:
  "(example_variant ''.sm:btn'' (Some ''components'') \<in>
      set (variantNodes (find_layerNodes example_document) (variants example_sheet)) \<longleftrightarrow> False) \<and>
   (example_variant ''.sm:flex'' (Some ''utilities'') \<in>
      set (variantNodes (find_layerNodes example_document) (variants example_sheet)) \<longleftrightarrow> True) \<and>
   subseq (variantNodes (find_layerNodes example_document) (variants example_sheet))
     (variants example_sheet) \<and>
   splice_root example_externals (find_layerNodes example_document) example_sheet example_document [] =
     Inr (example_root
            (example_cloneNodes
               [example_variant ''.sm:flex'' (Some ''utilities''), example_variant ''.sm:x'' None]
               (Some (example_source 2)) ''variants''), []) \<and>
   nodes (example_root
            (example_cloneNodes
               [example_variant ''.sm:flex'' (Some ''utilities''), example_variant ''.sm:x'' None]
               (Some (example_source 2)) ''variants'')) =
     replace_at [0]
       (cloneNodes example_externals
          (variantNodes (find_layerNodes example_document) (variants example_sheet))
          (source (example_directive ''variants'' 2)) ''variants'')
       (nodes (fst (splice_layers example_externals (find_layerNodes example_document)
                      example_sheet example_document)))"
proof -
  let ?ln = "find_layerNodes example_document"
  let ?btn = "example_variant ''.sm:btn'' (Some ''components'')"
  let ?flex = "example_variant ''.sm:flex'' (Some ''utilities'')"
  have c: "?ln ''components'' = None" and u: "?ln ''utilities'' \<noteq> None"
    and v: "?ln ''variants'' = Some ([1], example_directive ''variants'' 2)"
    by (simp_all add: example_document_layerNodes)
  have pb: "raws_parentLayer ?btn = Some ''components''"
    and pf: "raws_parentLayer ?flex = Some ''utilities''"
    by (simp_all add: example_variant_def raws_parentLayer_def)
  have at: "snd (splice_layers example_externals ?ln example_sheet example_document) ''variants''
      = Some [0]"
    by (simp add: example_splice_layers)
  note t1 = variantNodes_post_filter[of ?btn ?ln "variants example_sheet" example_externals
      example_sheet example_document "[]" _ "[]"]
  note t2 = variantNodes_post_filter[of ?flex ?ln "variants example_sheet" example_externals
      example_sheet example_document "[]" _ "[]"]
  from t1 c pb have 1: "?btn \<in> set (variantNodes ?ln (variants example_sheet)) \<longleftrightarrow> False"
    by simp
  from t2 u pf have 2: "?flex \<in> set (variantNodes ?ln (variants example_sheet)) \<longleftrightarrow> True"
    by (simp add: example_sheet_def)
  from t1 have 3: "subseq (variantNodes ?ln (variants example_sheet)) (variants example_sheet)"
    by simp
  from t1 example_splice v at have 4: "nodes (example_root
            (example_cloneNodes
               [example_variant ''.sm:flex'' (Some ''utilities''), example_variant ''.sm:x'' None]
               (Some (example_source 2)) ''variants'')) =
     replace_at [0]
       (cloneNodes example_externals
          (variantNodes ?ln (variants example_sheet))
          (source (example_directive ''variants'' 2)) ''variants'')
       (nodes (fst (splice_layers example_externals ?ln example_sheet example_document)))"
    by simp
  from 1 2 3 example_splice 4 show ?thesis by (intro conjI)
qed

section \<open>Layer completeness of buildStylesheet\<close>

lemma returnValue_add_Inr:
  "l \<in> set layer_tags \<Longrightarrow> \<exists>rv'. returnValue_add rv l r = Inr rv'"
  by (auto simp: returnValue_add_def layer_tags_def)

lemma returnValue_add_cases:
  assumes "returnValue_add rv l r = Inr rv'"
  obtains "l = ''base''" "rv' = rv\<lparr>base := Set_add (base rv) r\<rparr>"
  | "l = ''defaults''" "rv' = rv\<lparr>defaults := Set_add (defaults rv) r\<rparr>"
  | "l = ''components''" "rv' = rv\<lparr>components := Set_add (components rv) r\<rparr>"
  | "l = ''utilities''" "rv' = rv\<lparr>utilities := Set_add (utilities rv) r\<rparr>"
  | "l = ''variants''" "rv' = rv\<lparr>variants := Set_add (variants rv) r\<rparr>"
  using assms unfolding returnValue_add_def by (auto split: if_splits)


lemma returnValue_add_layer_set:
  assumes "returnValue_add rv l r = Inr rv'"
  shows "set (layer_set rv' k) = (if k = l then insert r (set (layer_set rv k)) else set (layer_set rv k))"
  using assms
proof (cases rule: returnValue_add_cases)
  case 1 then show ?thesis by (simp add: layer_set_def set_Set_add)
next
  case 2 then show ?thesis by (simp add: layer_set_def set_Set_add)
next
  case 3 then show ?thesis by (simp add: layer_set_def set_Set_add)
next
  case 4 then show ?thesis by (simp add: layer_set_def set_Set_add)
next
  case 5 then show ?thesis by (simp add: layer_set_def set_Set_add)
qed

lemma returnValue_add_distinct:
  assumes "returnValue_add rv l r = Inr rv'" "distinct (layer_set rv k)"
  shows "distinct (layer_set rv' k)"
  using assms
proof (cases rule: returnValue_add_cases)
  case 1 with assms(2) show ?thesis by (auto simp: layer_set_def distinct_Set_add split: if_splits)
next
  case 2 with assms(2) show ?thesis by (auto simp: layer_set_def distinct_Set_add split: if_splits)
next
  case 3 with assms(2) show ?thesis by (auto simp: layer_set_def distinct_Set_add split: if_splits)
next
  case 4 with assms(2) show ?thesis by (auto simp: layer_set_def distinct_Set_add split: if_splits)
next
  case 5 with assms(2) show ?thesis by (auto simp: layer_set_def distinct_Set_add split: if_splits)
qed

lemma buildStylesheet_loop_Inr:
  "\<forall>(ofs, r) \<in> set rs. layer ofs \<in> set layer_tags \<Longrightarrow> \<exists>rv'. buildStylesheet_loop rs rv = Inr rv'"
proof (induction rs arbitrary: rv)
  case Nil
  then show ?case by simp
next
  case (Cons a rs)
  obtain ofs r where a: "a = (ofs, r)" by (cases a)
  with Cons.prems have "layer ofs \<in> set layer_tags" by simp
  then obtain rv1 where "returnValue_add rv (layer ofs) r = Inr rv1"
    using returnValue_add_Inr[of "layer ofs" rv r] by blast
  moreover from Cons.prems have "\<forall>(ofs, r) \<in> set rs. layer ofs \<in> set layer_tags" by simp
  ultimately show ?case using Cons.IH[of rv1] a by simp
qed

lemma buildStylesheet_loop_layer_set:
  "buildStylesheet_loop rs rv = Inr rv' \<Longrightarrow>
   set (layer_set rv' k) = set (layer_set rv k) \<union> {r. \<exists>ofs. (ofs, r) \<in> set rs \<and> layer ofs = k}"
proof (induction rs arbitrary: rv)
  case Nil
  then show ?case by simp
next
  case (Cons a rs)
  obtain ofs r where a: "a = (ofs, r)" by (cases a)
  from Cons.prems a obtain rv1 where
    1: "returnValue_add rv (layer ofs) r = Inr rv1" and 2: "buildStylesheet_loop rs rv1 = Inr rv'"
    by (auto split: sum.splits)
  from Cons.IH[OF 2] returnValue_add_layer_set[OF 1, of k] a show ?case
    by auto
qed

lemma buildStylesheet_loop_distinct:
  "buildStylesheet_loop rs rv = Inr rv' \<Longrightarrow> distinct (layer_set rv k) \<Longrightarrow> distinct (layer_set rv' k)"
proof (induction rs arbitrary: rv)
  case Nil
  then show ?case by simp
next
  case (Cons a rs)
  obtain ofs r where a: "a = (ofs, r)" by (cases a)
  from Cons.prems a obtain rv1 where
    1: "returnValue_add rv (layer ofs) r = Inr rv1" and 2: "buildStylesheet_loop rs rv1 = Inr rv'"
    by (auto split: sum.splits)
  from Cons.IH[OF 2] returnValue_add_distinct[OF 1] Cons.prems(2) show ?case
    by blast
qed

lemma layer_set_empty: "layer_set empty_stylesheet k = []"
  by (simp add: layer_set_def empty_stylesheet_def)

lemma layer_set_union:
  "(\<Union>k \<in> set layer_tags. set (layer_set rv k)) =
    set (base rv) \<union> set (defaults rv) \<union> set (components rv) \<union> set (utilities rv) \<union> set (variants rv)"
  by (auto simp: layer_tags_def layer_set_def)

lemma returnValue_add_layer_list:
  assumes "returnValue_add rv l r = Inr rv'"
  shows "layer_set rv' k = (if k = l then Set_add (layer_set rv k) r else layer_set rv k)"
  using assms
proof (cases rule: returnValue_add_cases)
  case 1 then show ?thesis by (simp add: layer_set_def)
next
  case 2 then show ?thesis by (simp add: layer_set_def)
next
  case 3 then show ?thesis by (simp add: layer_set_def)
next
  case 4 then show ?thesis by (simp add: layer_set_def)
next
  case 5 then show ?thesis by (simp add: layer_set_def)
qed

lemma buildStylesheet_loop_layer_list:
  "buildStylesheet_loop rs rv = Inr rv' \<Longrightarrow>
   layer_set rv' k =
     Set_addAll (layer_set rv k) (map snd (filter (\<lambda>(ofs, r). layer ofs = k) rs))"
proof (induction rs arbitrary: rv)
  case Nil
  then show ?case by (simp add: Set_addAll_Nil)
next
  case (Cons a rs)
  obtain ofs r where a: "a = (ofs, r)" by (cases a)
  from Cons.prems a obtain rv1 where
    1: "returnValue_add rv (layer ofs) r = Inr rv1" and 2: "buildStylesheet_loop rs rv1 = Inr rv'"
    by (auto split: sum.splits)
  from Cons.IH[OF 2] returnValue_add_layer_list[OF 1, of k] a show ?case
    by (simp add: Set_addAll_def)
qed

text \<open>
  Claim C2. For every list of (offset, rule) pairs in which every layer tag is one of
  base, defaults, components, utilities and variants, and for every ordering function
  that keeps the pairs, \<open>buildStylesheet\<close> returns five sets whose union is the set of
  the input rules: none is omitted. Each set holds exactly the rules paired with its
  tag, once each, in the order in which the sorted pairs first give them. A rule is a
  reference to a rule object, so two objects with the same contents are two rules. A
  rule whose pairs all carry one tag (as every rule of the rule cache does: a rule
  is generated for one layer) is in the set of that tag and in no other, and when
  this holds of every rule the five sets are pairwise disjoint.
\<close>

theorem buildStylesheet_partition:
  assumes perm: "set (sort_rules rules) = set rules"
    and tags: "\<forall>(ofs, r) \<in> set rules. layer ofs \<in> set layer_tags"
  shows "\<exists>rv. buildStylesheet sort_rules rules = Inr rv \<and>
      set (base rv) \<union> set (defaults rv) \<union> set (components rv) \<union> set (utilities rv) \<union> set (variants rv)
        = snd ` set rules \<and>
      (\<forall>k. layer_set rv k =
         new_Set (map snd (filter (\<lambda>(ofs, r). layer ofs = k) (sort_rules rules)))) \<and>
      (\<forall>k. set (layer_set rv k) = {r. \<exists>ofs. (ofs, r) \<in> set rules \<and> layer ofs = k}) \<and>
      (\<forall>k. distinct (layer_set rv k)) \<and>
      (\<forall>(ofs, r) \<in> set rules.
         (\<forall>(ofs', r') \<in> set rules. r' = r \<longrightarrow> layer ofs' = layer ofs) \<longrightarrow>
         (\<forall>k. r \<in> set (layer_set rv k) \<longleftrightarrow> k = layer ofs)) \<and>
      ((\<forall>(o1, r1) \<in> set rules. \<forall>(o2, r2) \<in> set rules. r1 = r2 \<longrightarrow> layer o1 = layer o2) \<longrightarrow>
       (\<forall>k1 k2. k1 \<noteq> k2 \<longrightarrow> set (layer_set rv k1) \<inter> set (layer_set rv k2) = {}))"
proof -
  from tags perm have "\<forall>(ofs, r) \<in> set (sort_rules rules). layer ofs \<in> set layer_tags" by simp
  then obtain rv where rv: "buildStylesheet_loop (sort_rules rules) empty_stylesheet = Inr rv"
    using buildStylesheet_loop_Inr[of "sort_rules rules" empty_stylesheet] by blast
  have run: "buildStylesheet sort_rules rules = Inr rv"
    using rv by (simp add: buildStylesheet_def)
  have lists: "layer_set rv k =
      new_Set (map snd (filter (\<lambda>(ofs, r). layer ofs = k) (sort_rules rules)))" for k
    using buildStylesheet_loop_layer_list[OF rv, of k] by (simp add: layer_set_empty new_Set_def)
  have sets: "set (layer_set rv k) = {r. \<exists>ofs. (ofs, r) \<in> set rules \<and> layer ofs = k}" for k
    using buildStylesheet_loop_layer_set[OF rv, of k] perm by (simp add: layer_set_empty)
  have dist: "distinct (layer_set rv k)" for k
    using buildStylesheet_loop_distinct[OF rv, of k] by (simp add: layer_set_empty)
  have one: "\<forall>(ofs, r) \<in> set rules.
         (\<forall>(ofs', r') \<in> set rules. r' = r \<longrightarrow> layer ofs' = layer ofs) \<longrightarrow>
         (\<forall>k. r \<in> set (layer_set rv k) \<longleftrightarrow> k = layer ofs)"
    unfolding sets by fastforce
  have disj: "(\<forall>(o1, r1) \<in> set rules. \<forall>(o2, r2) \<in> set rules. r1 = r2 \<longrightarrow> layer o1 = layer o2) \<longrightarrow>
       (\<forall>k1 k2. k1 \<noteq> k2 \<longrightarrow> set (layer_set rv k1) \<inter> set (layer_set rv k2) = {})"
    unfolding sets by fastforce
  have "(\<Union>k \<in> set layer_tags. set (layer_set rv k)) = snd ` set rules"
    unfolding sets using tags by force
  then have un: "set (base rv) \<union> set (defaults rv) \<union> set (components rv) \<union> set (utilities rv) \<union> set (variants rv)
        = snd ` set rules"
    by (simp only: layer_set_union)
  show ?thesis
  proof (intro exI[of _ rv] conjI allI)
    show "buildStylesheet sort_rules rules = Inr rv" by (rule run)
    show "set (base rv) \<union> set (defaults rv) \<union> set (components rv) \<union> set (utilities rv) \<union>
        set (variants rv) = snd ` set rules" by (rule un)
    show "layer_set rv k =
        new_Set (map snd (filter (\<lambda>(ofs, r). layer ofs = k) (sort_rules rules)))" for k
      by (rule lists)
    show "set (layer_set rv k) = {r. \<exists>ofs. (ofs, r) \<in> set rules \<and> layer ofs = k}" for k
      by (rule sets)
    show "distinct (layer_set rv k)" for k by (rule dist)
    show "\<forall>(ofs, r) \<in> set rules.
         (\<forall>(ofs', r') \<in> set rules. r' = r \<longrightarrow> layer ofs' = layer ofs) \<longrightarrow>
         (\<forall>k. r \<in> set (layer_set rv k) \<longleftrightarrow> k = layer ofs)" by (rule one)
    show "(\<forall>(o1, r1) \<in> set rules. \<forall>(o2, r2) \<in> set rules. r1 = r2 \<longrightarrow> layer o1 = layer o2) \<longrightarrow>
       (\<forall>k1 k2. k1 \<noteq> k2 \<longrightarrow> set (layer_set rv k1) \<inter> set (layer_set rv k2) = {})"
      by (rule disj)
  qed
qed

lemma example_buildStylesheet_rev:
  "buildStylesheet rev example_ruleCache = Inr example_layers"
  by (simp add: buildStylesheet_def example_ruleCache_def returnValue_add_def
        empty_stylesheet_def Set_add_def example_layers_def)

theorem buildStylesheet_partition_witness:
  "buildStylesheet rev example_ruleCache = Inr example_layers \<and>
   set (base example_layers) \<union> set (defaults example_layers) \<union>
     set (components example_layers) \<union> set (utilities example_layers) \<union>
     set (variants example_layers) = snd ` set example_ruleCache \<and>
   base example_layers = [0] \<and> components example_layers = [3] \<and>
   utilities example_layers = [1, 2] \<and>
   set (layer_set example_layers ''components'') \<inter>
     set (layer_set example_layers ''utilities'') = {} \<and>
   example_objects 1 = example_objects 2 \<and> example_objects 2 = example_objects 3 \<and>
   stylesheet_nodes example_objects example_layers =
     \<lparr>base = [Node (Rule ''html'') None None []], defaults = [],
      components = [Node (Rule ''.flex'') None None []],
      utilities = [Node (Rule ''.flex'') None None [], Node (Rule ''.flex'') None None []],
      variants = []\<rparr>"
proof -
  have perm: "set (rev example_ruleCache) = set example_ruleCache" by (rule set_rev)
  have tags: "\<forall>(ofs, r) \<in> set example_ruleCache. layer ofs \<in> set layer_tags"
    by (simp add: example_ruleCache_def layer_tags_def)
  have single: "\<forall>(o1, r1) \<in> set example_ruleCache. \<forall>(o2, r2) \<in> set example_ruleCache.
      r1 = r2 \<longrightarrow> layer o1 = layer o2"
    by (simp add: example_ruleCache_def)
  have o: "example_objects 1 = example_objects 2" "example_objects 2 = example_objects 3"
    by (simp_all add: example_objects_def)
  have l: "base example_layers = [0]" "components example_layers = [3]"
      "utilities example_layers = [1, 2]"
    by (simp_all add: example_layers_def)
  have n: "stylesheet_nodes example_objects example_layers =
     \<lparr>base = [Node (Rule ''html'') None None []], defaults = [],
      components = [Node (Rule ''.flex'') None None []],
      utilities = [Node (Rule ''.flex'') None None [], Node (Rule ''.flex'') None None []],
      variants = []\<rparr>"
    by (simp add: stylesheet_nodes_def example_objects_def example_layers_def)
  from buildStylesheet_partition[of rev example_ruleCache, OF perm tags] show ?thesis
  proof (elim exE conjE)
    fix rv
    assume run: "buildStylesheet rev example_ruleCache = Inr rv"
      and un: "set (base rv) \<union> set (defaults rv) \<union> set (components rv) \<union> set (utilities rv) \<union>
        set (variants rv) = snd ` set example_ruleCache"
      and disj: "(\<forall>(o1, r1) \<in> set example_ruleCache. \<forall>(o2, r2) \<in> set example_ruleCache.
        r1 = r2 \<longrightarrow> layer o1 = layer o2) \<longrightarrow>
       (\<forall>k1 k2. k1 \<noteq> k2 \<longrightarrow> set (layer_set rv k1) \<inter> set (layer_set rv k2) = {})"
    from run have rv: "rv = example_layers" by (simp add: example_buildStylesheet_rev)
    from disj single
    have d: "\<forall>k1 k2. k1 \<noteq> k2 \<longrightarrow> set (layer_set rv k1) \<inter> set (layer_set rv k2) = {}"
      by (rule mp)
    from d have "''components'' \<noteq> ''utilities'' \<longrightarrow>
        set (layer_set rv ''components'') \<inter> set (layer_set rv ''utilities'') = {}"
      by (elim allE)
    then have d': "set (layer_set example_layers ''components'') \<inter>
        set (layer_set example_layers ''utilities'') = {}"
      unfolding rv by simp
    from example_buildStylesheet_rev un[unfolded rv] l d' o n show ?thesis
      by (intro conjI)
  qed
qed

section \<open>Scan routing\<close>

lemma same_transformer_builtIn_DEFAULT:
  "same_transformer t builtIn_DEFAULT \<longleftrightarrow> t = builtIn_DEFAULT"
  by (cases t) simp_all

lemma getExtractor_marker:
  "DEFAULT_EXTRACTOR (fst (getExtractor ext context e n)) =
   DEFAULT_EXTRACTOR (fst (getExtractor ext context e 0))"
  by (simp add: getExtractor_def Let_def split: option.splits)

lemma route_item_rust:
  "rustParserContent (route_item ext context r item) =
     rustParserContent r @
     (if flagEnabled ext (tailwindConfig context) ''oxideParser'' \<and>
         getTransformer (tailwindConfig context) (item_extension item) = builtIn_DEFAULT \<and>
         DEFAULT_EXTRACTOR (fst (getExtractor ext context (item_extension item) 0))
      then [item] else [])"
proof -
  obtain e k where g: "getExtractor ext context (item_extension item) (made r) = (e, k)"
    by (cases "getExtractor ext context (item_extension item) (made r)")
  with getExtractor_marker[of ext "context" "item_extension item" "made r"]
  have "DEFAULT_EXTRACTOR e = DEFAULT_EXTRACTOR (fst (getExtractor ext context (item_extension item) 0))"
    by simp
  then show ?thesis
    by (simp add: route_item_def Let_def g same_transformer_builtIn_DEFAULT)
qed

lemma route_item_regex:
  "regexParserContent (route_item ext context r item) =
     regexParserContent r @
     (if flagEnabled ext (tailwindConfig context) ''oxideParser'' \<and>
         getTransformer (tailwindConfig context) (item_extension item) = builtIn_DEFAULT \<and>
         DEFAULT_EXTRACTOR (fst (getExtractor ext context (item_extension item) 0))
      then []
      else [(item, getTransformer (tailwindConfig context) (item_extension item),
             fst (getExtractor ext context (item_extension item) (made r)))])"
proof -
  obtain e k where g: "getExtractor ext context (item_extension item) (made r) = (e, k)"
    by (cases "getExtractor ext context (item_extension item) (made r)")
  with getExtractor_marker[of ext "context" "item_extension item" "made r"]
  have "DEFAULT_EXTRACTOR e = DEFAULT_EXTRACTOR (fst (getExtractor ext context (item_extension item) 0))"
    by simp
  then show ?thesis
    by (simp add: route_item_def Let_def g same_transformer_builtIn_DEFAULT)
qed

lemma route_loop_rust:
  "rustParserContent (foldl (route_item ext context) r items) =
     rustParserContent r @
     filter (\<lambda>item. flagEnabled ext (tailwindConfig context) ''oxideParser'' \<and>
         getTransformer (tailwindConfig context) (item_extension item) = builtIn_DEFAULT \<and>
         DEFAULT_EXTRACTOR (fst (getExtractor ext context (item_extension item) 0))) items"
  by (induction items arbitrary: r) (simp_all add: route_item_rust)

lemma route_loop_regex:
  "map fst (regexParserContent (foldl (route_item ext context) r items)) =
     map fst (regexParserContent r) @
     filter (\<lambda>item. \<not> (flagEnabled ext (tailwindConfig context) ''oxideParser'' \<and>
         getTransformer (tailwindConfig context) (item_extension item) = builtIn_DEFAULT \<and>
         DEFAULT_EXTRACTOR (fst (getExtractor ext context (item_extension item) 0)))) items"
  by (induction items arbitrary: r) (simp_all add: route_item_regex)

lemma route_loop_entries:
  assumes "\<forall>(item, t, e) \<in> set (regexParserContent r).
      t = getTransformer (tailwindConfig context) (item_extension item) \<and>
      (\<exists>k. e = fst (getExtractor ext context (item_extension item) k))"
  shows "\<forall>(item, t, e) \<in> set (regexParserContent (foldl (route_item ext context) r items)).
      t = getTransformer (tailwindConfig context) (item_extension item) \<and>
      (\<exists>k. e = fst (getExtractor ext context (item_extension item) k))"
  using assms
proof (induction items arbitrary: r)
  case Nil
  then show ?case by simp
next
  case (Cons item items)
  have "\<forall>(item, t, e) \<in> set (regexParserContent (route_item ext context r item)).
      t = getTransformer (tailwindConfig context) (item_extension item) \<and>
      (\<exists>k. e = fst (getExtractor ext context (item_extension item) k))"
    using Cons.prems by (auto simp: route_item_regex)
  from Cons.IH[OF this] show ?case by simp
qed

text \<open>
  Claim C3. The routing loop sends a pending content item to the native scan queue
  exactly when the flag \<open>oxideParser\<close> is enabled, the resolved transformer is the
  built-in default transformer and the resolved extractor carries the marker
  \<open>DEFAULT_EXTRACTOR\<close>; every other item goes to the regex queue, with its resolved
  transformer and extractor. Both queues keep the order of the pending items.
\<close>

theorem route_oxide_iff:
  "rustParserContent (route ext context n) =
     filter (\<lambda>item. flagEnabled ext (tailwindConfig context) ''oxideParser'' \<and>
         getTransformer (tailwindConfig context) (item_extension item) = builtIn_DEFAULT \<and>
         DEFAULT_EXTRACTOR (fst (getExtractor ext context (item_extension item) 0)))
       (changedContent context) \<and>
   map fst (regexParserContent (route ext context n)) =
     filter (\<lambda>item. \<not> (flagEnabled ext (tailwindConfig context) ''oxideParser'' \<and>
         getTransformer (tailwindConfig context) (item_extension item) = builtIn_DEFAULT \<and>
         DEFAULT_EXTRACTOR (fst (getExtractor ext context (item_extension item) 0))))
       (changedContent context) \<and>
   (\<forall>(item, t, e) \<in> set (regexParserContent (route ext context n)).
      t = getTransformer (tailwindConfig context) (item_extension item) \<and>
      (\<exists>k. e = fst (getExtractor ext context (item_extension item) k))) \<and>
   (\<forall>item \<in> set (changedContent context).
      (item \<in> set (rustParserContent (route ext context n)) \<longleftrightarrow>
         flagEnabled ext (tailwindConfig context) ''oxideParser'' \<and>
         getTransformer (tailwindConfig context) (item_extension item) = builtIn_DEFAULT \<and>
         DEFAULT_EXTRACTOR (fst (getExtractor ext context (item_extension item) 0))) \<and>
      (item \<in> fst ` set (regexParserContent (route ext context n)) \<longleftrightarrow>
         \<not> (flagEnabled ext (tailwindConfig context) ''oxideParser'' \<and>
         getTransformer (tailwindConfig context) (item_extension item) = builtIn_DEFAULT \<and>
         DEFAULT_EXTRACTOR (fst (getExtractor ext context (item_extension item) 0)))))"
proof -
  let ?P = "\<lambda>item. flagEnabled ext (tailwindConfig context) ''oxideParser'' \<and>
         getTransformer (tailwindConfig context) (item_extension item) = builtIn_DEFAULT \<and>
         DEFAULT_EXTRACTOR (fst (getExtractor ext context (item_extension item) 0))"
  have rust: "rustParserContent (route ext context n) = filter ?P (changedContent context)"
    by (simp add: route_def route_loop_rust)
  have regex: "map fst (regexParserContent (route ext context n)) =
      filter (\<lambda>item. \<not> ?P item) (changedContent context)"
    by (simp add: route_def route_loop_regex)
  have entries: "\<forall>(item, t, e) \<in> set (regexParserContent (route ext context n)).
      t = getTransformer (tailwindConfig context) (item_extension item) \<and>
      (\<exists>k. e = fst (getExtractor ext context (item_extension item) k))"
    unfolding route_def by (rule route_loop_entries) simp
  have mem: "\<forall>item \<in> set (changedContent context).
      (item \<in> set (rustParserContent (route ext context n)) \<longleftrightarrow> ?P item) \<and>
      (item \<in> fst ` set (regexParserContent (route ext context n)) \<longleftrightarrow> \<not> ?P item)"
  proof
    fix item assume "item \<in> set (changedContent context)"
    moreover have "fst ` set (regexParserContent (route ext context n)) =
        set (map fst (regexParserContent (route ext context n)))" by simp
    ultimately show "(item \<in> set (rustParserContent (route ext context n)) \<longleftrightarrow> ?P item) \<and>
      (item \<in> fst ` set (regexParserContent (route ext context n)) \<longleftrightarrow> \<not> ?P item)"
      unfolding rust regex by simp
  qed
  from rust regex entries mem show ?thesis by (intro conjI)
qed


theorem route_oxide_iff_witness:
  "rustParserContent
     (route example_oxide
        (example_context [example_item ''html'' ''<p class=flex>'',
           example_item ''svelte'' ''<p class:flex>'', example_item ''js'' ''x'']) 0) =
     [example_item ''html'' ''<p class=flex>''] \<and>
   map fst (regexParserContent
     (route example_oxide
        (example_context [example_item ''html'' ''<p class=flex>'',
           example_item ''svelte'' ''<p class:flex>'', example_item ''js'' ''x'']) 0)) =
     [example_item ''svelte'' ''<p class:flex>'', example_item ''js'' ''x''] \<and>
   rustParserContent
     (route example_externals
        (example_context [example_item ''html'' ''<p class=flex>'',
           example_item ''svelte'' ''<p class:flex>'', example_item ''js'' ''x'']) 0) = []"
proof -
  let ?items = "[example_item ''html'' ''<p class=flex>'',
           example_item ''svelte'' ''<p class:flex>'', example_item ''js'' ''x'']"
  have t: "getTransformer example_config ''html'' = builtIn_DEFAULT"
      "getTransformer example_config ''svelte'' = builtIn_svelte"
      "getTransformer example_config ''js'' = builtIn_DEFAULT"
    by (simp_all add: getTransformer_def example_config_def builtInTransformers_def or_else_def)
  have e: "DEFAULT_EXTRACTOR (fst (getExtractor ext (example_context ?items) ''html'' 0))"
      "DEFAULT_EXTRACTOR (fst (getExtractor ext (example_context ?items) ''svelte'' 0))"
      "\<not> DEFAULT_EXTRACTOR (fst (getExtractor ext (example_context ?items) ''js'' 0))" for ext
    by (simp_all add: getExtractor_def example_context_def example_config_def
          builtInExtractors_def or_else_def example_extractor_def)
  have c: "tailwindConfig (example_context ?items) = example_config"
      "changedContent (example_context ?items) = ?items"
    by (simp_all add: example_context_def)
  have f: "flagEnabled example_oxide example_config ''oxideParser''"
      "\<not> flagEnabled example_externals example_config ''oxideParser''"
    by (simp_all add: example_oxide_def example_externals_def)
  have x: "item_extension (example_item ex co) = ex" for ex co
    by (simp add: example_item_def)
  from route_oxide_iff[of example_oxide "example_context ?items" 0]
    route_oxide_iff[of example_externals "example_context ?items" 0]
  show ?thesis
    by (simp add: c f x t e)
qed

section \<open>The candidate collector\<close>

lemma distinct_initial_candidates: "distinct (initial_candidates ext context)"
  by (simp add: initial_candidates_def distinct_new_Set)

lemma set_initial_candidates:
  "set (initial_candidates ext context) =
     set (case context_candidates context of None \<Rightarrow> [] | Some cs \<Rightarrow> cs) \<union> {NOT_ON_DEMAND ext}"
  by (simp add: initial_candidates_def set_new_Set)

lemma scan_batches_distinct:
  assumes "scan_batches ext entries i (c, s, ch) = Inr (c', s', ch')" "distinct c"
  shows "distinct c'"
proof -
  from scan_batches_tokens[OF assms(1) refl] obtain T where
    "scan_batches ext entries i (c, s, ch) = Inr (Set_addAll c T, s', ch')" by blast
  with assms have "c' = Set_addAll c T" by simp
  with assms(2) show ?thesis by (simp add: distinct_Set_addAll)
qed

lemma collect_candidates_InrD:
  assumes "collect_candidates ext context caches n = Inr (cands, caches', n')"
  obtains c1 seen' where
    "if rustParserContent (route ext context n) = []
     then c1 = initial_candidates ext context
     else \<exists>found. parseCandidateStrings ext (rustParserContent (route ext context n)) = Inr found \<and>
            c1 = Set_addAll (initial_candidates ext context) (map Primitive found)"
    "scan_batches ext (regexParserContent (route ext context n)) 0 (c1, [], caches) =
       Inr (cands, seen', caches')"
  using assms unfolding collect_candidates_def Let_def
  by (auto split: sum.splits if_splits prod.splits)

lemma inj_on_raw_iff:
  assumes "\<forall>c \<in> A. c = String_object w \<or> (\<exists>s. c = Primitive s)"
  shows "inj_on raw A \<longleftrightarrow> \<not> (String_object w \<in> A \<and> Primitive w \<in> A)"
proof
  assume i: "inj_on raw A"
  show "\<not> (String_object w \<in> A \<and> Primitive w \<in> A)"
  proof
    assume "String_object w \<in> A \<and> Primitive w \<in> A"
    with inj_onD[OF i, of "String_object w" "Primitive w"]
    have "String_object w = Primitive w" by simp
    then show False by simp
  qed
next
  assume n: "\<not> (String_object w \<in> A \<and> Primitive w \<in> A)"
  show "inj_on raw A"
  proof (rule inj_onI)
    fix x y
    assume x: "x \<in> A" and y: "y \<in> A" and r: "raw x = raw y"
    from assms x y have "(x = String_object w \<or> (\<exists>s. x = Primitive s)) \<and>
        (y = String_object w \<or> (\<exists>s. y = Primitive s))"
      by blast
    with r n x y show "x = y" by auto
  qed
qed

lemma generate_InrD:
  "generate ext cands context = Inr context' \<Longrightarrow>
   context'\<lparr>stylesheetCache := None\<rparr> =
     (generateRules ext (sortedCandidates cands) context)\<lparr>stylesheetCache := None\<rparr>"
  by (auto simp: generate_def Let_def split: if_splits sum.splits)

lemma expandTailwindAtRules_InrD:
  assumes "expandTailwindAtRules ext st root = Inr (st', root')"
    and "\<not> no_layerNodes (find_layerNodes root)"
  obtains cs ch k ctx where
    "collect_candidates ext (build_context st) (extractor_caches st) (functions_made st) =
       Inr (cs, ch, k)"
    "generate ext cs (build_context st) = Inr ctx"
    "build_context st' = ctx\<lparr>changedContent := []\<rparr>"
  using assms unfolding expandTailwindAtRules_def Let_def
  by (auto split: sum.splits option.splits prod.splits)

text \<open>
  Claim C4, as amended. The candidates that a pass collects are a set (no duplicates):
  the candidates the context already had, the sentinel, what the native scanner found
  (when any item was routed to it) and what the extractor path finds. The sentinel is
  a String object, so it is a candidate of its own beside the primitive string that it
  wraps, should that string be found too. What rule generation receives is this set
  in ascending lexicographic order of the strings, the candidates with the same
  string in their order of discovery (a stable sort). When no two candidates have the
  same string (the sentinel's string is not itself a candidate), the sequence, and
  with it what rule generation is called with, depends on the set alone and not on
  the order of discovery. With no content items and no earlier candidates the
  collected set is the sentinel alone. A pass that has a marker and returns has
  called rule generation with the sorted candidates it collected.
\<close>

theorem candidates_sorted_union:
  "(collect_candidates ext context caches n = Inr (cands, caches', n') \<longrightarrow>
      distinct cands \<and>
      (\<exists>found seen'.
         scan_batches ext (regexParserContent (route ext context n)) 0 ([], [], caches) =
           Inr (found, seen', caches') \<and>
         set cands =
           set (case context_candidates context of None \<Rightarrow> [] | Some cs \<Rightarrow> cs) \<union>
           {NOT_ON_DEMAND ext} \<union>
           (if rustParserContent (route ext context n) = [] then {}
            else (case parseCandidateStrings ext (rustParserContent (route ext context n)) of
                    Inl e \<Rightarrow> {}
                  | Inr found_rust \<Rightarrow> Primitive ` set found_rust)) \<union>
           set found)) \<and>
   set (sortedCandidates cands) = set cands \<and>
   distinct (sortedCandidates cands) \<and>
   sorted (map raw (sortedCandidates cands)) \<and>
   (distinct cands \<longrightarrow> sortedCandidates cands = sort_key raw cands) \<and>
   (inj_on raw (set cands) \<longrightarrow> set cands = set cands2 \<longrightarrow>
      sortedCandidates cands = sortedCandidates cands2 \<and>
      generate ext cands context = generate ext cands2 context) \<and>
   ((\<forall>c \<in> set cands. c = NOT_ON_DEMAND ext \<or> (\<exists>s. c = Primitive s)) \<longrightarrow>
      (inj_on raw (set cands) \<longleftrightarrow>
       \<not> (NOT_ON_DEMAND ext \<in> set cands \<and> Primitive (NOT_ON_DEMAND_string ext) \<in> set cands))) \<and>
   (changedContent context = [] \<longrightarrow>
    (context_candidates context = None \<or> context_candidates context = Some []) \<longrightarrow>
      collect_candidates ext context caches n = Inr ([NOT_ON_DEMAND ext], caches, n) \<and>
      sortedCandidates [NOT_ON_DEMAND ext] = [NOT_ON_DEMAND ext]) \<and>
   (generate ext cands context = Inr context' \<longrightarrow>
      context'\<lparr>stylesheetCache := None\<rparr> =
        (generateRules ext (sortedCandidates cands) context)\<lparr>stylesheetCache := None\<rparr>) \<and>
   (expandTailwindAtRules ext st root = Inr (st', root') \<longrightarrow>
    \<not> no_layerNodes (find_layerNodes root) \<longrightarrow>
      (\<exists>cs ch k.
         collect_candidates ext (build_context st) (extractor_caches st) (functions_made st) =
           Inr (cs, ch, k) \<and>
         (build_context st')\<lparr>stylesheetCache := None\<rparr> =
           (generateRules ext (sortedCandidates cs) (build_context st))
             \<lparr>changedContent := [], stylesheetCache := None\<rparr>))"
proof (intro conjI impI)
  assume run: "collect_candidates ext context caches n = Inr (cands, caches', n')"
  then obtain c1 seen' where
    c1: "if rustParserContent (route ext context n) = []
     then c1 = initial_candidates ext context
     else \<exists>found. parseCandidateStrings ext (rustParserContent (route ext context n)) = Inr found \<and>
            c1 = Set_addAll (initial_candidates ext context) (map Primitive found)"
    and scan: "scan_batches ext (regexParserContent (route ext context n)) 0 (c1, [], caches) =
       Inr (cands, seen', caches')"
    by (rule collect_candidates_InrD)
  from c1 have d1: "distinct c1"
    by (auto simp: distinct_initial_candidates distinct_Set_addAll split: if_splits)
  from scan_batches_distinct[OF scan d1] show "distinct cands" .
  from scan_batches_tokens[OF scan refl] obtain T where
    T: "\<And>c0. scan_batches ext (regexParserContent (route ext context n)) 0 (c0, [], caches) =
          Inr (Set_addAll c0 T, seen', caches')"
    by blast
  from T[of c1] scan have cands: "cands = Set_addAll c1 T" by simp
  have s1: "set c1 =
      set (case context_candidates context of None \<Rightarrow> [] | Some cs \<Rightarrow> cs) \<union>
           {NOT_ON_DEMAND ext} \<union>
           (if rustParserContent (route ext context n) = [] then {}
            else (case parseCandidateStrings ext (rustParserContent (route ext context n)) of
                    Inl e \<Rightarrow> {}
                  | Inr found_rust \<Rightarrow> Primitive ` set found_rust))"
    using c1 by (auto simp: set_initial_candidates set_Set_addAll split: if_splits)
  have "scan_batches ext (regexParserContent (route ext context n)) 0 ([], [], caches) =
           Inr (Set_addAll [] T, seen', caches') \<and>
         set cands =
           set (case context_candidates context of None \<Rightarrow> [] | Some cs \<Rightarrow> cs) \<union>
           {NOT_ON_DEMAND ext} \<union>
           (if rustParserContent (route ext context n) = [] then {}
            else (case parseCandidateStrings ext (rustParserContent (route ext context n)) of
                    Inl e \<Rightarrow> {}
                  | Inr found_rust \<Rightarrow> Primitive ` set found_rust)) \<union>
           set (Set_addAll [] T)"
    unfolding cands set_Set_addAll s1 using T[of "[]"] by simp
  then show "\<exists>found seen'.
         scan_batches ext (regexParserContent (route ext context n)) 0 ([], [], caches) =
           Inr (found, seen', caches') \<and>
         set cands =
           set (case context_candidates context of None \<Rightarrow> [] | Some cs \<Rightarrow> cs) \<union>
           {NOT_ON_DEMAND ext} \<union>
           (if rustParserContent (route ext context n) = [] then {}
            else (case parseCandidateStrings ext (rustParserContent (route ext context n)) of
                    Inl e \<Rightarrow> {}
                  | Inr found_rust \<Rightarrow> Primitive ` set found_rust)) \<union>
           set found"
    by blast
next
  show "set (sortedCandidates cands) = set cands" by (rule set_sortedCandidates)
  show "distinct (sortedCandidates cands)" by (rule distinct_sortedCandidates)
  show "sorted (map raw (sortedCandidates cands))" by (rule sorted_sortedCandidates)
next
  assume "distinct cands"
  then show "sortedCandidates cands = sort_key raw cands"
    by (rule sortedCandidates_distinct_sort_key)
next
  assume "inj_on raw (set cands)" "set cands = set cands2"
  then show "sortedCandidates cands = sortedCandidates cands2"
    by (rule sortedCandidates_set_only)
next
  assume "inj_on raw (set cands)" "set cands = set cands2"
  then have "sortedCandidates cands = sortedCandidates cands2"
    by (rule sortedCandidates_set_only)
  then show "generate ext cands context = generate ext cands2 context"
    by (simp add: generate_def)
next
  assume "\<forall>c \<in> set cands. c = NOT_ON_DEMAND ext \<or> (\<exists>s. c = Primitive s)"
  then show "inj_on raw (set cands) \<longleftrightarrow>
       \<not> (NOT_ON_DEMAND ext \<in> set cands \<and> Primitive (NOT_ON_DEMAND_string ext) \<in> set cands)"
    unfolding NOT_ON_DEMAND_def by (rule inj_on_raw_iff)
next
  assume e: "changedContent context = []"
    and n: "context_candidates context = None \<or> context_candidates context = Some []"
  from n have "initial_candidates ext context = [NOT_ON_DEMAND ext]"
    by (auto simp: initial_candidates_def new_Set_def Set_addAll_def Set_add_def)
  with e show "collect_candidates ext context caches n = Inr ([NOT_ON_DEMAND ext], caches, n)"
    by (simp add: collect_candidates_no_content)
next
  show "sortedCandidates [NOT_ON_DEMAND ext] = [NOT_ON_DEMAND ext]"
    by (simp add: sortedCandidates_def Array_sort_def new_Set_def Set_addAll_def Set_add_def)
next
  assume "generate ext cands context = Inr context'"
  then show "context'\<lparr>stylesheetCache := None\<rparr> =
        (generateRules ext (sortedCandidates cands) context)\<lparr>stylesheetCache := None\<rparr>"
    by (rule generate_InrD)
next
  assume run: "expandTailwindAtRules ext st root = Inr (st', root')"
    and m: "\<not> no_layerNodes (find_layerNodes root)"
  from run m obtain cs ch k ctx where
    c: "collect_candidates ext (build_context st) (extractor_caches st) (functions_made st) =
       Inr (cs, ch, k)"
    and g: "generate ext cs (build_context st) = Inr ctx"
    and b: "build_context st' = ctx\<lparr>changedContent := []\<rparr>"
    by (rule expandTailwindAtRules_InrD)
  from generate_InrD[OF g]
  have "ctx\<lparr>changedContent := [], stylesheetCache := None\<rparr> =
      (generateRules ext (sortedCandidates cs) (build_context st))
        \<lparr>changedContent := [], stylesheetCache := None\<rparr>"
    by (metis buildContext.update_convs(3) buildContext.surjective buildContext.update_convs(6))
  with b have "(build_context st')\<lparr>stylesheetCache := None\<rparr> =
           (generateRules ext (sortedCandidates cs) (build_context st))
             \<lparr>changedContent := [], stylesheetCache := None\<rparr>"
    by simp
  with c show "\<exists>cs ch k.
         collect_candidates ext (build_context st) (extractor_caches st) (functions_made st) =
           Inr (cs, ch, k) \<and>
         (build_context st')\<lparr>stylesheetCache := None\<rparr> =
           (generateRules ext (sortedCandidates cs) (build_context st))
             \<lparr>changedContent := [], stylesheetCache := None\<rparr>"
    by blast
qed

lemma example_route_html:
  "route example_externals (example_context [example_item ''html'' co]) 0 =
     \<lparr>rustParserContent = [],
      regexParserContent =
        [(example_item ''html'' co, builtIn_DEFAULT,
          \<lparr>fn_id = DefaultExtractorResult 0,
            call = defaultExtractor example_externals (example_context [example_item ''html'' co]),
            DEFAULT_EXTRACTOR = True\<rparr>)],
      made = 1\<rparr>"
  by (simp add: route_def route_item_def getTransformer_def getExtractor_def example_context_def
        example_config_def example_item_def builtInTransformers_def builtInExtractors_def
        or_else_def Let_def example_externals_def)

lemma example_read_content:
  "read_content example_externals (example_item ex co) = Inr co"
  by (simp add: read_content_def example_item_def)

lemma example_scan_one:
  assumes "getClassCandidates co e c [] Map.empty = Inr (c', s', ch')"
  shows "scan_batches example_externals [(example_item ex co, builtIn_DEFAULT, e)] 0
           (c, [], Map.empty) = Inr (c', s', ch')"
proof -
  have "scan_batches example_externals [(example_item ex co, builtIn_DEFAULT, e)] 0
           (c, [], Map.empty) =
        scan_entries example_externals [(example_item ex co, builtIn_DEFAULT, e)]
           (c, [], Map.empty)"
    by (rule scan_batches_no_file) (simp_all add: BATCH_SIZE_def example_names_file)
  with assms show ?thesis
    by (simp add: scan_entry_def example_read_content)
qed

lemma example_line_b_a:
  "\<exists>ch. getClassCandidates ''b a''
     \<lparr>fn_id = DefaultExtractorResult 0, call = (\<lambda>line. Inr (example_words [] line)),
      DEFAULT_EXTRACTOR = True\<rparr> [String_object ''*''] [] Map.empty =
     Inr ([String_object ''*'', Primitive ''b'', Primitive ''a''], [''b a''], ch)"
  by (simp add: getClassCandidates_def getClassCandidates_line_def Let_def trim_def is_space_def
        new_LRU_def LRU_has_def new_Set_def Set_addAll_def Set_add_def)

lemma example_line_star:
  "\<exists>ch. getClassCandidates ''*''
     \<lparr>fn_id = DefaultExtractorResult 0, call = (\<lambda>line. Inr (example_words [] line)),
      DEFAULT_EXTRACTOR = True\<rparr> [String_object ''*''] [] Map.empty =
     Inr ([String_object ''*'', Primitive ''*''], [''*''], ch)"
  by (simp add: getClassCandidates_def getClassCandidates_line_def Let_def trim_def is_space_def
        new_LRU_def LRU_has_def new_Set_def Set_addAll_def Set_add_def)

lemma example_collect_html:
  assumes "getClassCandidates co
     \<lparr>fn_id = DefaultExtractorResult 0, call = (\<lambda>line. Inr (example_words [] line)),
      DEFAULT_EXTRACTOR = True\<rparr> [String_object ''*''] [] Map.empty = Inr (c', s', ch')"
  shows "collect_candidates example_externals (example_context [example_item ''html'' co])
          Map.empty 0 = Inr (c', ch', 1)"
proof -
  have d: "defaultExtractor example_externals c = (\<lambda>line. Inr (example_words [] line))" for c
    by (simp add: example_externals_def)
  show ?thesis
    apply (simp only: collect_candidates_def Let_def example_route_html
        example_initial_candidates)
    apply (simp only: d)
    apply (simp add: example_scan_one[OF assms])
    done
qed

lemma example_collect_b_a:
  "\<exists>ch. collect_candidates example_externals (example_context [example_item ''html'' ''b a''])
          Map.empty 0 = Inr ([String_object ''*'', Primitive ''b'', Primitive ''a''], ch, 1)"
proof -
  from example_line_b_a obtain ch where
    "getClassCandidates ''b a''
     \<lparr>fn_id = DefaultExtractorResult 0, call = (\<lambda>line. Inr (example_words [] line)),
      DEFAULT_EXTRACTOR = True\<rparr> [String_object ''*''] [] Map.empty =
     Inr ([String_object ''*'', Primitive ''b'', Primitive ''a''], [''b a''], ch)"
    by (rule exE)
  from example_collect_html[OF this] show ?thesis by (rule exI[of _ ch])
qed

lemma example_collect_star:
  "map_sum id fst
     (collect_candidates example_externals (example_context [example_item ''html'' ''*''])
        Map.empty 0) = Inr [String_object ''*'', Primitive ''*'']"
proof -
  from example_line_star obtain ch where
    "getClassCandidates ''*''
     \<lparr>fn_id = DefaultExtractorResult 0, call = (\<lambda>line. Inr (example_words [] line)),
      DEFAULT_EXTRACTOR = True\<rparr> [String_object ''*''] [] Map.empty =
     Inr ([String_object ''*'', Primitive ''*''], [''*''], ch)"
    by (rule exE)
  from example_collect_html[OF this] show ?thesis by simp
qed

lemma example_collect_earlier_star:
  "map_sum id fst
     (collect_candidates example_externals
        ((example_context [])\<lparr>context_candidates := Some [Primitive ''*'']\<rparr>) Map.empty 0) =
     Inr [Primitive ''*'', String_object ''*'']"
  by (simp add: collect_candidates_no_content example_context_def initial_candidates_def
        NOT_ON_DEMAND_def example_externals_def new_Set_def Set_addAll_def Set_add_def)

lemma example_sorted_b_a:
  "sortedCandidates [String_object ''*'', Primitive ''b'', Primitive ''a''] =
     [String_object ''*'', Primitive ''a'', Primitive ''b'']"
  by (simp add: sortedCandidates_def Array_sort_def compare_candidates_def new_Set_def
        Set_addAll_def Set_add_def)

lemma example_sorted_star:
  "sortedCandidates [String_object ''*'', Primitive ''*''] = [String_object ''*'', Primitive ''*'']"
  "sortedCandidates [Primitive ''*'', String_object ''*''] = [Primitive ''*'', String_object ''*'']"
  by (simp_all add: sortedCandidates_def Array_sort_def compare_candidates_def new_Set_def
        Set_addAll_def Set_add_def)

lemma example_generate_b_a:
  "generate example_externals [String_object ''*'', Primitive ''b'', Primitive ''a'']
     (example_context items) =
     Inr ((example_context items)
            \<lparr>classCache := [(String_object ''*'', [(\<lparr>layer = ''base''\<rparr>, 0)]),
                            (Primitive ''a'', [(\<lparr>layer = ''utilities''\<rparr>, 1)]),
                            (Primitive ''b'', [(\<lparr>layer = ''utilities''\<rparr>, 2)])],
             ruleCache := [(\<lparr>layer = ''base''\<rparr>, 0), (\<lparr>layer = ''utilities''\<rparr>, 1),
                           (\<lparr>layer = ''utilities''\<rparr>, 2)],
             stylesheetCache := Some example_partition,
             objects := (objects (example_context items))
               (0 := Node (Rule ''html'') None None [], 1 := Node (Rule ''.a'') None None [],
                2 := Node (Rule ''.b'') None None [])\<rparr>)"
  by (simp add: generate_def Let_def example_externals_def example_sorted_b_a
        example_generateRules_def example_context_def Map_size_def
        needs_rebuild_def buildStylesheet_def returnValue_add_def empty_stylesheet_def
        Set_add_def example_partition_def numeral_2_eq_2)

lemma example_b_a_sheet:
  "stylesheet_nodes ((objects (example_context items))
               (0 := Node (Rule ''html'') None None [], 1 := Node (Rule ''.a'') None None [],
                2 := Node (Rule ''.b'') None None [])) example_partition =
   \<lparr>base = [Node (Rule ''html'') None None []], defaults = [], components = [],
    utilities = [Node (Rule ''.a'') None None [], Node (Rule ''.b'') None None []],
    variants = []\<rparr>"
  by (simp add: stylesheet_nodes_def example_partition_def)

lemma example_b_a_splice:
  "splice_root example_externals (find_layerNodes (example_only ''utilities''))
     \<lparr>base = [Node (Rule ''html'') None None []], defaults = [], components = [],
      utilities = [Node (Rule ''.a'') None None [], Node (Rule ''.b'') None None []],
      variants = []\<rparr> (example_only ''utilities'') [] =
   Inr (example_root [Node (Rule ''.a'') (Some (example_source 1)) None [],
                      Node (Rule ''.b'') (Some (example_source 1)) None []], [])"
  apply (simp add: example_only_layerNodes layerNodes_keys_def splice_root_def splice_layers_def
        splice_marker_def splice_variants_def variantNodes_def warn_utilities_def Let_def
        example_externals_def example_cloneNodes_def)
  apply (simp add: example_only_def example_root_def example_directive_def
        fix_source_end_def example_source_def warn_utilities_def)
  done

lemma example_b_a_pass:
  "\<exists>ch. expandTailwindAtRules example_externals (example_state [example_item ''html'' ''b a''])
     (example_only ''utilities'') =
   Inr (\<lparr>build_context = (example_context [])
            \<lparr>classCache := [(String_object ''*'', [(\<lparr>layer = ''base''\<rparr>, 0)]),
                            (Primitive ''a'', [(\<lparr>layer = ''utilities''\<rparr>, 1)]),
                            (Primitive ''b'', [(\<lparr>layer = ''utilities''\<rparr>, 2)])],
             ruleCache := [(\<lparr>layer = ''base''\<rparr>, 0), (\<lparr>layer = ''utilities''\<rparr>, 1),
                           (\<lparr>layer = ''utilities''\<rparr>, 2)],
             stylesheetCache := Some example_partition,
             objects := (objects (example_context []))
               (0 := Node (Rule ''html'') None None [], 1 := Node (Rule ''.a'') None None [],
                2 := Node (Rule ''.b'') None None [])\<rparr>,
         extractor_caches = ch, functions_made = 1, warnings = []\<rparr>,
        example_root [Node (Rule ''.a'') (Some (example_source 1)) None [],
                      Node (Rule ''.b'') (Some (example_source 1)) None []])"
proof -
  have 1: "\<not> no_layerNodes (find_layerNodes (example_only ''utilities''))"
    by (simp add: example_only_layerNodes no_layerNodes_def layerNodes_keys_def)
  from example_collect_b_a obtain ch where
    2: "collect_candidates example_externals (example_context [example_item ''html'' ''b a''])
          Map.empty 0 = Inr ([String_object ''*'', Primitive ''b'', Primitive ''a''], ch, 1)"
    by (rule exE)
  have "expandTailwindAtRules example_externals (example_state [example_item ''html'' ''b a''])
     (example_only ''utilities'') =
   Inr (\<lparr>build_context = (example_context [])
            \<lparr>classCache := [(String_object ''*'', [(\<lparr>layer = ''base''\<rparr>, 0)]),
                            (Primitive ''a'', [(\<lparr>layer = ''utilities''\<rparr>, 1)]),
                            (Primitive ''b'', [(\<lparr>layer = ''utilities''\<rparr>, 2)])],
             ruleCache := [(\<lparr>layer = ''base''\<rparr>, 0), (\<lparr>layer = ''utilities''\<rparr>, 1),
                           (\<lparr>layer = ''utilities''\<rparr>, 2)],
             stylesheetCache := Some example_partition,
             objects := (objects (example_context []))
               (0 := Node (Rule ''html'') None None [], 1 := Node (Rule ''.a'') None None [],
                2 := Node (Rule ''.b'') None None [])\<rparr>,
         extractor_caches = ch, functions_made = 1, warnings = []\<rparr>,
        example_root [Node (Rule ''.a'') (Some (example_source 1)) None [],
                      Node (Rule ''.b'') (Some (example_source 1)) None []])"
    by (simp add: expandTailwindAtRules_def Let_def 1 example_state_def 2
          example_generate_b_a stylesheet_nodes_def example_partition_def example_b_a_splice)
       (simp add: example_root_def stale_layer_def example_context_def)
  then show ?thesis by (rule exI[of _ ch])
qed

theorem candidates_sorted_union_witness:
  "(\<exists>ch. collect_candidates example_externals (example_context [example_item ''html'' ''b a''])
          Map.empty 0 = Inr ([String_object ''*'', Primitive ''b'', Primitive ''a''], ch, 1)) \<and>
   distinct [String_object ''*'', Primitive ''b'', Primitive ''a''] \<and>
   set (sortedCandidates [String_object ''*'', Primitive ''b'', Primitive ''a'']) = set [String_object ''*'', Primitive ''b'', Primitive ''a''] \<and>
   sorted (map raw (sortedCandidates [String_object ''*'', Primitive ''b'', Primitive ''a''])) \<and>
   sortedCandidates [String_object ''*'', Primitive ''b'', Primitive ''a''] = sort_key raw [String_object ''*'', Primitive ''b'', Primitive ''a''] \<and>
   inj_on raw (set [String_object ''*'', Primitive ''b'', Primitive ''a'']) \<and>
   sortedCandidates [String_object ''*'', Primitive ''b'', Primitive ''a''] = sortedCandidates [Primitive ''a'', String_object ''*'', Primitive ''b''] \<and>
   sortedCandidates [String_object ''*'', Primitive ''b'', Primitive ''a''] = [String_object ''*'', Primitive ''a'', Primitive ''b''] \<and>
   collect_candidates example_externals (example_context []) Map.empty 0 =
     Inr ([String_object ''*''], Map.empty, 0) \<and>
   (\<exists>st' root'.
      expandTailwindAtRules example_externals (example_state [example_item ''html'' ''b a''])
        (example_only ''utilities'') = Inr (st', root') \<and>
      (build_context st')\<lparr>stylesheetCache := None\<rparr> =
        (generateRules example_externals [String_object ''*'', Primitive ''a'', Primitive ''b''] (example_context [example_item ''html'' ''b a'']))
          \<lparr>changedContent := [], stylesheetCache := None\<rparr> \<and>
      ruleCache (build_context st') = [(\<lparr>layer = ''base''\<rparr>, 0), (\<lparr>layer = ''utilities''\<rparr>, 1), (\<lparr>layer = ''utilities''\<rparr>, 2)] \<and>
      nodes root' = [Node (Rule ''.a'') (Some (example_source 1)) None [],
                     Node (Rule ''.b'') (Some (example_source 1)) None []])"
proof -
  from example_collect_b_a obtain ch where
    run: "collect_candidates example_externals (example_context [example_item ''html'' ''b a''])
          Map.empty 0 = Inr ([String_object ''*'', Primitive ''b'', Primitive ''a''], ch, 1)"
    by (rule exE)
  note t = candidates_sorted_union[of example_externals "example_context [example_item ''html'' ''b a'']" Map.empty 0
      "[String_object ''*'', Primitive ''b'', Primitive ''a'']" ch 1 "[Primitive ''a'', String_object ''*'', Primitive ''b'']"]
  from t[THEN conjunct1, rule_format, OF run] have 1: "distinct [String_object ''*'', Primitive ''b'', Primitive ''a'']"
    by (rule conjunct1)
  from t[THEN conjunct2, THEN conjunct1]
  have 2: "set (sortedCandidates [String_object ''*'', Primitive ''b'', Primitive ''a'']) = set [String_object ''*'', Primitive ''b'', Primitive ''a'']" .
  from t[THEN conjunct2, THEN conjunct2, THEN conjunct2, THEN conjunct1]
  have 3: "sorted (map raw (sortedCandidates [String_object ''*'', Primitive ''b'', Primitive ''a'']))" .
  from t[THEN conjunct2, THEN conjunct2, THEN conjunct2, THEN conjunct2, THEN conjunct1,
      rule_format, OF 1]
  have 4: "sortedCandidates [String_object ''*'', Primitive ''b'', Primitive ''a''] = sort_key raw [String_object ''*'', Primitive ''b'', Primitive ''a'']" .
  have p: "\<forall>c \<in> set [String_object ''*'', Primitive ''b'', Primitive ''a''].
      c = NOT_ON_DEMAND example_externals \<or> (\<exists>s. c = Primitive s)"
    by (simp add: NOT_ON_DEMAND_def example_externals_def)
  from t[THEN conjunct2, THEN conjunct2, THEN conjunct2, THEN conjunct2, THEN conjunct2,
      THEN conjunct2, THEN conjunct1, THEN mp, OF p]
  have 5: "inj_on raw (set [String_object ''*'', Primitive ''b'', Primitive ''a''])"
    by (simp add: NOT_ON_DEMAND_def example_externals_def)
  have e: "set [String_object ''*'', Primitive ''b'', Primitive ''a''] = set [Primitive ''a'', String_object ''*'', Primitive ''b'']" by auto
  from t[THEN conjunct2, THEN conjunct2, THEN conjunct2, THEN conjunct2, THEN conjunct2,
      THEN conjunct1, rule_format, OF 5 e]
  have 6: "sortedCandidates [String_object ''*'', Primitive ''b'', Primitive ''a''] = sortedCandidates [Primitive ''a'', String_object ''*'', Primitive ''b'']"
    by (rule conjunct1)
  have 7: "sortedCandidates [String_object ''*'', Primitive ''b'', Primitive ''a''] = [String_object ''*'', Primitive ''a'', Primitive ''b'']" by (rule example_sorted_b_a)
  have c: "changedContent (example_context []) = []"
      "context_candidates (example_context []) = None"
      "NOT_ON_DEMAND example_externals = String_object ''*''"
    by (simp_all add: example_context_def example_externals_def NOT_ON_DEMAND_def)
  note t' = candidates_sorted_union[of example_externals "example_context []" Map.empty 0]
  from t'[THEN conjunct2, THEN conjunct2, THEN conjunct2, THEN conjunct2, THEN conjunct2,
      THEN conjunct2, THEN conjunct2, THEN conjunct1] c
  have 8: "collect_candidates example_externals (example_context []) Map.empty 0 =
     Inr ([String_object ''*''], Map.empty, 0)"
    by simp
  from example_b_a_pass obtain ch' where
    pass: "expandTailwindAtRules example_externals (example_state [example_item ''html'' ''b a''])
     (example_only ''utilities'') =
   Inr (\<lparr>build_context = (example_context [])
            \<lparr>classCache := [(String_object ''*'', [(\<lparr>layer = ''base''\<rparr>, 0)]),
                            (Primitive ''a'', [(\<lparr>layer = ''utilities''\<rparr>, 1)]),
                            (Primitive ''b'', [(\<lparr>layer = ''utilities''\<rparr>, 2)])],
             ruleCache := [(\<lparr>layer = ''base''\<rparr>, 0), (\<lparr>layer = ''utilities''\<rparr>, 1), (\<lparr>layer = ''utilities''\<rparr>, 2)],
             stylesheetCache := Some example_partition,
             objects := (objects (example_context []))
               (0 := Node (Rule ''html'') None None [], 1 := Node (Rule ''.a'') None None [],
                2 := Node (Rule ''.b'') None None [])\<rparr>,
         extractor_caches = ch', functions_made = 1, warnings = []\<rparr>,
        example_root [Node (Rule ''.a'') (Some (example_source 1)) None [],
                      Node (Rule ''.b'') (Some (example_source 1)) None []])"
      (is "_ = Inr (?st', ?root')")
    by (rule exE)
  have m: "\<not> no_layerNodes (find_layerNodes (example_only ''utilities''))"
    by (simp add: example_only_layerNodes no_layerNodes_def layerNodes_keys_def)
  note t'' = candidates_sorted_union[of example_externals _ _ _ _ _ _ _ _
      "example_state [example_item ''html'' ''b a'']" "example_only ''utilities''" ?st' ?root']
  from t''[THEN conjunct2, THEN conjunct2, THEN conjunct2, THEN conjunct2, THEN conjunct2,
      THEN conjunct2, THEN conjunct2, THEN conjunct2, THEN conjunct2, rule_format, OF pass m]
  obtain cs ch2 k where
    c2: "collect_candidates example_externals (build_context (example_state [example_item ''html'' ''b a'']))
          (extractor_caches (example_state [example_item ''html'' ''b a''])) (functions_made (example_state [example_item ''html'' ''b a''])) =
         Inr (cs, ch2, k)"
    and g: "(build_context ?st')\<lparr>stylesheetCache := None\<rparr> =
           (generateRules example_externals (sortedCandidates cs)
              (build_context (example_state [example_item ''html'' ''b a''])))
             \<lparr>changedContent := [], stylesheetCache := None\<rparr>"
    by (elim exE conjE)
  from c2 run have cs: "cs = [String_object ''*'', Primitive ''b'', Primitive ''a'']" by (simp add: example_state_def)
  from g have g': "(build_context ?st')\<lparr>stylesheetCache := None\<rparr> =
        (generateRules example_externals [String_object ''*'', Primitive ''a'', Primitive ''b''] (example_context [example_item ''html'' ''b a'']))
          \<lparr>changedContent := [], stylesheetCache := None\<rparr>"
    unfolding cs 7 by (simp add: example_state_def)
  have r: "ruleCache (build_context ?st') = [(\<lparr>layer = ''base''\<rparr>, 0), (\<lparr>layer = ''utilities''\<rparr>, 1), (\<lparr>layer = ''utilities''\<rparr>, 2)]" by simp
  have n: "nodes ?root' = [Node (Rule ''.a'') (Some (example_source 1)) None [],
                     Node (Rule ''.b'') (Some (example_source 1)) None []]"
    by (simp add: example_root_def)
  from pass g' r n have 9: "\<exists>st' root'.
      expandTailwindAtRules example_externals (example_state [example_item ''html'' ''b a''])
        (example_only ''utilities'') = Inr (st', root') \<and>
      (build_context st')\<lparr>stylesheetCache := None\<rparr> =
        (generateRules example_externals [String_object ''*'', Primitive ''a'', Primitive ''b''] (example_context [example_item ''html'' ''b a'']))
          \<lparr>changedContent := [], stylesheetCache := None\<rparr> \<and>
      ruleCache (build_context st') = [(\<lparr>layer = ''base''\<rparr>, 0), (\<lparr>layer = ''utilities''\<rparr>, 1), (\<lparr>layer = ''utilities''\<rparr>, 2)] \<and>
      nodes root' = [Node (Rule ''.a'') (Some (example_source 1)) None [],
                     Node (Rule ''.b'') (Some (example_source 1)) None []]"
    by (intro exI[of _ ?st'] exI[of _ ?root'] conjI)
  from run have 0: "\<exists>ch. collect_candidates example_externals
      (example_context [example_item ''html'' ''b a'']) Map.empty 0 = Inr ([String_object ''*'', Primitive ''b'', Primitive ''a''], ch, 1)"
    by (rule exI[of _ ch])
  from 0 1 2 3 4 5 6 7 8 9 show ?thesis by (intro conjI)
qed

text \<open>
  Claim C4 as stated fails where it takes the sequence for a function of the candidate
  set alone, sorted and deduplicated over the token strings: the sentinel is a String
  object, so the primitive string \<open>*\<close> is a candidate beside it. When \<open>*\<close> is found in
  the content it joins the set after the sentinel, and when the context had it already
  it stands before the sentinel; the set is the same, the comparator puts neither of
  the two before the other, and rule generation receives them in the one order and in
  the other.
\<close>

theorem sentinel_order_counterexample:
  "map_sum id fst
     (collect_candidates example_externals (example_context [example_item ''html'' ''*''])
        Map.empty 0) = Inr [String_object ''*'', Primitive ''*''] \<and>
   map_sum id fst
     (collect_candidates example_externals
        ((example_context [])\<lparr>context_candidates := Some [Primitive ''*'']\<rparr>) Map.empty 0) =
     Inr [Primitive ''*'', String_object ''*''] \<and>
   set [String_object ''*'', Primitive ''*''] = set [Primitive ''*'', String_object ''*''] \<and>
   sortedCandidates [String_object ''*'', Primitive ''*''] =
     [String_object ''*'', Primitive ''*''] \<and>
   sortedCandidates [Primitive ''*'', String_object ''*''] =
     [Primitive ''*'', String_object ''*''] \<and>
   sortedCandidates [String_object ''*'', Primitive ''*''] \<noteq>
     sortedCandidates [Primitive ''*'', String_object ''*'']"
proof -
  have "set [String_object ''*'', Primitive ''*''] = set [Primitive ''*'', String_object ''*'']"
    by auto
  moreover have "sortedCandidates [String_object ''*'', Primitive ''*''] \<noteq>
     sortedCandidates [Primitive ''*'', String_object ''*'']"
    by (simp add: example_sorted_star)
  ultimately show ?thesis
    by (simp only: example_collect_star example_collect_earlier_star example_sorted_star
          simp_thms)
qed

section \<open>Line-memoized extraction: what one call does\<close>

lemma LRU_has_get: "LRU_has lru k \<Longrightarrow> \<exists>ms lru'. LRU_get lru k = (Some ms, lru')"
  by (auto simp: LRU_has_def LRU_get_def split: option.splits)

lemma LRU_has_set: "LRU_has (LRU_set lru k v) k"
  by (simp add: LRU_has_def LRU_set_def LRU_set_young_def Let_def)

lemma LRU_get_set: "fst (LRU_get (LRU_set lru k v) k) = Some v"
  by (simp add: LRU_get_def LRU_set_def LRU_set_young_def Let_def)

lemma getClassCandidates_line_seen:
  "trim l \<in> set s \<Longrightarrow> getClassCandidates_line e l (c, s, ch) = Inr (c, s, ch)"
  by (simp add: getClassCandidates_line_def Let_def)

lemma getClassCandidates_line_hit:
  assumes "trim l \<notin> set s" "ch (fn_id e) = Some lru" "LRU_has lru (trim l)"
  shows "\<exists>ms lru'. LRU_get lru (trim l) = (Some ms, lru') \<and>
     getClassCandidates_line e l (c, s, ch) =
       Inr (Set_addAll c (map Primitive ms), Set_add s (trim l), ch(fn_id e \<mapsto> lru'))"
proof -
  from LRU_has_get[OF assms(3)] obtain ms lru' where
    g: "LRU_get lru (trim l) = (Some ms, lru')" by blast
  with assms have "getClassCandidates_line e l (c, s, ch) =
       Inr (Set_addAll c (map Primitive ms), Set_add s (trim l), ch(fn_id e \<mapsto> lru'))"
    by (simp add: getClassCandidates_line_def Let_def)
  with g show ?thesis by blast
qed

lemma getClassCandidates_line_miss:
  assumes "trim l \<notin> set s" "ch (fn_id e) = Some lru" "\<not> LRU_has lru (trim l)"
    "call e (trim l) = Inr res"
  shows "getClassCandidates_line e l (c, s, ch) =
       Inr (Set_addAll c (map Primitive (new_Set (filter (\<lambda>s. s \<noteq> ''!*'') res))),
            Set_add s (trim l),
            ch(fn_id e \<mapsto> LRU_set lru (trim l) (new_Set (filter (\<lambda>s. s \<noteq> ''!*'') res))))"
  using assms by (simp add: getClassCandidates_line_def Let_def)

lemma getClassCandidates_line_seen_grows:
  "getClassCandidates_line e l (c, s, ch) = Inr (c', s', ch') \<Longrightarrow>
   set s' = insert (trim l) (set s)"
  by (auto simp: getClassCandidates_line_def Let_def set_Set_add
           split: if_splits option.splits sum.splits prod.splits)

lemma getClassCandidates_lines_seen_grows:
  "getClassCandidates_lines e ls (c, s, ch) = Inr (c', s', ch') \<Longrightarrow>
   set s' = set s \<union> trim ` set ls"
proof (induction ls arbitrary: c s ch)
  case Nil
  then show ?case by simp
next
  case (Cons l ls)
  from Cons.prems obtain c1 s1 ch1 where
    1: "getClassCandidates_line e l (c, s, ch) = Inr (c1, s1, ch1)"
    and 2: "getClassCandidates_lines e ls (c1, s1, ch1) = Inr (c', s', ch')"
    by (auto split: sum.splits)
  from Cons.IH[OF 2] getClassCandidates_line_seen_grows[OF 1] show ?case by auto
qed

lemma getClassCandidates_lines_all_seen:
  "trim ` set ls \<subseteq> set s \<Longrightarrow> getClassCandidates_lines e ls (c, s, ch) = Inr (c, s, ch)"
  by (induction ls) (simp_all add: getClassCandidates_line_seen)

lemma getClassCandidates_seen_grows:
  "getClassCandidates content e c s ch = Inr (c', s', ch') \<Longrightarrow>
   set s' = set s \<union> trim ` set (split_lines content)"
  unfolding getClassCandidates_def Let_def by (rule getClassCandidates_lines_seen_grows)

lemma getClassCandidates_all_seen:
  "trim ` set (split_lines content) \<subseteq> set s \<Longrightarrow>
   \<exists>ch'. getClassCandidates content e c s ch = Inr (c, s, ch')"
  unfolding getClassCandidates_def Let_def
  by (simp add: getClassCandidates_lines_all_seen)

lemma getClassCandidates_lines_skip:
  "set s \<subseteq> set s' \<Longrightarrow>
   getClassCandidates_lines e (filter (\<lambda>l. trim l \<notin> set s) ls) (c, s', ch) =
     getClassCandidates_lines e ls (c, s', ch)"
proof (induction ls arbitrary: c s' ch)
  case Nil
  then show ?case by simp
next
  case (Cons l ls)
  show ?case
  proof (cases "trim l \<in> set s")
    case True
    with Cons.prems have "trim l \<in> set s'" by auto
    with True Cons.IH[OF Cons.prems] show ?thesis
      by (simp add: getClassCandidates_line_seen)
  next
    case False
    show ?thesis
    proof (cases "getClassCandidates_line e l (c, s', ch)")
      case (Inl err)
      with False show ?thesis by simp
    next
      case (Inr st1)
      obtain c1 s1 ch1 where st1: "st1 = (c1, s1, ch1)" by (cases st1)
      from Inr st1 have "set s1 = insert (trim l) (set s')"
        by (simp add: getClassCandidates_line_seen_grows)
      with Cons.prems have "set s \<subseteq> set s1" by auto
      from Cons.IH[OF this] False Inr st1 show ?thesis by simp
    qed
  qed
qed

lemma scan_entry_lines:
  assumes "read_content ext item = Inr content" "transformer_call t content = Inr transformed"
  shows "scan_entry ext (item, t, x) (c, s, ch) =
     getClassCandidates_lines x (filter (\<lambda>l. trim l \<notin> set s) (split_lines transformed))
       (c, s, if ch (fn_id x) = None then ch(fn_id x \<mapsto> new_LRU 25000) else ch)"
  using assms
  by (simp add: scan_entry_def getClassCandidates_def Let_def getClassCandidates_lines_skip)

lemma scan_entry_seen:
  assumes "scan_entry ext entry (c, s, ch) = Inr (c', s', ch')"
  shows "set s' = set s \<union> entry_lines ext entry"
proof -
  obtain item t x where entry: "entry = (item, t, x)" by (cases entry)
  from assms obtain content transformed where
    1: "read_content ext item = Inr content"
    and 2: "transformer_call t content = Inr transformed"
    and 3: "getClassCandidates transformed x c s ch = Inr (c', s', ch')"
    by (auto simp: scan_entry_def entry split: sum.splits)
  from getClassCandidates_seen_grows[OF 3] 1 2 show ?thesis
    by (simp add: entry_lines_def entry)
qed

lemma scan_entries_seen:
  "scan_entries ext es (c, s, ch) = Inr (c', s', ch') \<Longrightarrow>
   set s' = set s \<union> (\<Union>entry \<in> set es. entry_lines ext entry)"
proof (induction es arbitrary: c s ch)
  case Nil
  then show ?case by simp
next
  case (Cons entry es)
  from Cons.prems obtain c1 s1 ch1 where
    1: "scan_entry ext entry (c, s, ch) = Inr (c1, s1, ch1)"
    and 2: "scan_entries ext es (c1, s1, ch1) = Inr (c', s', ch')"
    by (auto split: sum.splits)
  from Cons.IH[OF 2] scan_entry_seen[OF 1] show ?case by auto
qed

lemma scan_entry_all_seen:
  assumes "read_content ext item = Inr content" "transformer_call t content = Inr transformed"
    and "trim ` set (split_lines transformed) \<subseteq> set s"
  shows "\<exists>ch2. scan_entry ext (item, t, x) (c, s, ch) = Inr (c, s, ch2)"
  using getClassCandidates_all_seen[OF assms(3), of x c ch] assms(1,2)
  by (simp add: scan_entry_def)

lemma scan_entries_then_entry:
  assumes "scan_entries ext es1 (c, s, ch) = Inr (c1, s1, ch1)"
    and "read_content ext item = Inr content" "transformer_call t content = Inr transformed"
  shows "scan_entries ext (es1 @ [(item, t, x)]) (c, s, ch) =
     getClassCandidates_lines x
       (filter (\<lambda>l. trim l \<notin> set s \<and> (\<forall>entry \<in> set es1. trim l \<notin> entry_lines ext entry))
          (split_lines transformed))
       (c1, s1, if ch1 (fn_id x) = None then ch1(fn_id x \<mapsto> new_LRU 25000) else ch1)"
proof -
  from scan_entries_seen[OF assms(1)]
  have "(\<lambda>l. trim l \<notin> set s1) =
      (\<lambda>l. trim l \<notin> set s \<and> (\<forall>entry \<in> set es1. trim l \<notin> entry_lines ext entry))"
    by auto
  with scan_entry_lines[OF assms(2,3), of x c1 s1 ch1] assms(1) show ?thesis
    by (simp add: scan_entries_append split: sum.splits)
qed

lemma collect_candidates_scan:
  assumes "collect_candidates ext context ch n = Inr (cands, caches', n')"
  shows "\<exists>c0 seen'.
      scan_entries ext (scan_sequence ext (regexParserContent (route ext context n)) 0)
        (c0, [], ch) = Inr (cands, seen', caches') \<and>
      set seen' = (\<Union>entry \<in> set (regexParserContent (route ext context n)).
                     entry_lines ext entry)"
proof -
  let ?es = "regexParserContent (route ext context n)"
  from assms obtain c0 seen' where
    scan: "scan_batches ext ?es 0 (c0, [], ch) = Inr (cands, seen', caches')"
    unfolding collect_candidates_def Let_def
    by (auto split: sum.splits if_splits prod.splits)
  then have e: "scan_entries ext (scan_sequence ext ?es 0) (c0, [], ch) =
      Inr (cands, seen', caches')"
    by (simp add: scan_batches_sequence)
  have "mset (scan_sequence ext ?es 0) = mset ?es"
    by (simp add: mset_scan_sequence)
  then have "set (scan_sequence ext ?es 0) = set ?es"
    by (rule mset_eq_setD)
  with scan_entries_seen[OF e] have "set seen' = (\<Union>entry \<in> set ?es. entry_lines ext entry)"
    by simp
  with e show ?thesis by blast
qed

text \<open>
  Claim C5, as amended. \<open>getClassCandidates\<close> makes the extractor's cache when the
  WeakMap has none, splits the content into lines and handles each trimmed line: a
  line in \<open>seen\<close> is skipped entirely (the call does what it would do on the content
  without such lines); otherwise it joins \<open>seen\<close>, and on a cache hit the cached
  tokens are added to the candidates, while on a miss the extractor runs, the token
  \<open>!*\<close> is dropped, and the resulting set goes to the candidates and into the cache,
  where the next lookup finds it.

  The \<open>seen\<close> set is not local to one call: a pass makes it once, empty, and every
  scan of the pass is given it as the scan before left it. The entries of a pass are
  scanned one after the other, each once, batch by batch: in a batch first the entries
  without a file in the order of the batch, then those with a file in the order in
  which their reads complete. When an entry is scanned, \<open>seen\<close> holds the trimmed
  lines of all the entries scanned before it in the pass, so a trimmed line that two
  content items share is extracted for the one that is scanned first and skipped for
  the other, whatever its extractor; an entry all of whose lines were seen adds no
  candidate.
\<close>

theorem getClassCandidates_memoized:
  "getClassCandidates content e c s ch =
     getClassCandidates_lines e (split_lines content)
       (c, s, if ch (fn_id e) = None then ch(fn_id e \<mapsto> new_LRU 25000) else ch) \<and>
   (trim l \<in> set s \<longrightarrow> getClassCandidates_line e l (c, s, ch) = Inr (c, s, ch)) \<and>
   (trim l \<notin> set s \<longrightarrow> ch (fn_id e) = Some lru \<longrightarrow> LRU_has lru (trim l) \<longrightarrow>
      (\<exists>ms lru'. LRU_get lru (trim l) = (Some ms, lru') \<and>
         getClassCandidates_line e l (c, s, ch) =
           Inr (Set_addAll c (map Primitive ms), Set_add s (trim l),
                ch(fn_id e \<mapsto> lru')))) \<and>
   (trim l \<notin> set s \<longrightarrow> ch (fn_id e) = Some lru \<longrightarrow> \<not> LRU_has lru (trim l) \<longrightarrow>
    call e (trim l) = Inr res \<longrightarrow>
      getClassCandidates_line e l (c, s, ch) =
        Inr (Set_addAll c (map Primitive (new_Set (filter (\<lambda>s. s \<noteq> ''!*'') res))),
             Set_add s (trim l),
             ch(fn_id e \<mapsto> LRU_set lru (trim l) (new_Set (filter (\<lambda>s. s \<noteq> ''!*'') res)))) \<and>
      set (new_Set (filter (\<lambda>s. s \<noteq> ''!*'') res)) = set res - {''!*''} \<and>
      LRU_has (LRU_set lru (trim l) (new_Set (filter (\<lambda>s. s \<noteq> ''!*'') res))) (trim l) \<and>
      fst (LRU_get (LRU_set lru (trim l) (new_Set (filter (\<lambda>s. s \<noteq> ''!*'') res))) (trim l)) =
        Some (new_Set (filter (\<lambda>s. s \<noteq> ''!*'') res))) \<and>
   getClassCandidates_lines e ls (c, s, ch) =
     getClassCandidates_lines e (filter (\<lambda>l. trim l \<notin> set s) ls) (c, s, ch) \<and>
   (getClassCandidates content e c s ch = Inr (c', s', ch') \<longrightarrow>
      set s' = set s \<union> trim ` set (split_lines content)) \<and>
   (collect_candidates ext context ch n = Inr (cands, caches', n') \<longrightarrow>
      (\<exists>c0 seen'.
         scan_entries ext (scan_sequence ext (regexParserContent (route ext context n)) 0)
           (c0, [], ch) = Inr (cands, seen', caches') \<and>
         set seen' = (\<Union>entry \<in> set (regexParserContent (route ext context n)).
                        entry_lines ext entry))) \<and>
   mset (scan_sequence ext entries 0) = mset entries \<and>
   mset (scan_order ext i batch) = mset batch \<and>
   (\<exists>started.
      scan_order ext i batch =
        filter (\<lambda>entry. \<not> names_file entry) batch @ map snd started \<and>
      mset started =
        mset (filter (\<lambda>(k, entry). names_file entry) (zip [i ..< i + length batch] batch)) \<and>
      sorted (map (\<lambda>(k, entry). readTime ext k) started)) \<and>
   ((\<forall>entry \<in> set batch. \<not> names_file entry) \<longrightarrow> scan_order ext i batch = batch) \<and>
   scan_entries ext (es1 @ es2) st =
     (case scan_entries ext es1 st of
        Inl err \<Rightarrow> Inl err
      | Inr st1 \<Rightarrow> scan_entries ext es2 st1) \<and>
   (scan_entries ext es1 (c, s, ch) = Inr (c1, s1, ch1) \<longrightarrow>
      set s1 = set s \<union> (\<Union>entry \<in> set es1. entry_lines ext entry)) \<and>
   (scan_entries ext es1 (c, s, ch) = Inr (c1, s1, ch1) \<longrightarrow>
    read_content ext item = Inr content \<longrightarrow> transformer_call t content = Inr transformed \<longrightarrow>
      scan_entries ext (es1 @ [(item, t, x)]) (c, s, ch) =
        getClassCandidates_lines x
          (filter (\<lambda>l. trim l \<notin> set s \<and>
                       (\<forall>entry \<in> set es1. trim l \<notin> entry_lines ext entry))
             (split_lines transformed))
          (c1, s1, if ch1 (fn_id x) = None then ch1(fn_id x \<mapsto> new_LRU 25000) else ch1)) \<and>
   (read_content ext item = Inr content \<longrightarrow> transformer_call t content = Inr transformed \<longrightarrow>
      scan_entry ext (item, t, x) (c, s, ch) =
        getClassCandidates_lines x
          (filter (\<lambda>l. trim l \<notin> set s) (split_lines transformed))
          (c, s, if ch (fn_id x) = None then ch(fn_id x \<mapsto> new_LRU 25000) else ch) \<and>
      (trim ` set (split_lines transformed) \<subseteq> set s \<longrightarrow>
         (\<exists>ch2. scan_entry ext (item, t, x) (c, s, ch) = Inr (c, s, ch2))))"
proof (intro conjI impI)
  show "getClassCandidates content e c s ch =
     getClassCandidates_lines e (split_lines content)
       (c, s, if ch (fn_id e) = None then ch(fn_id e \<mapsto> new_LRU 25000) else ch)"
    by (simp add: getClassCandidates_def Let_def)
next
  assume "trim l \<in> set s"
  then show "getClassCandidates_line e l (c, s, ch) = Inr (c, s, ch)"
    by (rule getClassCandidates_line_seen)
next
  assume "trim l \<notin> set s" "ch (fn_id e) = Some lru" "LRU_has lru (trim l)"
  then show "\<exists>ms lru'. LRU_get lru (trim l) = (Some ms, lru') \<and>
         getClassCandidates_line e l (c, s, ch) =
           Inr (Set_addAll c (map Primitive ms), Set_add s (trim l),
                ch(fn_id e \<mapsto> lru'))"
    by (rule getClassCandidates_line_hit)
next
  assume "trim l \<notin> set s" "ch (fn_id e) = Some lru" "\<not> LRU_has lru (trim l)"
    "call e (trim l) = Inr res"
  then show "getClassCandidates_line e l (c, s, ch) =
        Inr (Set_addAll c (map Primitive (new_Set (filter (\<lambda>s. s \<noteq> ''!*'') res))),
             Set_add s (trim l),
             ch(fn_id e \<mapsto> LRU_set lru (trim l) (new_Set (filter (\<lambda>s. s \<noteq> ''!*'') res))))"
    by (rule getClassCandidates_line_miss)
next
  show "set (new_Set (filter (\<lambda>s. s \<noteq> ''!*'') res)) = set res - {''!*''}"
    by (auto simp: set_new_Set)
  show "LRU_has (LRU_set lru (trim l) (new_Set (filter (\<lambda>s. s \<noteq> ''!*'') res))) (trim l)"
    by (rule LRU_has_set)
  show "fst (LRU_get (LRU_set lru (trim l) (new_Set (filter (\<lambda>s. s \<noteq> ''!*'') res))) (trim l)) =
        Some (new_Set (filter (\<lambda>s. s \<noteq> ''!*'') res))"
    by (rule LRU_get_set)
next
  show "getClassCandidates_lines e ls (c, s, ch) =
     getClassCandidates_lines e (filter (\<lambda>l. trim l \<notin> set s) ls) (c, s, ch)"
    by (rule getClassCandidates_lines_skip[symmetric]) simp
next
  assume "getClassCandidates content e c s ch = Inr (c', s', ch')"
  then show "set s' = set s \<union> trim ` set (split_lines content)"
    by (rule getClassCandidates_seen_grows)
next
  assume "collect_candidates ext context ch n = Inr (cands, caches', n')"
  then show "\<exists>c0 seen'.
         scan_entries ext (scan_sequence ext (regexParserContent (route ext context n)) 0)
           (c0, [], ch) = Inr (cands, seen', caches') \<and>
         set seen' = (\<Union>entry \<in> set (regexParserContent (route ext context n)).
                        entry_lines ext entry)"
    by (rule collect_candidates_scan)
next
  show "mset (scan_sequence ext entries 0) = mset entries"
    by (simp add: mset_scan_sequence)
  show "mset (scan_order ext i batch) = mset batch"
    by (rule mset_scan_order)
  show "\<exists>started.
      scan_order ext i batch =
        filter (\<lambda>entry. \<not> names_file entry) batch @ map snd started \<and>
      mset started =
        mset (filter (\<lambda>(k, entry). names_file entry) (zip [i ..< i + length batch] batch)) \<and>
      sorted (map (\<lambda>(k, entry). readTime ext k) started)"
    by (rule scan_order_parts)
next
  assume "\<forall>entry \<in> set batch. \<not> names_file entry"
  then show "scan_order ext i batch = batch"
    by (rule scan_order_no_file)
next
  show "scan_entries ext (es1 @ es2) st =
     (case scan_entries ext es1 st of
        Inl err \<Rightarrow> Inl err
      | Inr st1 \<Rightarrow> scan_entries ext es2 st1)"
    by (rule scan_entries_append)
next
  assume "scan_entries ext es1 (c, s, ch) = Inr (c1, s1, ch1)"
  then show "set s1 = set s \<union> (\<Union>entry \<in> set es1. entry_lines ext entry)"
    by (rule scan_entries_seen)
next
  assume "scan_entries ext es1 (c, s, ch) = Inr (c1, s1, ch1)"
    "read_content ext item = Inr content" "transformer_call t content = Inr transformed"
  then show "scan_entries ext (es1 @ [(item, t, x)]) (c, s, ch) =
        getClassCandidates_lines x
          (filter (\<lambda>l. trim l \<notin> set s \<and>
                       (\<forall>entry \<in> set es1. trim l \<notin> entry_lines ext entry))
             (split_lines transformed))
          (c1, s1, if ch1 (fn_id x) = None then ch1(fn_id x \<mapsto> new_LRU 25000) else ch1)"
    by (rule scan_entries_then_entry)
next
  assume "read_content ext item = Inr content" "transformer_call t content = Inr transformed"
  then show "scan_entry ext (item, t, x) (c, s, ch) =
        getClassCandidates_lines x
          (filter (\<lambda>l. trim l \<notin> set s) (split_lines transformed))
          (c, s, if ch (fn_id x) = None then ch(fn_id x \<mapsto> new_LRU 25000) else ch)"
    by (rule scan_entry_lines)
next
  assume "read_content ext item = Inr content" "transformer_call t content = Inr transformed"
    "trim ` set (split_lines transformed) \<subseteq> set s"
  then show "\<exists>ch2. scan_entry ext (item, t, x) (c, s, ch) = Inr (c, s, ch2)"
    by (rule scan_entry_all_seen)
qed

lemma example_page_lines:
  "split_lines ''  a b  \<newline>q'' = [''  a b  '', ''q'']"
  "split_lines ''a b\<newline> zz\<newline>yy '' = [''a b'', '' zz'', ''yy '']"
  "trim ''  a b  '' = ''a b''" "trim ''q'' = ''q''" "trim ''a b'' = ''a b''"
  "trim '' zz'' = ''zz''" "trim ''yy '' = ''yy''"
  by (simp_all add: trim_def is_space_def)

lemma example_lru_zz:
  "LRU_has example_lru ''zz''" "LRU_get example_lru ''zz'' = (Some [''cached''], example_lru)"
  "\<not> LRU_has example_lru ''yy''"
  by (simp_all add: LRU_has_def LRU_get_def example_lru_def)

lemma example_scan_page:
  "\<exists>ch. getClassCandidates ''  a b  \<newline>q''
     \<lparr>fn_id = DefaultExtractorResult 0, call = (\<lambda>line. Inr (example_words [] line)),
      DEFAULT_EXTRACTOR = True\<rparr> [String_object ''*''] [] example_cached =
     Inr ([String_object ''*'', Primitive ''a'', Primitive ''b'', Primitive ''q''],
          [''a b'', ''q''], ch) \<and> ch (ConfigFn 0) = Some example_lru"
  by (simp add: getClassCandidates_def getClassCandidates_line_def Let_def example_page_lines
        new_LRU_def LRU_has_def LRU_set_def LRU_set_young_def
        new_Set_def Set_addAll_def Set_add_def example_cached_def)

lemma example_scan_script:
  assumes "ch (ConfigFn 0) = Some example_lru"
  shows "\<exists>ch'. getClassCandidates ''a b\<newline> zz\<newline>yy '' example_extractor
     [String_object ''*'', Primitive ''a'', Primitive ''b'', Primitive ''q'']
     [''a b'', ''q''] ch =
     Inr ([String_object ''*'', Primitive ''a'', Primitive ''b'', Primitive ''q'',
           Primitive ''cached'', Primitive ''yy''],
          [''a b'', ''q'', ''zz'', ''yy''], ch')"
  using assms
  by (simp add: getClassCandidates_def getClassCandidates_line_def Let_def example_page_lines
        example_lru_zz LRU_has_def LRU_get_def LRU_set_def LRU_set_young_def example_lru_def
        new_Set_def Set_addAll_def Set_add_def example_extractor_def)


lemma example_route_html_js:
  "route example_externals
     (example_context [example_item ''html'' co, example_item ''js'' co']) 0 =
     \<lparr>rustParserContent = [],
      regexParserContent =
        [(example_item ''html'' co, builtIn_DEFAULT,
          \<lparr>fn_id = DefaultExtractorResult 0,
            call = defaultExtractor example_externals
                     (example_context [example_item ''html'' co, example_item ''js'' co']),
            DEFAULT_EXTRACTOR = True\<rparr>),
         (example_item ''js'' co', builtIn_DEFAULT, example_extractor)],
      made = 1\<rparr>"
  by (simp add: route_def route_item_def getTransformer_def getExtractor_def example_context_def
        example_config_def example_item_def builtInTransformers_def builtInExtractors_def
        or_else_def Let_def example_externals_def example_extractor_def)

lemma example_route_js:
  "route example_externals (example_context [example_item ''js'' co]) 0 =
     \<lparr>rustParserContent = [],
      regexParserContent = [(example_item ''js'' co, builtIn_DEFAULT, example_extractor)],
      made = 0\<rparr>"
  by (simp add: route_def route_item_def getTransformer_def getExtractor_def example_context_def
        example_config_def example_item_def builtInTransformers_def builtInExtractors_def
        or_else_def Let_def example_externals_def example_extractor_def)

lemma example_scan_two:
  assumes "getClassCandidates co e c [] ch = Inr (c1, s1, ch1)"
    and "getClassCandidates co' e' c1 s1 ch1 = Inr (c2, s2, ch2)"
  shows "scan_batches example_externals
      [(example_item ex co, builtIn_DEFAULT, e), (example_item ex' co', builtIn_DEFAULT, e')] 0
      (c, [], ch) = Inr (c2, s2, ch2)"
proof -
  have "scan_batches example_externals
      [(example_item ex co, builtIn_DEFAULT, e), (example_item ex' co', builtIn_DEFAULT, e')] 0
      (c, [], ch) =
    scan_entries example_externals
      [(example_item ex co, builtIn_DEFAULT, e), (example_item ex' co', builtIn_DEFAULT, e')]
      (c, [], ch)"
    by (rule scan_batches_no_file) (simp_all add: BATCH_SIZE_def example_names_file)
  with assms show ?thesis
    by (simp add: scan_entry_def example_read_content)
qed

lemma example_collect_two:
  assumes "getClassCandidates co \<lparr>fn_id = DefaultExtractorResult 0, call = (\<lambda>line. Inr (example_words [] line)),
        DEFAULT_EXTRACTOR = True\<rparr> [String_object ''*''] [] ch = Inr (c1, s1, ch1)"
    and "getClassCandidates co' example_extractor c1 s1 ch1 = Inr (c2, s2, ch2)"
  shows "collect_candidates example_externals
        (example_context [example_item ''html'' co, example_item ''js'' co']) ch 0 =
      Inr (c2, ch2, 1)"
proof -
  have d: "defaultExtractor example_externals c = (\<lambda>line. Inr (example_words [] line))" for c
    by (simp add: example_externals_def)
  show ?thesis
    apply (simp only: collect_candidates_def Let_def example_route_html_js
        example_initial_candidates)
    apply (simp only: d)
    apply (simp add: example_scan_two[OF assms])
    done
qed

lemma example_collect_page_script:
  "\<exists>ch'. collect_candidates example_externals (example_context [example_page, example_script])
      example_cached 0 =
     Inr ([String_object ''*'', Primitive ''a'', Primitive ''b'', Primitive ''q'',
           Primitive ''cached'', Primitive ''yy''], ch', 1)"
proof -
  from example_scan_page obtain ch1 where
    1: "getClassCandidates ''  a b  \<newline>q'' \<lparr>fn_id = DefaultExtractorResult 0, call = (\<lambda>line. Inr (example_words [] line)),
        DEFAULT_EXTRACTOR = True\<rparr> [String_object ''*''] [] example_cached =
     Inr ([String_object ''*'', Primitive ''a'', Primitive ''b'', Primitive ''q''], [''a b'', ''q''], ch1)"
    and c: "ch1 (ConfigFn 0) = Some example_lru"
    by (elim exE conjE)
  from example_scan_script[of ch1, OF c] obtain ch2 where
    2: "getClassCandidates ''a b\<newline> zz\<newline>yy '' example_extractor
     [String_object ''*'', Primitive ''a'', Primitive ''b'', Primitive ''q''] [''a b'', ''q''] ch1 =
     Inr ([String_object ''*'', Primitive ''a'', Primitive ''b'', Primitive ''q'',
           Primitive ''cached'', Primitive ''yy''], [''a b'', ''q'', ''zz'', ''yy''], ch2)"
    by (rule exE)
  from example_collect_two[OF 1 2] show ?thesis
    unfolding example_page_def example_script_def by (rule exI[of _ ch2])
qed

lemma example_entry_lines:
  "entry_lines example_externals (example_item ex co, builtIn_DEFAULT, x) =
     trim ` set (split_lines co)"
  by (simp add: entry_lines_def example_read_content)

lemma example_scan_order_late:
  "scan_order example_late 0
     [(example_file ''a.js'', builtIn_DEFAULT, example_extractor),
      (example_file ''b.js'', builtIn_svelte, example_extractor),
      (example_item ''js'' ''c'', builtIn_DEFAULT, example_extractor)] =
     [(example_item ''js'' ''c'', builtIn_DEFAULT, example_extractor),
      (example_file ''b.js'', builtIn_svelte, example_extractor),
      (example_file ''a.js'', builtIn_DEFAULT, example_extractor)]"
  by (simp add: scan_order_def Let_def names_file_def example_file_def example_item_def
        example_late_def example_externals_def upt_rec)

theorem getClassCandidates_memoized_witness:
  "getClassCandidates_line example_extractor ''  a b  '' ([String_object ''*''], [''a b''], example_cached) =
     Inr ([String_object ''*''], [''a b''], example_cached) \<and>
   getClassCandidates_line example_extractor '' zz'' ([String_object ''*''], [''a b''], example_cached) =
     Inr ([String_object ''*'', Primitive ''cached''], [''a b'', ''zz''],
          example_cached(ConfigFn 0 \<mapsto> example_lru)) \<and>
   getClassCandidates_line example_extractor ''yy '' ([String_object ''*''], [''a b''], example_cached) =
     Inr ([String_object ''*'', Primitive ''yy''], [''a b'', ''yy''],
          example_cached(ConfigFn 0 \<mapsto> LRU_set example_lru ''yy'' [''yy''])) \<and>
   call example_extractor ''yy'' = Inr [''!*'', ''yy''] \<and>
   fst (LRU_get (LRU_set example_lru ''yy'' [''yy'']) ''yy'') = Some [''yy''] \<and>
   (\<exists>ch'. collect_candidates example_externals (example_context [example_page, example_script]) example_cached 0 =
      Inr ([String_object ''*'', Primitive ''a'', Primitive ''b'', Primitive ''q'',
         Primitive ''cached'', Primitive ''yy''], ch', 1)) \<and>
   (\<exists>c0 seen' ch'.
      scan_entries example_externals
        (scan_sequence example_externals
           (regexParserContent (route example_externals (example_context [example_page, example_script]) 0)) 0)
        (c0, [], example_cached) =
        Inr ([String_object ''*'', Primitive ''a'', Primitive ''b'', Primitive ''q'',
         Primitive ''cached'', Primitive ''yy''], seen', ch') \<and>
      set seen' = {''a b'', ''q'', ''zz'', ''yy''}) \<and>
   scan_entry example_externals (example_script, builtIn_DEFAULT, example_extractor)
     ([String_object ''*'', Primitive ''a'', Primitive ''b'', Primitive ''q''], [''a b'', ''q''], example_cached) =
     getClassCandidates_lines example_extractor ['' zz'', ''yy '']
       ([String_object ''*'', Primitive ''a'', Primitive ''b'', Primitive ''q''], [''a b'', ''q''], example_cached) \<and>
   (\<exists>ch2. scan_entry example_externals
      (example_item ''js'' ''a b\<newline>q'', builtIn_DEFAULT, example_extractor)
      ([String_object ''*'', Primitive ''a'', Primitive ''b'', Primitive ''q''], [''a b'', ''q''], example_cached) =
      Inr ([String_object ''*'', Primitive ''a'', Primitive ''b'', Primitive ''q''], [''a b'', ''q''], ch2)) \<and>
   (\<exists>ch1.
      scan_entries example_externals [(example_page, builtIn_DEFAULT, \<lparr>fn_id = DefaultExtractorResult 0, call = (\<lambda>line. Inr (example_words [] line)),
        DEFAULT_EXTRACTOR = True\<rparr>)]
        ([String_object ''*''], [], example_cached) = Inr ([String_object ''*'', Primitive ''a'', Primitive ''b'', Primitive ''q''], [''a b'', ''q''], ch1) \<and>
      scan_entries example_externals
        ([(example_page, builtIn_DEFAULT, \<lparr>fn_id = DefaultExtractorResult 0, call = (\<lambda>line. Inr (example_words [] line)),
        DEFAULT_EXTRACTOR = True\<rparr>)] @
         [(example_script, builtIn_DEFAULT, example_extractor)])
        ([String_object ''*''], [], example_cached) =
        getClassCandidates_lines example_extractor ['' zz'', ''yy '']
          ([String_object ''*'', Primitive ''a'', Primitive ''b'', Primitive ''q''], [''a b'', ''q''], ch1)) \<and>
   scan_order example_late 0
     [(example_file ''a.js'', builtIn_DEFAULT, example_extractor),
      (example_file ''b.js'', builtIn_svelte, example_extractor),
      (example_item ''js'' ''c'', builtIn_DEFAULT, example_extractor)] =
     [(example_item ''js'' ''c'', builtIn_DEFAULT, example_extractor),
      (example_file ''b.js'', builtIn_svelte, example_extractor),
      (example_file ''a.js'', builtIn_DEFAULT, example_extractor)]"
proof -
  have f: "fn_id example_extractor = ConfigFn 0" "example_cached (ConfigFn 0) = Some example_lru"
      "call example_extractor ''yy'' = Inr [''!*'', ''yy'']"
    by (simp_all add: example_extractor_def example_cached_def)
  note skip = getClassCandidates_memoized[where e = example_extractor and l = "''  a b  ''"
      and c = "[String_object ''*'']" and s = "[''a b'']" and ch = example_cached]
  have 1: "getClassCandidates_line example_extractor ''  a b  '' ([String_object ''*''], [''a b''], example_cached) =
     Inr ([String_object ''*''], [''a b''], example_cached)"
    using skip[THEN conjunct2, THEN conjunct1] by (simp add: example_page_lines)
  note hit = getClassCandidates_memoized[where e = example_extractor and l = "'' zz''"
      and c = "[String_object ''*'']" and s = "[''a b'']" and ch = example_cached and lru = example_lru]
  have 2: "getClassCandidates_line example_extractor '' zz'' ([String_object ''*''], [''a b''], example_cached) =
     Inr ([String_object ''*'', Primitive ''cached''], [''a b'', ''zz''],
          example_cached(ConfigFn 0 \<mapsto> example_lru))"
    using hit[THEN conjunct2, THEN conjunct2, THEN conjunct1]
    by (simp add: example_page_lines f example_lru_zz Set_addAll_def Set_add_def)
  note miss = getClassCandidates_memoized[where e = example_extractor and l = "''yy ''"
      and c = "[String_object ''*'']" and s = "[''a b'']" and ch = example_cached and lru = example_lru
      and res = "[''!*'', ''yy'']"]
  have 3: "getClassCandidates_line example_extractor ''yy '' ([String_object ''*''], [''a b''], example_cached) =
     Inr ([String_object ''*'', Primitive ''yy''], [''a b'', ''yy''],
          example_cached(ConfigFn 0 \<mapsto> LRU_set example_lru ''yy'' [''yy''])) \<and>
     fst (LRU_get (LRU_set example_lru ''yy'' [''yy'']) ''yy'') = Some [''yy'']"
    using miss[THEN conjunct2, THEN conjunct2, THEN conjunct2, THEN conjunct1]
    by (simp add: example_page_lines f example_lru_zz new_Set_def Set_addAll_def Set_add_def)
  from example_collect_page_script obtain ch' where
    run: "collect_candidates example_externals (example_context [example_page, example_script]) example_cached 0 =
      Inr ([String_object ''*'', Primitive ''a'', Primitive ''b'', Primitive ''q'',
         Primitive ''cached'', Primitive ''yy''], ch', 1)"
    by (rule exE)
  note pass = getClassCandidates_memoized[of _ _ _ _ example_cached _ _ _ _ _ _ _
      example_externals "example_context [example_page, example_script]" 0 "[String_object ''*'', Primitive ''a'', Primitive ''b'', Primitive ''q'',
         Primitive ''cached'', Primitive ''yy'']" ch' 1]
  from pass[THEN conjunct2, THEN conjunct2, THEN conjunct2, THEN conjunct2, THEN conjunct2,
      THEN conjunct2, THEN conjunct1, rule_format, OF run]
  obtain c0 seen' where
    scan: "scan_entries example_externals
        (scan_sequence example_externals
           (regexParserContent (route example_externals (example_context [example_page, example_script]) 0)) 0)
        (c0, [], example_cached) =
        Inr ([String_object ''*'', Primitive ''a'', Primitive ''b'', Primitive ''q'',
         Primitive ''cached'', Primitive ''yy''], seen', ch')"
    and seen: "set seen' =
        (\<Union>entry \<in> set (regexParserContent (route example_externals (example_context [example_page, example_script]) 0)).
           entry_lines example_externals entry)"
    by (elim exE conjE)
  from seen have seen': "set seen' = {''a b'', ''q'', ''zz'', ''yy''}"
    unfolding example_page_def example_script_def example_route_html_js
    by (simp add: example_entry_lines example_page_lines insert_commute)
  from scan seen' have 5: "\<exists>c0 seen' ch'.
      scan_entries example_externals
        (scan_sequence example_externals
           (regexParserContent (route example_externals (example_context [example_page, example_script]) 0)) 0)
        (c0, [], example_cached) =
        Inr ([String_object ''*'', Primitive ''a'', Primitive ''b'', Primitive ''q'',
         Primitive ''cached'', Primitive ''yy''], seen', ch') \<and>
      set seen' = {''a b'', ''q'', ''zz'', ''yy''}"
    by (intro exI[of _ c0] exI[of _ seen'] exI[of _ ch'] conjI)
  note entry = getClassCandidates_memoized[where ext = example_externals
      and item = example_script and content = "''a b\<newline> zz\<newline>yy ''"
      and t = builtIn_DEFAULT and transformed = "''a b\<newline> zz\<newline>yy ''"
      and x = example_extractor and c = "[String_object ''*'', Primitive ''a'', Primitive ''b'', Primitive ''q'']" and s = "[''a b'', ''q'']"
      and ch = example_cached]
  have 6: "scan_entry example_externals (example_script, builtIn_DEFAULT, example_extractor)
     ([String_object ''*'', Primitive ''a'', Primitive ''b'', Primitive ''q''], [''a b'', ''q''], example_cached) =
     getClassCandidates_lines example_extractor ['' zz'', ''yy '']
       ([String_object ''*'', Primitive ''a'', Primitive ''b'', Primitive ''q''], [''a b'', ''q''], example_cached)"
    using entry[THEN conjunct2, THEN conjunct2, THEN conjunct2, THEN conjunct2, THEN conjunct2,
      THEN conjunct2, THEN conjunct2, THEN conjunct2, THEN conjunct2, THEN conjunct2,
      THEN conjunct2, THEN conjunct2, THEN conjunct2, THEN conjunct2]
    by (simp add: example_script_def example_read_content example_page_lines f)
  note seen_all = getClassCandidates_memoized[where ext = example_externals
      and item = "example_item ''js'' ''a b\<newline>q''" and content = "''a b\<newline>q''"
      and t = builtIn_DEFAULT and transformed = "''a b\<newline>q''"
      and x = example_extractor and c = "[String_object ''*'', Primitive ''a'', Primitive ''b'', Primitive ''q'']" and s = "[''a b'', ''q'']"
      and ch = example_cached]
  have 7: "\<exists>ch2. scan_entry example_externals
      (example_item ''js'' ''a b\<newline>q'', builtIn_DEFAULT, example_extractor)
      ([String_object ''*'', Primitive ''a'', Primitive ''b'', Primitive ''q''], [''a b'', ''q''], example_cached) =
      Inr ([String_object ''*'', Primitive ''a'', Primitive ''b'', Primitive ''q''], [''a b'', ''q''], ch2)"
    using seen_all[THEN conjunct2, THEN conjunct2, THEN conjunct2, THEN conjunct2,
      THEN conjunct2, THEN conjunct2, THEN conjunct2, THEN conjunct2, THEN conjunct2,
      THEN conjunct2, THEN conjunct2, THEN conjunct2, THEN conjunct2, THEN conjunct2]
    by (simp add: example_read_content trim_def is_space_def)
  from run have 4: "\<exists>ch'. collect_candidates example_externals (example_context [example_page, example_script]) example_cached 0 =
      Inr ([String_object ''*'', Primitive ''a'', Primitive ''b'', Primitive ''q'',
         Primitive ''cached'', Primitive ''yy''], ch', 1)"
    by (rule exI[of _ ch'])
  from example_scan_page obtain ch1 where
    p1: "getClassCandidates ''  a b  \<newline>q'' \<lparr>fn_id = DefaultExtractorResult 0, call = (\<lambda>line. Inr (example_words [] line)),
        DEFAULT_EXTRACTOR = True\<rparr> [String_object ''*''] [] example_cached =
       Inr ([String_object ''*'', Primitive ''a'', Primitive ''b'', Primitive ''q''], [''a b'', ''q''], ch1)"
    and p2: "ch1 (ConfigFn 0) = Some example_lru"
    by (elim exE conjE)
  have e1: "scan_entries example_externals [(example_page, builtIn_DEFAULT, \<lparr>fn_id = DefaultExtractorResult 0, call = (\<lambda>line. Inr (example_words [] line)),
        DEFAULT_EXTRACTOR = True\<rparr>)]
        ([String_object ''*''], [], example_cached) = Inr ([String_object ''*'', Primitive ''a'', Primitive ''b'', Primitive ''q''], [''a b'', ''q''], ch1)"
    by (simp add: scan_entry_def example_page_def example_read_content p1)
  have r1: "read_content example_externals example_script = Inr ''a b\<newline> zz\<newline>yy ''"
    by (simp add: example_script_def example_read_content)
  have r2: "transformer_call builtIn_DEFAULT ''a b\<newline> zz\<newline>yy '' =
      Inr ''a b\<newline> zz\<newline>yy ''"
    by simp
  note both = getClassCandidates_memoized[where ext = example_externals
      and ?es1.0 = "[(example_page, builtIn_DEFAULT, \<lparr>fn_id = DefaultExtractorResult 0, call = (\<lambda>line. Inr (example_words [] line)),
        DEFAULT_EXTRACTOR = True\<rparr>)]"
      and c = "[String_object ''*'']" and s = "[]" and ch = example_cached
      and ?c1.0 = "[String_object ''*'', Primitive ''a'', Primitive ''b'', Primitive ''q'']" and ?s1.0 = "[''a b'', ''q'']" and ?ch1.0 = ch1
      and item = example_script and content = "''a b\<newline> zz\<newline>yy ''"
      and t = builtIn_DEFAULT and transformed = "''a b\<newline> zz\<newline>yy ''"
      and x = example_extractor]
  from both[THEN conjunct2, THEN conjunct2, THEN conjunct2, THEN conjunct2, THEN conjunct2,
      THEN conjunct2, THEN conjunct2, THEN conjunct2, THEN conjunct2, THEN conjunct2,
      THEN conjunct2, THEN conjunct2, THEN conjunct2, THEN conjunct1, rule_format, OF e1 r1 r2]
  have e2: "scan_entries example_externals
        ([(example_page, builtIn_DEFAULT, \<lparr>fn_id = DefaultExtractorResult 0, call = (\<lambda>line. Inr (example_words [] line)),
        DEFAULT_EXTRACTOR = True\<rparr>)] @
         [(example_script, builtIn_DEFAULT, example_extractor)])
        ([String_object ''*''], [], example_cached) =
        getClassCandidates_lines example_extractor ['' zz'', ''yy '']
          ([String_object ''*'', Primitive ''a'', Primitive ''b'', Primitive ''q''], [''a b'', ''q''], ch1)"
    by (simp add: example_page_def example_entry_lines example_page_lines f p2)
  from e1 e2 have 8: "\<exists>ch1.
      scan_entries example_externals [(example_page, builtIn_DEFAULT, \<lparr>fn_id = DefaultExtractorResult 0, call = (\<lambda>line. Inr (example_words [] line)),
        DEFAULT_EXTRACTOR = True\<rparr>)]
        ([String_object ''*''], [], example_cached) = Inr ([String_object ''*'', Primitive ''a'', Primitive ''b'', Primitive ''q''], [''a b'', ''q''], ch1) \<and>
      scan_entries example_externals
        ([(example_page, builtIn_DEFAULT, \<lparr>fn_id = DefaultExtractorResult 0, call = (\<lambda>line. Inr (example_words [] line)),
        DEFAULT_EXTRACTOR = True\<rparr>)] @
         [(example_script, builtIn_DEFAULT, example_extractor)])
        ([String_object ''*''], [], example_cached) =
        getClassCandidates_lines example_extractor ['' zz'', ''yy '']
          ([String_object ''*'', Primitive ''a'', Primitive ''b'', Primitive ''q''], [''a b'', ''q''], ch1)"
    by (intro exI[of _ ch1] conjI)
  note m1 = 3[THEN conjunct1] and m2 = 3[THEN conjunct2]
  from 1 2 m1 f(3) m2 4 5 6 7 8 example_scan_order_late show ?thesis by (intro conjI)
qed

lemma example_scan_default_a_b:
  "\<exists>ch. getClassCandidates ''a b'' \<lparr>fn_id = DefaultExtractorResult 0, call = (\<lambda>line. Inr (example_words [] line)),
        DEFAULT_EXTRACTOR = True\<rparr> [String_object ''*''] [] Map.empty =
     Inr ([String_object ''*'', Primitive ''a'', Primitive ''b''], [''a b''], ch)"
  by (simp add: getClassCandidates_def getClassCandidates_line_def Let_def trim_def is_space_def
        new_LRU_def LRU_has_def new_Set_def Set_addAll_def Set_add_def)

lemma example_scan_config_a_b:
  "\<exists>ch. getClassCandidates ''a b'' example_extractor [String_object ''*''] [] Map.empty =
     Inr ([String_object ''*'', Primitive ''a b''], [''a b''], ch)"
  by (simp add: getClassCandidates_def getClassCandidates_line_def Let_def trim_def is_space_def
        new_LRU_def LRU_has_def new_Set_def Set_addAll_def Set_add_def example_extractor_def)

lemma example_collect_html_js:
  "map_sum id fst
     (collect_candidates example_externals
        (example_context [example_item ''html'' ''a b'', example_item ''js'' ''a b''])
        Map.empty 0) = Inr [String_object ''*'', Primitive ''a'', Primitive ''b'']"
proof -
  from example_scan_default_a_b obtain ch1 where
    1: "getClassCandidates ''a b'' \<lparr>fn_id = DefaultExtractorResult 0, call = (\<lambda>line. Inr (example_words [] line)),
        DEFAULT_EXTRACTOR = True\<rparr> [String_object ''*''] [] Map.empty =
     Inr ([String_object ''*'', Primitive ''a'', Primitive ''b''], [''a b''], ch1)"
    by (rule exE)
  have "trim ` set (split_lines ''a b'') \<subseteq> set [''a b'']"
    by (simp add: trim_def is_space_def)
  from getClassCandidates_all_seen[OF this, of example_extractor
      "[String_object ''*'', Primitive ''a'', Primitive ''b'']" ch1]
  obtain ch2 where
    2: "getClassCandidates ''a b'' example_extractor
       [String_object ''*'', Primitive ''a'', Primitive ''b''] [''a b''] ch1 =
       Inr ([String_object ''*'', Primitive ''a'', Primitive ''b''], [''a b''], ch2)"
    by (rule exE)
  from example_collect_two[OF 1 2] show ?thesis by simp
qed

lemma example_collect_js:
  "map_sum id fst
     (collect_candidates example_externals (example_context [example_item ''js'' ''a b''])
        Map.empty 0) = Inr [String_object ''*'', Primitive ''a b'']"
proof -
  from example_scan_config_a_b obtain ch where
    1: "getClassCandidates ''a b'' example_extractor [String_object ''*''] [] Map.empty =
          Inr ([String_object ''*'', Primitive ''a b''], [''a b''], ch)"
    by (rule exE)
  have "collect_candidates example_externals (example_context [example_item ''js'' ''a b''])
        Map.empty 0 = Inr ([String_object ''*'', Primitive ''a b''], ch, 0)"
    apply (simp only: collect_candidates_def Let_def example_route_js example_initial_candidates)
    apply (simp add: example_scan_one[OF 1])
    done
  then show ?thesis by simp
qed

text \<open>
  Claim C5 as stated fails on the last point: \<open>seen\<close> is made once for the pass and
  handed to every call. Of two content items with the line \<open>a b\<close>, the second is not
  extracted: its extractor, which alone would give the token \<open>a b\<close>, adds nothing.
\<close>

theorem seen_shared_counterexample:
  "map_sum id fst
     (collect_candidates example_externals
        (example_context [example_item ''html'' ''a b'', example_item ''js'' ''a b''])
        Map.empty 0) = Inr [String_object ''*'', Primitive ''a'', Primitive ''b''] \<and>
   map_sum id fst
     (collect_candidates example_externals (example_context [example_item ''js'' ''a b''])
        Map.empty 0) = Inr [String_object ''*'', Primitive ''a b'']"
  by (simp only: example_collect_html_js example_collect_js)

section \<open>The diagnostic for an empty utilities layer\<close>

lemma splice_marker_source: "source (fst (splice_marker ext ln k ns (r, at))) = source r"
  by (simp add: splice_marker_def Let_def source_set_nodes split: option.splits prod.splits)

lemma splice_layers_source: "source (fst (splice_layers ext ln sheet root)) = source root"
proof -
  have *: "source (fst (splice_marker ext ln k ns st)) = source (fst st)" for k ns st
    by (cases st) (simp add: splice_marker_source)
  show ?thesis
    by (simp add: splice_layers_def Let_def *)
qed

lemma splice_variants_source:
  "splice_variants ext ln vs (r, at) = Inr (r', at') \<Longrightarrow> source r' = source r"
  using splice_marker_source[of ext ln "''variants''" vs r at]
  by (auto simp: splice_variants_def source_set_nodes split: if_splits sum.splits)

lemma splice_variants_Inr:
  "ln ''variants'' \<noteq> None \<or> vs = [] \<Longrightarrow> \<exists>st'. splice_variants ext ln vs st = Inr st'"
  by (cases st) (auto simp: splice_variants_def)

lemma hasUtilityVariants_iff:
  "hasUtilityVariants vs \<longleftrightarrow> (\<exists>node \<in> set vs. raws_parentLayer node = Some ''utilities'')"
  by (simp add: hasUtilityVariants_def list_ex_iff)

lemma splice_Inr:
  assumes "source root \<noteq> None"
    and "ln ''variants'' \<noteq> None \<or> variantNodes ln (variants sheet) = []"
  shows "\<exists>root'. splice_root ext ln sheet root warned =
      Inr (root', warn_utilities ln (utilities sheet) (variantNodes ln (variants sheet)) warned)"
proof -
  obtain r3 at3 where st3: "splice_layers ext ln sheet root = (r3, at3)"
    by (cases "splice_layers ext ln sheet root")
  from splice_variants_Inr[of ln "variantNodes ln (variants sheet)" ext "(r3, at3)"] assms(2)
  obtain r4 at4 where
    sv: "splice_variants ext ln (variantNodes ln (variants sheet)) (r3, at3) = Inr (r4, at4)"
    by (metis surj_pair)
  have "source r3 = source root"
    using splice_layers_source[of ext ln sheet root] by (simp add: st3)
  with splice_variants_source[OF sv] assms(1) have "source r4 \<noteq> None" by simp
  then obtain r5 where "fix_source_end r4 = Inr r5"
    using fix_source_end_Inr by blast
  then show ?thesis
    by (simp add: splice_root_def Let_def st3 sv)
qed

text \<open>
  Claim C6. A pass that splices without failing appends exactly one call
  \<open>log.warn('content-problems', ...)\<close> to the warnings when a utilities marker was
  found, the utilities layer set is empty and no node that passed the variants
  post-filter has the parent layer utilities; otherwise it appends nothing, in
  particular when there is no utilities marker. The utilities marker is replaced by
  the clones of the utilities nodes whether or not there are any, and the warning is
  no failure: with a root that has a source, and a variants marker or no variant
  nodes to append, the splice returns.
\<close>

theorem content_problems_warning:
  "(splice_root ext ln sheet root warned = Inr (root', warned') \<longrightarrow>
      warned' =
        (if ln ''utilities'' \<noteq> None \<and> utilities sheet = [] \<and>
            \<not> (\<exists>node \<in> set (variantNodes ln (variants sheet)).
                   raws_parentLayer node = Some ''utilities'')
         then warned @ [content_problems] else warned)) \<and>
   (ln ''utilities'' = Some (p, marker) \<longrightarrow> at ''utilities'' = Some q \<longrightarrow>
      nodes (fst (splice_marker ext ln ''utilities'' (utilities sheet) (r, at))) =
        replace_at q (cloneNodes ext (utilities sheet) (source marker) ''utilities'') (nodes r)) \<and>
   (source root \<noteq> None \<longrightarrow>
    (ln ''variants'' \<noteq> None \<or> variantNodes ln (variants sheet) = []) \<longrightarrow>
      (\<exists>root''. splice_root ext ln sheet root warned =
         Inr (root'',
              if ln ''utilities'' \<noteq> None \<and> utilities sheet = [] \<and>
                 \<not> (\<exists>node \<in> set (variantNodes ln (variants sheet)).
                        raws_parentLayer node = Some ''utilities'')
              then warned @ [content_problems] else warned)))"
proof (intro conjI impI)
  assume "splice_root ext ln sheet root warned = Inr (root', warned')"
  then have "warned' = warn_utilities ln (utilities sheet) (variantNodes ln (variants sheet)) warned"
    by (rule splice_InrD)
  then show "warned' =
        (if ln ''utilities'' \<noteq> None \<and> utilities sheet = [] \<and>
            \<not> (\<exists>node \<in> set (variantNodes ln (variants sheet)).
                   raws_parentLayer node = Some ''utilities'')
         then warned @ [content_problems] else warned)"
    by (simp add: warn_utilities_def hasUtilityVariants_iff)
next
  assume "ln ''utilities'' = Some (p, marker)" "at ''utilities'' = Some q"
  then show "nodes (fst (splice_marker ext ln ''utilities'' (utilities sheet) (r, at))) =
        replace_at q (cloneNodes ext (utilities sheet) (source marker) ''utilities'') (nodes r)"
    by (simp add: splice_marker_def Let_def nodes_set_nodes)
next
  assume "source root \<noteq> None" "ln ''variants'' \<noteq> None \<or> variantNodes ln (variants sheet) = []"
  from splice_Inr[OF this, of ext warned]
  show "\<exists>root''. splice_root ext ln sheet root warned =
         Inr (root'',
              if ln ''utilities'' \<noteq> None \<and> utilities sheet = [] \<and>
                 \<not> (\<exists>node \<in> set (variantNodes ln (variants sheet)).
                        raws_parentLayer node = Some ''utilities'')
              then warned @ [content_problems] else warned)"
    by (simp add: warn_utilities_def hasUtilityVariants_iff)
qed

theorem content_problems_warning_witness:
  "splice_root example_externals (find_layerNodes (example_only ''utilities'')) example_base_sheet
     (example_only ''utilities'') [] = Inr (example_root [], [content_problems]) \<and>
   nodes (fst (splice_marker example_externals (find_layerNodes (example_only ''utilities''))
                 ''utilities'' (utilities example_base_sheet)
                 (example_only ''utilities'', (\<lambda>k. None)(''utilities'' := Some [0])))) =
     replace_at [0]
       (cloneNodes example_externals (utilities example_base_sheet)
          (source (example_directive ''utilities'' 1)) ''utilities'')
       (nodes (example_only ''utilities'')) \<and>
   (\<exists>root''. splice_root example_externals (find_layerNodes (example_only ''utilities''))
        example_base_sheet (example_only ''utilities'') [] = Inr (root'', [content_problems]))"
proof -
  let ?ln = "find_layerNodes (example_only ''utilities'')"
  have ln: "?ln = (\<lambda>k. None)(''utilities'' := Some ([0], example_directive ''utilities'' 1))"
    by (simp add: example_only_layerNodes layerNodes_keys_def)
  have u: "?ln ''utilities'' = Some ([0], example_directive ''utilities'' 1)"
    and v: "?ln ''variants'' = None" and nu: "?ln ''utilities'' \<noteq> None"
    by (simp_all add: ln)
  have s: "utilities example_base_sheet = []" "variants example_base_sheet = []"
    by (simp_all add: example_base_sheet_def empty_stylesheet_def)
  have vn: "variantNodes ?ln (variants example_base_sheet) = []"
    by (simp add: s variantNodes_def)
  have src: "source (example_only ''utilities'') \<noteq> None"
    by (simp add: example_only_def example_root_def)
  have run: "splice_root example_externals ?ln example_base_sheet (example_only ''utilities'') [] =
      Inr (example_root [], [content_problems])"
    apply (simp add: ln splice_root_def splice_layers_def splice_marker_def splice_variants_def
        variantNodes_def warn_utilities_def hasUtilityVariants_def Let_def example_base_sheet_def
        empty_stylesheet_def example_externals_def example_cloneNodes_def)
    apply (simp add: example_only_def example_root_def example_directive_def
        fix_source_end_def example_source_def warn_utilities_def hasUtilityVariants_def)
    done
  note t = content_problems_warning[of example_externals ?ln example_base_sheet
      "example_only ''utilities''" "[]" "example_root []" "[content_problems]"
      "[0]" "example_directive ''utilities'' 1" "(\<lambda>k. None)(''utilities'' := Some [0])" "[0]"
      "example_only ''utilities''"]
  from t u have 2: "nodes (fst (splice_marker example_externals ?ln ''utilities''
                 (utilities example_base_sheet)
                 (example_only ''utilities'', (\<lambda>k. None)(''utilities'' := Some [0])))) =
     replace_at [0]
       (cloneNodes example_externals (utilities example_base_sheet)
          (source (example_directive ''utilities'' 1)) ''utilities'')
       (nodes (example_only ''utilities''))"
    by simp
  from t src vn nu s have 3: "\<exists>root''. splice_root example_externals ?ln
        example_base_sheet (example_only ''utilities'') [] = Inr (root'', [content_problems])"
    by simp
  from run 2 3 show ?thesis by (intro conjI)
qed

section \<open>Stylesheet cache\<close>

text \<open>
  Claim C7. Provided rule generation does not shrink the class cache (it only ever
  adds to it), the stylesheet cache is built again from the whole rule cache exactly
  when it is null or the number of candidates in the class cache grew across rule
  generation; otherwise the pass goes on with the stylesheet cache it had.
\<close>

theorem stylesheet_rebuild_iff:
  assumes "Map_size (classCache context) \<le>
     Map_size (classCache (generateRules ext (sortedCandidates cs) context))"
  shows "(needs_rebuild (generateRules ext (sortedCandidates cs) context)
            (Map_size (classCache context)) \<longleftrightarrow>
          stylesheetCache (generateRules ext (sortedCandidates cs) context) = None \<or>
          Map_size (classCache context) <
            Map_size (classCache (generateRules ext (sortedCandidates cs) context))) \<and>
     generate ext cs context =
     (let context' = generateRules ext (sortedCandidates cs) context
      in if stylesheetCache context' = None \<or>
            Map_size (classCache context) < Map_size (classCache context')
         then (case buildStylesheet (offsets_sort ext) (ruleCache context') of
                 Inl e \<Rightarrow> Inl e
               | Inr s \<Rightarrow> Inr (context'\<lparr>stylesheetCache := Some s\<rparr>))
         else Inr context')"
  using assms by (auto simp: generate_def needs_rebuild_def Let_def)

lemma example_sortedCandidates:
  "sortedCandidates [Primitive ''flex'', String_object ''*''] = [String_object ''*'', Primitive ''flex'']"
  "sortedCandidates [String_object ''*'', Primitive ''grid''] = [String_object ''*'', Primitive ''grid'']"
  by (simp_all add: sortedCandidates_def Array_sort_def compare_candidates_def new_Set_def
        Set_addAll_def Set_add_def)

lemma example_generateRules_run:
  "example_generateRules [String_object ''*'', Primitive ''flex''] (example_context []) =
     example_built\<lparr>stylesheetCache := None\<rparr>"
  "example_generateRules [String_object ''*'', Primitive ''flex''] example_built = example_built"
  "example_generateRules [String_object ''*'', Primitive ''grid''] example_built =
     example_rebuilt\<lparr>stylesheetCache := stylesheetCache example_built\<rparr>"
  by (simp_all add: example_generateRules_def example_built_def example_rebuilt_def
        example_context_def Let_def numeral_2_eq_2)

theorem stylesheet_rebuild_iff_witness:
  "Map_size (classCache (example_context [])) \<le>
     Map_size (classCache (generateRules example_externals (sortedCandidates [Primitive ''flex'', String_object ''*''])
       (example_context []))) \<and>
   stylesheetCache (example_context []) = None \<and>
   generate example_externals [Primitive ''flex'', String_object ''*''] (example_context []) = Inr example_built \<and>
   Map_size (classCache example_built) \<le>
     Map_size (classCache (generateRules example_externals (sortedCandidates [Primitive ''flex'', String_object ''*''])
       example_built)) \<and>
   \<not> needs_rebuild (generateRules example_externals (sortedCandidates [Primitive ''flex'', String_object ''*'']) example_built)
       (Map_size (classCache example_built)) \<and>
   generate example_externals [Primitive ''flex'', String_object ''*''] example_built = Inr example_built \<and>
   Map_size (classCache example_built) \<le>
     Map_size (classCache (generateRules example_externals (sortedCandidates [String_object ''*'', Primitive ''grid''])
       example_built)) \<and>
   needs_rebuild (generateRules example_externals (sortedCandidates [String_object ''*'', Primitive ''grid'']) example_built)
       (Map_size (classCache example_built)) \<and>
   generate example_externals [String_object ''*'', Primitive ''grid''] example_built = Inr example_rebuilt"
proof -
  have g: "generateRules example_externals (sortedCandidates [Primitive ''flex'', String_object ''*'']) (example_context []) =
        example_built\<lparr>stylesheetCache := None\<rparr>"
      "generateRules example_externals (sortedCandidates [Primitive ''flex'', String_object ''*'']) example_built = example_built"
      "generateRules example_externals (sortedCandidates [String_object ''*'', Primitive ''grid'']) example_built =
        example_rebuilt\<lparr>stylesheetCache := stylesheetCache example_built\<rparr>"
    by (simp_all add: example_externals_def example_sortedCandidates example_generateRules_run)
  have o: "offsets_sort example_externals = (\<lambda>rules. rules)"
    by (simp add: example_externals_def)
  have m: "Map_size (classCache (example_context [])) = 0"
      "Map_size (classCache example_built) = 2"
      "Map_size (classCache example_rebuilt) = 3"
    by (simp_all add: Map_size_def example_context_def example_built_def example_rebuilt_def)
  have n: "stylesheetCache (example_context []) = None"
    by (simp add: example_context_def)
  have s: "stylesheetCache example_built \<noteq> None"
    by (simp add: example_built_def)
  have le1: "Map_size (classCache (example_context [])) \<le>
     Map_size (classCache (generateRules example_externals (sortedCandidates [Primitive ''flex'', String_object ''*''])
       (example_context [])))"
    by (simp add: g m)
  have le2: "Map_size (classCache example_built) \<le>
     Map_size (classCache (generateRules example_externals (sortedCandidates [Primitive ''flex'', String_object ''*''])
       example_built))"
    by (simp add: g)
  have le3: "Map_size (classCache example_built) \<le>
     Map_size (classCache (generateRules example_externals (sortedCandidates [String_object ''*'', Primitive ''grid''])
       example_built))"
    by (simp add: g m)
  from stylesheet_rebuild_iff[OF le1]
  have 1: "generate example_externals [Primitive ''flex'', String_object ''*''] (example_context []) = Inr example_built"
    by (simp add: g m o Let_def example_built_def buildStylesheet_def returnValue_add_def
          Set_add_def empty_stylesheet_def)
  from stylesheet_rebuild_iff[OF le2] s
  have 2: "\<not> needs_rebuild (generateRules example_externals (sortedCandidates [Primitive ''flex'', String_object ''*'']) example_built)
       (Map_size (classCache example_built))"
      "generate example_externals [Primitive ''flex'', String_object ''*''] example_built = Inr example_built"
    by (simp_all add: g Let_def)
  have b: "buildStylesheet (\<lambda>rules. rules) (ruleCache example_rebuilt) =
      Inr \<lparr>base = [0], defaults = [], components = [], utilities = [Suc 0, 2], variants = []\<rparr>"
    by (simp add: example_rebuilt_def example_built_def buildStylesheet_def
          returnValue_add_def Set_add_def empty_stylesheet_def)
  have r: "example_rebuilt\<lparr>stylesheetCache :=
        Some \<lparr>base = [0], defaults = [], components = [], utilities = [Suc 0, 2],
               variants = []\<rparr>\<rparr> =
      example_rebuilt"
    by (simp add: example_rebuilt_def)
  from stylesheet_rebuild_iff[OF le3]
  have 3: "needs_rebuild (generateRules example_externals (sortedCandidates [String_object ''*'', Primitive ''grid'']) example_built)
       (Map_size (classCache example_built)) \<and>
      generate example_externals [String_object ''*'', Primitive ''grid''] example_built = Inr example_rebuilt"
    by (simp add: g m o Let_def b r)
  note 3 = 3[THEN conjunct1] 3[THEN conjunct2]
  from le1 n 1 le2 2 le3 3 show ?thesis by (intro conjI)
qed

section \<open>Duplicate directives\<close>

lemma example_duplicates_layerNodes:
  "find_layerNodes example_duplicates =
     (\<lambda>k. None)(''base'' := Some ([1], example_directive ''base'' 2))"
  by (simp add: find_layerNodes_def example_duplicates_def example_root_def example_directive_def
        layerNodes_callback_def layerNodes_keys_def)

lemma example_duplicates_splice:
  "splice_root example_externals (find_layerNodes example_duplicates) example_base_sheet
     example_duplicates [] =
   Inr (example_root [example_directive ''base'' 1,
          Node (Rule ''html'') (Some (example_source 2)) None []], [])"
  apply (simp add: example_duplicates_layerNodes splice_root_def splice_layers_def splice_marker_def
        splice_variants_def variantNodes_def warn_utilities_def Let_def example_base_sheet_def
        empty_stylesheet_def example_externals_def example_cloneNodes_def)
  apply (simp add: example_duplicates_def example_root_def example_directive_def
        fix_source_end_def example_source_def warn_utilities_def)
  done

lemma example_duplicates_pass:
  "expandTailwindAtRules example_externals (example_state []) example_duplicates =
   Inr (\<lparr>build_context = (example_context [])
            \<lparr>classCache := [(String_object ''*'', [(\<lparr>layer = ''base''\<rparr>, 0)])],
             ruleCache := [(\<lparr>layer = ''base''\<rparr>, 0)],
             stylesheetCache := Some (empty_stylesheet\<lparr>base := [0]\<rparr>),
             objects := (objects (example_context []))
               (0 := Node (Rule ''html'') None None [])\<rparr>,
         extractor_caches = Map.empty, functions_made = 0, warnings = []\<rparr>,
        example_root [example_directive ''base'' 1,
          Node (Rule ''html'') (Some (example_source 2)) None []])"
proof -
  have 1: "\<not> no_layerNodes (find_layerNodes example_duplicates)"
    by (simp add: example_duplicates_layerNodes no_layerNodes_def layerNodes_keys_def)
  have 2: "collect_candidates example_externals (example_context []) Map.empty 0 =
      Inr ([String_object ''*''], Map.empty, 0)"
  proof -
    have "changedContent (example_context []) = []" by (simp add: example_context_def)
    then show ?thesis
      by (simp add: collect_candidates_no_content example_initial_candidates)
  qed
  have 3: "remove_layers [example_directive ''base'' 1,
          Node (Rule ''html'') (Some (example_source 2)) None []] =
      [example_directive ''base'' 1, Node (Rule ''html'') (Some (example_source 2)) None []]"
    by (simp add: example_directive_def stale_layer_def)
  show ?thesis
    by (simp add: expandTailwindAtRules_def Let_def 1 example_state_def 2
          example_generate_sentinel example_sentinel_sheet example_duplicates_splice)
       (simp add: example_root_def example_directive_def stale_layer_def example_context_def)
qed


text \<open>
  Claim C8, as amended. When a document has one or more \<open>@tailwind\<close> directives with
  the same layer name, the last of them in document order is that layer's marker: it
  is the node that \<open>layerNodes\<close> holds after the walk, and the node that the layer's
  content replaces; the directives before it are not the splice target.
\<close>

theorem layerNodes_last_wins:
  assumes "k \<in> set layerNodes_keys"
    and "filter (\<lambda>(p, n). kind n = AtRule ''tailwind'' k) (walk [] 0 (nodes root)) =
           earlier @ [(p, marker)]"
  shows "find_layerNodes root k = Some (p, marker) \<and>
     fst (splice_marker ext (find_layerNodes root) k layer_nodes
            (root, \<lambda>k. map_option fst (find_layerNodes root k))) =
       set_nodes root (replace_at p (cloneNodes ext layer_nodes (source marker) k) (nodes root))"
proof -
  from assms have "find_layerNodes root k = Some (p, marker)"
    by (simp add: find_layerNodes_last)
  then show ?thesis
    by (simp add: splice_marker_def Let_def)
qed

theorem layerNodes_last_wins_witness:
  "find_layerNodes example_duplicates ''base'' = Some ([1], example_directive ''base'' 2) \<and>
   fst (splice_marker example_externals (find_layerNodes example_duplicates) ''base''
          [Node (Rule ''html'') None None []]
          (example_duplicates, \<lambda>k. map_option fst (find_layerNodes example_duplicates k))) =
     set_nodes example_duplicates
       (replace_at [1]
          (cloneNodes example_externals [Node (Rule ''html'') None None []]
             (source (example_directive ''base'' 2)) ''base'')
          (nodes example_duplicates))"
proof -
  have k: "''base'' \<in> set layerNodes_keys"
    by (simp add: layerNodes_keys_def)
  have f: "filter (\<lambda>(p, n). kind n = AtRule ''tailwind'' ''base'')
             (walk [] 0 (nodes example_duplicates)) =
           [([0], example_directive ''base'' 1)] @ [([1], example_directive ''base'' 2)]"
    by (simp add: example_duplicates_def example_root_def example_directive_def)
  from layerNodes_last_wins[OF k f] show ?thesis .
qed

text \<open>
  Claim C8 as stated fails on a document with two directives \<open>@tailwind base\<close>: the
  marker is the second one, and the pass leaves the first directive in the document
  and puts the base rule in the place of the second.
\<close>

theorem layerNodes_first_wins_counterexample:
  "find_layerNodes example_duplicates ''base'' = Some ([1], example_directive ''base'' 2) \<and>
   map_sum id snd
     (expandTailwindAtRules example_externals (example_state []) example_duplicates) =
     Inr (example_root [example_directive ''base'' 1,
            Node (Rule ''html'') (Some (example_source 2)) None []])"
  by (simp add: example_duplicates_layerNodes example_duplicates_pass)

section \<open>The base marker and the defaults layer\<close>

text \<open>
  Claim C9. When a base marker is present, the first splice replaces it by the clones
  of the base nodes followed by the defaults nodes, and the components and utilities
  splices go on from that document. The defaults layer has no marker of its own: with
  no base marker, the result of the splice does not depend on the base and defaults
  layer sets at all, so their rules are nowhere in the document.
\<close>

theorem base_marker_takes_base_then_defaults:
  "(ln ''base'' = Some (p, marker) \<longrightarrow>
      splice_layers ext ln sheet root =
        splice_marker ext ln ''utilities'' (utilities sheet)
          (splice_marker ext ln ''components'' (components sheet)
             (set_nodes root
                (replace_at p
                   (cloneNodes ext (base sheet @ defaults sheet) (source marker) ''base'')
                   (nodes root)),
              \<lambda>k. case map_option fst (ln k) of
                     None \<Rightarrow> None
                   | Some q \<Rightarrow>
                       adjust p
                         (length (cloneNodes ext (base sheet @ defaults sheet) (source marker)
                            ''base'')) q))) \<and>
   (ln ''base'' = None \<longrightarrow>
      splice_root ext ln (sheet\<lparr>base := b, defaults := d\<rparr>) root warned =
      splice_root ext ln sheet root warned)"
  by (simp add: splice_root_def splice_layers_def splice_marker_def Let_def)


theorem base_marker_takes_base_then_defaults_witness:
  "splice_layers example_externals (find_layerNodes (example_only ''base''))
     example_defaults_sheet (example_only ''base'') =
     (example_root [Node (Rule ''html'') (Some (example_source 1)) None [],
                    Node (Rule ''*'') (Some (example_source 1)) None []],
      \<lambda>k. None) \<and>
   splice_root example_externals (find_layerNodes (example_only ''utilities''))
     (example_base_sheet\<lparr>base := [Node (Rule ''html'') None None []],
                          defaults := [Node (Rule ''*'') None None []]\<rparr>)
     (example_only ''utilities'') [] =
   splice_root example_externals (find_layerNodes (example_only ''utilities'')) example_base_sheet
     (example_only ''utilities'') []"
proof -
  let ?ln = "find_layerNodes (example_only ''base'')"
  have ln: "?ln = (\<lambda>k. None)(''base'' := Some ([0], example_directive ''base'' 1))"
    by (simp add: example_only_layerNodes layerNodes_keys_def)
  have b: "?ln ''base'' = Some ([0], example_directive ''base'' 1)"
    by (simp add: ln)
  have n: "find_layerNodes (example_only ''utilities'') ''base'' = None"
    by (simp add: example_only_layerNodes layerNodes_keys_def)
  note t1 = base_marker_takes_base_then_defaults[of ?ln "[0]" "example_directive ''base'' 1"
      example_externals example_defaults_sheet "example_only ''base''"]
  note t2 = base_marker_takes_base_then_defaults[of
      "find_layerNodes (example_only ''utilities'')" _ _ example_externals example_base_sheet
      "example_only ''utilities''" "[Node (Rule ''*'') None None []]"
      "[Node (Rule ''html'') None None []]" "[]"]
  from t1 b have "splice_layers example_externals ?ln example_defaults_sheet (example_only ''base'') =
        splice_marker example_externals ?ln ''utilities'' (utilities example_defaults_sheet)
          (splice_marker example_externals ?ln ''components'' (components example_defaults_sheet)
             (set_nodes (example_only ''base'')
                (replace_at [0]
                   (cloneNodes example_externals
                      (base example_defaults_sheet @ defaults example_defaults_sheet)
                      (source (example_directive ''base'' 1)) ''base'')
                   (nodes (example_only ''base''))),
              \<lambda>k. case map_option fst (?ln k) of
                     None \<Rightarrow> None
                   | Some q \<Rightarrow>
                       adjust [0]
                         (length (cloneNodes example_externals
                            (base example_defaults_sheet @ defaults example_defaults_sheet)
                            (source (example_directive ''base'' 1)) ''base'')) q))"
    by simp
  also have "\<dots> = (example_root [Node (Rule ''html'') (Some (example_source 1)) None [],
                    Node (Rule ''*'') (Some (example_source 1)) None []],
      \<lambda>k. None)"
    apply (simp add: ln splice_marker_def example_defaults_sheet_def empty_stylesheet_def
        example_externals_def example_cloneNodes_def)
    apply (simp add: example_only_def example_root_def example_directive_def fun_eq_iff)
    done
  finally have 1: "splice_layers example_externals ?ln example_defaults_sheet (example_only ''base'') =
     (example_root [Node (Rule ''html'') (Some (example_source 1)) None [],
                    Node (Rule ''*'') (Some (example_source 1)) None []],
      \<lambda>k. None)" .
  from t2 n have 2: "splice_root example_externals (find_layerNodes (example_only ''utilities''))
     (example_base_sheet\<lparr>base := [Node (Rule ''html'') None None []],
                          defaults := [Node (Rule ''*'') None None []]\<rparr>)
     (example_only ''utilities'') [] =
   splice_root example_externals (find_layerNodes (example_only ''utilities'')) example_base_sheet
     (example_only ''utilities'') []"
    by simp
  from 1 2 show ?thesis by (intro conjI)
qed

section \<open>Documents without directives\<close>

text \<open>
  Claim C10. When no at-rule of the document is a \<open>@tailwind\<close> directive whose
  parameter is base, components, utilities or variants, the pass returns at once: the
  document and the whole state (build context with its pending content items, rule,
  class and stylesheet caches, the extraction caches and the warnings) are what they
  were, whatever the collaborators would do.
\<close>

theorem no_directive_early_exit:
  assumes "\<forall>(p, n) \<in> set (walk [] 0 (nodes root)). \<forall>k \<in> set layerNodes_keys.
        kind n \<noteq> AtRule ''tailwind'' k"
  shows "expandTailwindAtRules ext st root = Inr (st, root)"
  using assms by (simp add: expandTailwindAtRules_def no_layerNodes_iff Let_def)


theorem no_directive_early_exit_witness:
  "expandTailwindAtRules example_externals (example_state [example_item ''html'' ''flex''])
     example_plain =
     Inr (example_state [example_item ''html'' ''flex''], example_plain) \<and>
   changedContent (build_context (example_state [example_item ''html'' ''flex''])) =
     [example_item ''html'' ''flex'']"
proof -
  have "\<forall>(p, n) \<in> set (walk [] 0 (nodes example_plain)). \<forall>k \<in> set layerNodes_keys.
        kind n \<noteq> AtRule ''tailwind'' k"
    by (simp add: example_plain_def example_root_def)
  from no_directive_early_exit[OF this] show ?thesis
    by (simp add: example_state_def example_context_def)
qed

end
